(* ===== verification/Prelude.thy ===== *)
theory Prelude
  imports Complex_Main "HOL-Library.Word"
begin

text \<open>
  Shared vocabulary of the development. JavaScript strings are sequences of UTF-16 code
  units, so a string of the model is a \<open>16 word list\<close>; ASCII literals of the sources are
  written \<open>js_str ''...''\<close> and the few non-ASCII characters of the sources (the
  accents of the Portuguese messages and names) as explicit code units. The theory also
  holds \<open>String.prototype.trim\<close> (ECMAScript's WhiteSpace and LineTerminator code points)
  and the list lemmas the component theories share, collected in \<open>model_defs\<close> (the
  definitions a concrete request unfolds) and \<open>prelude_simps\<close>.
\<close>

named_theorems model_defs "definitions unfolded to evaluate the model on a concrete input"
named_theorems prelude_simps "shared rewrite rules on lists and strings"

type_synonym js_string = "16 word list"

definition js_str :: "string \<Rightarrow> js_string" where
  "js_str s = map (\<lambda>c. of_nat (of_char c)) s"

subsection \<open>String.prototype.trim\<close>

text \<open>
  The code points ECMAScript counts as white space (WhiteSpace: TAB, VT, FF, ZWNBSP and
  the Unicode space separators) or line terminators (LF, CR, LS, PS), all in the basic
  multilingual plane, hence single code units.
\<close>

definition is_js_space :: "16 word \<Rightarrow> bool" where
  "is_js_space c \<longleftrightarrow>
     c \<in> {0x09, 0x0A, 0x0B, 0x0C, 0x0D, 0x20, 0xA0, 0x1680, 0x2028, 0x2029, 0x202F,
          0x205F, 0x3000, 0xFEFF} \<or> (0x2000 \<le> c \<and> c \<le> 0x200A)"

definition js_trim :: "js_string \<Rightarrow> js_string" where
  "js_trim s = rev (dropWhile is_js_space (rev (dropWhile is_js_space s)))"

declare js_str_def [model_defs] is_js_space_def [model_defs] js_trim_def [model_defs]

subsection \<open>Shared lemmas\<close>

lemma js_str_Nil [simp]: "js_str [] = []"
  by (simp add: js_str_def)

lemma js_str_Cons: "js_str (c # cs) = of_nat (of_char c) # js_str cs"
  by (simp add: js_str_def)

lemma js_str_append [prelude_simps]: "js_str (xs @ ys) = js_str xs @ js_str ys"
  by (simp add: js_str_def)

lemma rev_dropWhile_rev_split:
  "xs = rev (dropWhile P (rev xs)) @ rev (takeWhile P (rev xs))"
  by (metis rev_append rev_rev_ident takeWhile_dropWhile_id)

lemma hd_rev_dropWhile_rev:
  assumes "rev (dropWhile P (rev xs)) \<noteq> []"
  shows "hd (rev (dropWhile P (rev xs))) = hd xs"
proof -
  have "hd xs = hd (rev (dropWhile P (rev xs)) @ rev (takeWhile P (rev xs)))"
    by (subst rev_dropWhile_rev_split [of xs P]) (rule refl)
  with assms show ?thesis by simp
qed

lemma js_trim_Nil [simp]: "js_trim [] = []"
  by (simp add: js_trim_def)

text \<open>\<open>trim\<close> leaves a string with no white space at either end.\<close>

lemma js_trim_hd:
  assumes "js_trim s \<noteq> []"
  shows "\<not> is_js_space (hd (js_trim s))"
proof -
  let ?d = "dropWhile is_js_space s"
  have d: "?d \<noteq> []"
  proof
    assume "?d = []"
    then have "js_trim s = []" by (simp add: js_trim_def del: dropWhile_eq_Nil_conv)
    with assms show False by simp
  qed
  have "hd (js_trim s) = hd ?d"
    using assms unfolding js_trim_def by (rule hd_rev_dropWhile_rev)
  with d show ?thesis by (simp add: hd_dropWhile)
qed

lemma js_trim_last:
  "js_trim s \<noteq> [] \<Longrightarrow> \<not> is_js_space (last (js_trim s))"
  unfolding js_trim_def
  by (simp add: last_rev hd_dropWhile)

lemma js_trim_Nil_iff [prelude_simps]:
  "js_trim s = [] \<longleftrightarrow> (\<forall>c \<in> set s. is_js_space c)"
proof -
  have "js_trim s = [] \<longleftrightarrow> dropWhile is_js_space s = []"
  proof
    assume t: "js_trim s = []"
    show "dropWhile is_js_space s = []"
    proof (rule ccontr)
      assume d: "dropWhile is_js_space s \<noteq> []"
      then have "hd (dropWhile is_js_space s) \<in> set (rev (dropWhile is_js_space s))"
        by simp
      moreover have "\<not> is_js_space (hd (dropWhile is_js_space s))"
        using d by (rule hd_dropWhile)
      ultimately have "dropWhile is_js_space (rev (dropWhile is_js_space s)) \<noteq> []"
        by (auto simp only: dropWhile_eq_Nil_conv)
      with t show False by (simp add: js_trim_def)
    qed
  qed (simp add: js_trim_def del: dropWhile_eq_Nil_conv)
  then show ?thesis by (metis dropWhile_eq_Nil_conv)
qed

lemma js_trim_idem [prelude_simps]: "js_trim (js_trim s) = js_trim s"
proof (cases "js_trim s = []")
  case True
  have "js_trim [] = []" by (simp add: js_trim_def)
  with True show ?thesis by simp
next
  case False
  let ?t = "js_trim s"
  have "dropWhile is_js_space ?t = ?t"
    using False js_trim_hd [OF False] by (simp add: dropWhile_eq_self_iff)
  moreover have "dropWhile is_js_space (rev ?t) = rev ?t"
    using False js_trim_last [OF False] by (simp add: dropWhile_eq_self_iff hd_rev)
  ultimately show ?thesis by (simp add: js_trim_def)
qed

end
