(* ===== verification/JsValue.thy ===== *)
theory JsValue
  imports Prelude
begin

text \<open>
  The JavaScript values the handlers see. A request body is the value \<open>JSON.parse\<close>
  produced (\<open>json\<close>: null, booleans, numbers, strings, arrays, objects as association
  lists), and a property that is absent reads as \<open>undefined\<close>, so a value read from a
  body is a \<open>json option\<close> with \<open>None\<close> for \<open>undefined\<close>. The operators the sources
  apply to such values are modelled after ECMAScript: truthiness (\<open>!x\<close>, \<open>x || y\<close>),
  \<open>typeof\<close>, loose equality with \<open>null\<close>, \<open>Array.isArray\<close> and property access
  (\<open>x.p\<close>, where an object parsed from duplicated keys keeps the last one). Numbers
  produced by arithmetic are \<open>jsnum\<close>: a finite value, NaN or a signed infinity;
  finite values are reals, so the rounding of IEEE-754 doubles (and the sign of zero) is
  abstracted away.
\<close>

datatype json =
    JNull
  | JBool bool
  | JNum real
  | JStr js_string
  | JArr "json list"
  | JObj "(js_string \<times> json) list"

type_synonym js_value = "json option"

datatype js_type = TUndefined | TObject | TBoolean | TNumber | TString

fun typeof :: "js_value \<Rightarrow> js_type" where
  "typeof None = TUndefined"
| "typeof (Some JNull) = TObject"
| "typeof (Some (JBool _)) = TBoolean"
| "typeof (Some (JNum _)) = TNumber"
| "typeof (Some (JStr _)) = TString"
| "typeof (Some (JArr _)) = TObject"
| "typeof (Some (JObj _)) = TObject"

text \<open>ToBoolean: \<open>undefined\<close>, \<open>null\<close>, \<open>false\<close>, \<open>0\<close> and \<open>''''\<close> are falsy.\<close>

fun truthy :: "js_value \<Rightarrow> bool" where
  "truthy None = False"
| "truthy (Some JNull) = False"
| "truthy (Some (JBool b)) = b"
| "truthy (Some (JNum r)) = (r \<noteq> 0)"
| "truthy (Some (JStr s)) = (s \<noteq> [])"
| "truthy (Some (JArr _)) = True"
| "truthy (Some (JObj _)) = True"

definition js_or :: "js_value \<Rightarrow> js_value \<Rightarrow> js_value" where
  "js_or a b = (if truthy a then a else b)"

text \<open>\<open>x == null\<close> holds for \<open>null\<close> and \<open>undefined\<close> only.\<close>

definition is_nullish :: "js_value \<Rightarrow> bool" where
  "is_nullish v \<longleftrightarrow> v = None \<or> v = Some JNull"

text \<open>
  Property access \<open>x.p\<close> for the property names the sources read (\<open>nome\<close>,
  \<open>preco\<close>, \<open>telefone\<close>, \<open>clienteId\<close>, \<open>itens\<close>, \<open>id\<close>, \<open>quantidade\<close>),
  none of which any built-in prototype defines: only an object's own property is found.
  The sources never read a property of \<open>null\<close> or \<open>undefined\<close> (their guards come
  first), so those cases, where JavaScript would throw, do not arise.
\<close>

fun get_prop :: "json \<Rightarrow> js_string \<Rightarrow> js_value" where
  "get_prop (JObj kvs) k = map_of (rev kvs) k"
| "get_prop _ k = None"

fun is_array :: "js_value \<Rightarrow> bool" where
  "is_array (Some (JArr _)) = True"
| "is_array _ = False"

text \<open>Reading a value the guards have shown to be a string, a number, an array or defined.\<close>

fun str_of :: "js_value \<Rightarrow> js_string" where
  "str_of (Some (JStr s)) = s"
| "str_of _ = []"

fun num_of :: "js_value \<Rightarrow> real" where
  "num_of (Some (JNum r)) = r"
| "num_of _ = 0"

fun arr_of :: "js_value \<Rightarrow> json list" where
  "arr_of (Some (JArr xs)) = xs"
| "arr_of _ = []"

fun val_of :: "js_value \<Rightarrow> json" where
  "val_of (Some j) = j"
| "val_of None = JNull"

subsection \<open>Numbers produced by arithmetic\<close>

datatype jsnum = Fin real | NaN | Infty bool

fun jsnum_add :: "jsnum \<Rightarrow> jsnum \<Rightarrow> jsnum" where
  "jsnum_add (Fin a) (Fin b) = Fin (a + b)"
| "jsnum_add NaN _ = NaN"
| "jsnum_add _ NaN = NaN"
| "jsnum_add (Infty s) (Fin _) = Infty s"
| "jsnum_add (Fin _) (Infty s) = Infty s"
| "jsnum_add (Infty s) (Infty t) = (if s = t then Infty s else NaN)"

fun jsnum_mul :: "jsnum \<Rightarrow> jsnum \<Rightarrow> jsnum" where
  "jsnum_mul (Fin a) (Fin b) = Fin (a * b)"
| "jsnum_mul NaN _ = NaN"
| "jsnum_mul _ NaN = NaN"
| "jsnum_mul (Infty s) (Fin b) = (if b = 0 then NaN else Infty (s = (0 < b)))"
| "jsnum_mul (Fin a) (Infty s) = (if a = 0 then NaN else Infty (s = (0 < a)))"
| "jsnum_mul (Infty s) (Infty t) = Infty (s = t)"

text \<open>\<open>JSON.stringify\<close> writes NaN and the infinities as \<open>null\<close>.\<close>

fun jsnum_json :: "jsnum \<Rightarrow> json" where
  "jsnum_json (Fin r) = JNum r"
| "jsnum_json _ = JNull"

declare js_or_def [model_defs] is_nullish_def [model_defs]

subsection \<open>Reading guards back\<close>

lemma typeof_TNumber_iff [simp]: "typeof v = TNumber \<longleftrightarrow> (\<exists>r. v = Some (JNum r))"
  by (cases v rule: typeof.cases) auto

lemma typeof_TString_iff [simp]: "typeof v = TString \<longleftrightarrow> (\<exists>s. v = Some (JStr s))"
  by (cases v rule: typeof.cases) auto

lemma is_array_iff [simp]: "is_array v \<longleftrightarrow> (\<exists>xs. v = Some (JArr xs))"
  by (cases v rule: is_array.cases) auto

lemma jsnum_add_Fin_iff:
  "jsnum_add a b = Fin r \<longleftrightarrow> (\<exists>x y. a = Fin x \<and> b = Fin y \<and> r = x + y)"
  by (cases "(a, b)" rule: jsnum_add.cases) auto

end
