(* ===== verification/Http.thy ===== *)
theory Http
  imports JsValue
begin

text \<open>
  What a handler sends back through Express's \<open>res\<close>: \<open>res.json(v)\<close> (status 200
  unless \<open>res.status(n)\<close> set another), the body-less answer to a \<open>HEAD\<close> request, the
  plain-text \<open>Allow\<close> list Express's router sends for \<open>OPTIONS\<close>, and the HTML error
  page of Express's final handler when a middleware fails or a handler throws. Also the
  \<open>{ error: msg }\<close> bodies of the handlers' 400 answers and the \<open>req.body || {}\<close>
  default every POST handler starts from.
\<close>

datatype response =
    JsonResp nat json
  | EmptyResp nat
  | TextResp nat js_string
  | ErrorPage nat

fun resp_status :: "response \<Rightarrow> nat" where
  "resp_status (JsonResp n _) = n"
| "resp_status (EmptyResp n) = n"
| "resp_status (TextResp n _) = n"
| "resp_status (ErrorPage n) = n"

definition error_json :: "js_string \<Rightarrow> json" where
  "error_json msg = JObj [(js_str ''error'', JStr msg)]"

definition bad_request :: "js_string \<Rightarrow> response" where
  "bad_request msg = JsonResp 400 (error_json msg)"

text \<open>\<open>req.body || {}\<close>.\<close>

definition body_or_empty :: "js_value \<Rightarrow> json" where
  "body_or_empty b = (case b of Some j \<Rightarrow> if truthy b then j else JObj [] | None \<Rightarrow> JObj [])"

text \<open>The required-string check the routers share:
  \<open>!x || typeof x !== 'string' || x.trim() === ''\<close>.\<close>

definition missing_string :: "js_value \<Rightarrow> bool" where
  "missing_string v \<longleftrightarrow> \<not> truthy v \<or> typeof v \<noteq> TString \<or> js_trim (str_of v) = []"

declare error_json_def [model_defs] bad_request_def [model_defs] body_or_empty_def [model_defs]
  missing_string_def [model_defs]

lemma body_or_empty_truthy [simp]: "truthy (Some (body_or_empty b))"
  by (cases b) (auto simp: body_or_empty_def)

lemma missing_string_iff:
  "\<not> missing_string v \<longleftrightarrow> (\<exists>s. v = Some (JStr s) \<and> js_trim s \<noteq> [])"
proof
  assume "\<not> missing_string v"
  then show "\<exists>s. v = Some (JStr s) \<and> js_trim s \<noteq> []" by (auto simp: missing_string_def)
next
  assume "\<exists>s. v = Some (JStr s) \<and> js_trim s \<noteq> []"
  then obtain s where "v = Some (JStr s)" and t: "js_trim s \<noteq> []" by blast
  moreover from t have "s \<noteq> []" by auto
  ultimately show "\<not> missing_string v" by (simp add: missing_string_def)
qed

lemma resp_status_bad_request [simp]: "resp_status (bad_request msg) = 400"
  by (simp add: bad_request_def)

end
