(* ===== verification/Cardapio.thy ===== *)
theory Cardapio
  imports Http
begin

text \<open>
  The menu router, \<open>src/routes/cardapio.js\<close>. Its state is the module-level array
  \<open>itens\<close> of \<open>{ id, nome, preco }\<close> records (\<open>menu_item\<close>), seeded with two items;
  \<open>GET /\<close> lists it and \<open>POST /\<close> validates \<open>nome\<close> and \<open>preco\<close>, then appends an
  item whose \<open>id\<close> is the array's length plus one. Each handler is a function from the
  request body and the array to the response and the new array.
\<close>

record menu_item =
  item_id :: nat
  item_nome :: js_string
  item_preco :: real

definition cardapio_init :: "menu_item list" where
  "cardapio_init =
    [\<lparr>item_id = 1, item_nome = js_str ''Cachorro-quente'', item_preco = 17 / 2\<rparr>,
     \<lparr>item_id = 2, item_nome = js_str ''Hamb'' @ [0xFA] @ js_str ''rguer'', item_preco = 12\<rparr>]"

definition menu_item_json :: "menu_item \<Rightarrow> json" where
  "menu_item_json it =
     JObj [(js_str ''id'', JNum (of_nat (item_id it))),
           (js_str ''nome'', JStr (item_nome it)),
           (js_str ''preco'', JNum (item_preco it))]"

definition cardapio_get :: "menu_item list \<Rightarrow> response \<times> menu_item list" where
  "cardapio_get itens = (JsonResp 200 (JArr (map menu_item_json itens)), itens)"

definition msg_cardapio_nome :: js_string where
  "msg_cardapio_nome =
     js_str ''Campo `nome` '' @ [0xE9] @ js_str '' obrigat'' @ [0xF3] @
     js_str ''rio e deve ser uma string''"

definition msg_cardapio_preco :: js_string where
  "msg_cardapio_preco =
     js_str ''Campo `preco` '' @ [0xE9] @ js_str '' obrigat'' @ [0xF3] @
     js_str ''rio e deve ser um n'' @ [0xFA] @ js_str ''mero''"

definition cardapio_post :: "js_value \<Rightarrow> menu_item list \<Rightarrow> response \<times> menu_item list" where
  "cardapio_post body itens =
    (let b = body_or_empty body;
         nome = get_prop b (js_str ''nome'');
         preco = get_prop b (js_str ''preco'')
     in if missing_string nome
        then (bad_request msg_cardapio_nome, itens)
        else if is_nullish preco \<or> typeof preco \<noteq> TNumber
        then (bad_request msg_cardapio_preco, itens)
        else
          (let novo = \<lparr>item_id = length itens + 1, item_nome = js_trim (str_of nome),
                       item_preco = num_of preco\<rparr>
           in (JsonResp 201 (menu_item_json novo), itens @ [novo])))"

declare cardapio_init_def [model_defs] menu_item_json_def [model_defs]
  cardapio_get_def [model_defs] msg_cardapio_nome_def [model_defs]
  msg_cardapio_preco_def [model_defs] cardapio_post_def [model_defs]

subsection \<open>The store invariant\<close>

text \<open>
  Identifiers are the positions \<open>1, 2, \<dots>\<close> of the array (nothing is ever removed) and
  every stored name is non-empty and already trimmed.
\<close>

definition cardapio_inv :: "menu_item list \<Rightarrow> bool" where
  "cardapio_inv itens \<longleftrightarrow>
     map item_id itens = [1..<length itens + 1] \<and>
     (\<forall>it \<in> set itens. item_nome it \<noteq> [] \<and> js_trim (item_nome it) = item_nome it)"

subsection \<open>Behaviour of the handlers\<close>

text \<open>The three outcomes of \<open>POST /cardapio\<close>, read off the body.\<close>

lemma cardapio_post_nome_error:
  assumes "\<not> (\<exists>n. get_prop (body_or_empty body) (js_str ''nome'') = Some (JStr n) \<and> js_trim n \<noteq> [])"
  shows "cardapio_post body itens = (bad_request msg_cardapio_nome, itens)"
  using assms missing_string_iff by (auto simp: cardapio_post_def Let_def)

lemma cardapio_post_preco_error:
  assumes "get_prop (body_or_empty body) (js_str ''nome'') = Some (JStr n)" and "js_trim n \<noteq> []"
    and "\<not> (\<exists>p. get_prop (body_or_empty body) (js_str ''preco'') = Some (JNum p))"
  shows "cardapio_post body itens = (bad_request msg_cardapio_preco, itens)"
  using assms missing_string_iff by (auto simp: cardapio_post_def Let_def is_nullish_def)

lemma cardapio_post_created:
  assumes "get_prop (body_or_empty body) (js_str ''nome'') = Some (JStr n)" and "js_trim n \<noteq> []"
    and "get_prop (body_or_empty body) (js_str ''preco'') = Some (JNum p)"
  shows "cardapio_post body itens =
    (let novo = \<lparr>item_id = length itens + 1, item_nome = js_trim n, item_preco = p\<rparr>
     in (JsonResp 201 (menu_item_json novo), itens @ [novo]))"
proof -
  have "\<not> missing_string (Some (JStr n))" using assms(2) by (simp add: missing_string_iff)
  with assms show ?thesis by (simp add: cardapio_post_def Let_def is_nullish_def)
qed

lemma cardapio_post_cases:
  obtains (rejected) msg where "cardapio_post body itens = (bad_request msg, itens)"
  | (created) n p where "js_trim n \<noteq> []"
      and "cardapio_post body itens =
        (JsonResp 201 (menu_item_json \<lparr>item_id = length itens + 1, item_nome = js_trim n, item_preco = p\<rparr>),
         itens @ [\<lparr>item_id = length itens + 1, item_nome = js_trim n, item_preco = p\<rparr>])"
proof (cases "\<exists>n. get_prop (body_or_empty body) (js_str ''nome'') = Some (JStr n) \<and> js_trim n \<noteq> []")
  case False
  then show ?thesis using cardapio_post_nome_error rejected by blast
next
  case True
  then obtain n where n: "get_prop (body_or_empty body) (js_str ''nome'') = Some (JStr n)"
    and t: "js_trim n \<noteq> []" by blast
  show ?thesis
  proof (cases "\<exists>p. get_prop (body_or_empty body) (js_str ''preco'') = Some (JNum p)")
    case False
    then show ?thesis using cardapio_post_preco_error [OF n t] rejected by blast
  next
    case True
    then obtain p where "get_prop (body_or_empty body) (js_str ''preco'') = Some (JNum p)" by blast
    from cardapio_post_created [OF n t this] t show ?thesis
      by (intro created) (simp_all add: Let_def)
  qed
qed

lemma cardapio_inv_snoc:
  assumes "cardapio_inv itens" and "js_trim n \<noteq> []"
  shows "cardapio_inv (itens @ [\<lparr>item_id = Suc (length itens), item_nome = js_trim n, item_preco = p\<rparr>])"
  using assms by (simp add: cardapio_inv_def prelude_simps)

lemma cardapio_post_inv:
  "cardapio_inv itens \<Longrightarrow> cardapio_inv (snd (cardapio_post body itens))"
  by (cases rule: cardapio_post_cases [of body itens]) (simp_all add: cardapio_inv_snoc)

lemma cardapio_inv_init: "cardapio_inv cardapio_init"
  by (simp add: cardapio_inv_def model_defs upt_rec)

lemma cardapio_inv_id_le:
  "cardapio_inv itens \<Longrightarrow> it \<in> set itens \<Longrightarrow> item_id it \<le> length itens"
proof -
  assume inv: "cardapio_inv itens" and it: "it \<in> set itens"
  then have "item_id it \<in> set (map item_id itens)" by simp
  moreover have "map item_id itens = [1..<length itens + 1]"
    using inv by (simp only: cardapio_inv_def)
  ultimately show ?thesis by (simp del: upt_Suc)
qed

subsection \<open>Properties\<close>

text \<open>
  C14: on a store that satisfies the invariant, a \<open>POST /cardapio\<close> that changes the store
  appends exactly one item, answers 201, and the new item's identifier is strictly
  greater than every identifier assigned before.
\<close>

theorem cardapio_post_new_id_greatest:
  assumes "cardapio_inv itens" and "cardapio_post body itens = (r, itens')" and "itens' \<noteq> itens"
  shows "\<exists>novo. itens' = itens @ [novo] \<and> resp_status r = 201 \<and>
           (\<forall>it \<in> set itens. item_id it < item_id novo)"
proof (cases rule: cardapio_post_cases [of body itens])
  case (rejected msg)
  with assms(2,3) show ?thesis by simp
next
  case (created n p)
  with assms(2) have "itens' = itens @ [\<lparr>item_id = length itens + 1, item_nome = js_trim n, item_preco = p\<rparr>]"
    and "resp_status r = 201" by auto
  moreover have "\<forall>it \<in> set itens. item_id it < length itens + 1"
    using cardapio_inv_id_le [OF assms(1)] by (simp add: less_Suc_eq_le)
  ultimately show ?thesis by auto
qed

theorem cardapio_post_new_id_greatest_witness:
  "\<exists>novo. snd (cardapio_post (Some (JObj [(js_str ''nome'', JStr (js_str ''Suco'')), (js_str ''preco'', JNum 5)]))
          cardapio_init) = cardapio_init @ [novo] \<and>
     resp_status (fst (cardapio_post (Some (JObj [(js_str ''nome'', JStr (js_str ''Suco'')), (js_str ''preco'', JNum 5)]))
          cardapio_init)) = 201 \<and>
     list_all (\<lambda>it. item_id it < item_id novo) cardapio_init"
proof -
  let ?b = "Some (JObj [(js_str ''nome'', JStr (js_str ''Suco'')), (js_str ''preco'', JNum 5)])"
  have h1: "cardapio_inv cardapio_init" by (rule cardapio_inv_init)
  have h2: "snd (cardapio_post ?b cardapio_init) \<noteq> cardapio_init"
    by (simp add: model_defs)
  from cardapio_post_new_id_greatest [OF h1 prod.collapse [symmetric] h2] show ?thesis
    by (simp add: list_all_iff)
qed

text \<open>
  C15: \<open>POST /cardapio\<close> rejects a name that is missing, not a string, empty or made of
  white space only (after \<open>trim\<close>) with a 400 answer carrying the handler's message,
  and leaves the store unchanged.
\<close>

theorem cardapio_post_rejects_blank_name:
  assumes "\<forall>n. get_prop (body_or_empty body) (js_str ''nome'') = Some (JStr n) \<longrightarrow>
             (\<forall>c \<in> set n. is_js_space c)"
  shows "cardapio_post body itens = (bad_request msg_cardapio_nome, itens)"
  using assms by (intro cardapio_post_nome_error) (auto simp: prelude_simps)

theorem cardapio_post_rejects_blank_name_witness:
  "cardapio_post (Some (JObj [(js_str ''nome'', JStr [0x20, 0xA0, 0x09]), (js_str ''preco'', JNum 5)])) cardapio_init =
     (bad_request msg_cardapio_nome, cardapio_init)"
proof -
  let ?b = "Some (JObj [(js_str ''nome'', JStr [0x20, 0xA0, 0x09]), (js_str ''preco'', JNum 5)])"
  have h: "\<forall>n. get_prop (body_or_empty ?b) (js_str ''nome'') = Some (JStr n) \<longrightarrow> (\<forall>c \<in> set n. is_js_space c)"
    by (simp add: model_defs)
  from cardapio_post_rejects_blank_name [OF h] show ?thesis .
qed

text \<open>
  C23: the handler checks only that \<open>preco\<close> is a number: a negative price is
  accepted and stored as given (the spec's data model requires \<open>price \<ge> 0\<close>).
\<close>

theorem cardapio_post_accepts_negative_price:
  assumes "get_prop (body_or_empty body) (js_str ''nome'') = Some (JStr n)" and "js_trim n \<noteq> []"
    and "get_prop (body_or_empty body) (js_str ''preco'') = Some (JNum p)" and "p < 0"
  shows "\<exists>novo. cardapio_post body itens = (JsonResp 201 (menu_item_json novo), itens @ [novo]) \<and>
           item_preco novo < 0"
  using cardapio_post_created [OF assms(1-3), of itens] assms(4) by (simp add: Let_def)

theorem cardapio_post_accepts_negative_price_witness:
  "\<exists>novo. cardapio_post (Some (JObj [(js_str ''nome'', JStr (js_str ''Suco'')), (js_str ''preco'', JNum (-5))])) cardapio_init
     = (JsonResp 201 (menu_item_json novo), cardapio_init @ [novo]) \<and> item_preco novo < 0"
proof -
  let ?b = "Some (JObj [(js_str ''nome'', JStr (js_str ''Suco'')), (js_str ''preco'', JNum (-5))])"
  have h1: "get_prop (body_or_empty ?b) (js_str ''nome'') = Some (JStr (js_str ''Suco''))" by (simp add: model_defs)
  have h2: "js_trim (js_str ''Suco'') \<noteq> []" by (simp add: model_defs)
  have h3: "get_prop (body_or_empty ?b) (js_str ''preco'') = Some (JNum (-5))" by (simp add: model_defs)
  have h4: "(-5::real) < 0" by simp
  show ?thesis by (rule cardapio_post_accepts_negative_price [OF h1 h2 h3 h4])
qed

text \<open>
  C24: once the name is valid, a \<open>preco\<close> that is missing, \<open>null\<close> or not a number
  (a numeric string such as \<open>"5"\<close> included) is answered 400 with the price message,
  and the menu stays unchanged.
\<close>

theorem cardapio_post_rejects_non_number_price:
  assumes "get_prop (body_or_empty body) (js_str ''nome'') = Some (JStr n)" and "js_trim n \<noteq> []"
    and "typeof (get_prop (body_or_empty body) (js_str ''preco'')) \<noteq> TNumber"
  shows "cardapio_post body itens = (bad_request msg_cardapio_preco, itens)"
  using assms by (intro cardapio_post_preco_error) auto

theorem cardapio_post_rejects_non_number_price_witness:
  "cardapio_post (Some (JObj [(js_str ''nome'', JStr (js_str ''Suco'')), (js_str ''preco'', JStr (js_str ''5''))])) cardapio_init
     = (bad_request msg_cardapio_preco, cardapio_init)"
proof -
  let ?b = "Some (JObj [(js_str ''nome'', JStr (js_str ''Suco'')), (js_str ''preco'', JStr (js_str ''5''))])"
  have h1: "get_prop (body_or_empty ?b) (js_str ''nome'') = Some (JStr (js_str ''Suco''))" by (simp add: model_defs)
  have h2: "js_trim (js_str ''Suco'') \<noteq> []" by (simp add: model_defs)
  have h3: "typeof (get_prop (body_or_empty ?b) (js_str ''preco'')) \<noteq> TNumber" by (simp add: model_defs)
  show ?thesis by (rule cardapio_post_rejects_non_number_price [OF h1 h2 h3])
qed

end
