(* ===== verification/Clientes.thy ===== *)
theory Clientes
  imports Http
begin

text \<open>
  The customer router, \<open>src/routes/clientes.js\<close>. Its state is the module-level array
  \<open>clientes\<close> of \<open>{ id, nome, telefone }\<close> records (\<open>cliente\<close>), seeded with one
  customer; \<open>GET /\<close> lists it and \<open>POST /\<close> requires two non-blank strings, stores
  them trimmed and numbers the new customer with the array's length plus one.
\<close>

record cliente =
  cli_id :: nat
  cli_nome :: js_string
  cli_telefone :: js_string

definition clientes_init :: "cliente list" where
  "clientes_init =
    [\<lparr>cli_id = 1, cli_nome = js_str ''Jo'' @ [0xE3] @ js_str ''o Silva'',
      cli_telefone = js_str ''99999-0000''\<rparr>]"

definition cliente_json :: "cliente \<Rightarrow> json" where
  "cliente_json c =
     JObj [(js_str ''id'', JNum (of_nat (cli_id c))),
           (js_str ''nome'', JStr (cli_nome c)),
           (js_str ''telefone'', JStr (cli_telefone c))]"

definition clientes_get :: "cliente list \<Rightarrow> response \<times> cliente list" where
  "clientes_get clientes = (JsonResp 200 (JArr (map cliente_json clientes)), clientes)"

definition msg_clientes_nome :: js_string where
  "msg_clientes_nome = js_str ''Campo `nome` '' @ [0xE9] @ js_str '' obrigat'' @ [0xF3] @ js_str ''rio''"

definition msg_clientes_telefone :: js_string where
  "msg_clientes_telefone =
     js_str ''Campo `telefone` '' @ [0xE9] @ js_str '' obrigat'' @ [0xF3] @ js_str ''rio''"

definition clientes_post :: "js_value \<Rightarrow> cliente list \<Rightarrow> response \<times> cliente list" where
  "clientes_post body clientes =
    (let b = body_or_empty body;
         nome = get_prop b (js_str ''nome'');
         telefone = get_prop b (js_str ''telefone'')
     in if missing_string nome then (bad_request msg_clientes_nome, clientes)
        else if missing_string telefone then (bad_request msg_clientes_telefone, clientes)
        else
          (let novo = \<lparr>cli_id = length clientes + 1, cli_nome = js_trim (str_of nome),
                       cli_telefone = js_trim (str_of telefone)\<rparr>
           in (JsonResp 201 (cliente_json novo), clientes @ [novo])))"

declare clientes_init_def [model_defs] cliente_json_def [model_defs] clientes_get_def [model_defs]
  msg_clientes_nome_def [model_defs] msg_clientes_telefone_def [model_defs]
  clientes_post_def [model_defs]

subsection \<open>The store invariant\<close>

definition clientes_inv :: "cliente list \<Rightarrow> bool" where
  "clientes_inv clientes \<longleftrightarrow>
     map cli_id clientes = [1..<length clientes + 1] \<and>
     (\<forall>c \<in> set clientes. cli_nome c \<noteq> [] \<and> js_trim (cli_nome c) = cli_nome c \<and>
                          cli_telefone c \<noteq> [] \<and> js_trim (cli_telefone c) = cli_telefone c)"

subsection \<open>Behaviour of the handlers\<close>

lemma clientes_post_cases:
  obtains (rejected) msg where "clientes_post body clientes = (bad_request msg, clientes)"
  | (created) n t where "js_trim n \<noteq> []" and "js_trim t \<noteq> []"
      and "get_prop (body_or_empty body) (js_str ''nome'') = Some (JStr n)"
      and "get_prop (body_or_empty body) (js_str ''telefone'') = Some (JStr t)"
      and "clientes_post body clientes =
        (JsonResp 201 (cliente_json \<lparr>cli_id = length clientes + 1, cli_nome = js_trim n, cli_telefone = js_trim t\<rparr>),
         clientes @ [\<lparr>cli_id = length clientes + 1, cli_nome = js_trim n, cli_telefone = js_trim t\<rparr>])"
proof -
  let ?nome = "get_prop (body_or_empty body) (js_str ''nome'')"
  let ?tel = "get_prop (body_or_empty body) (js_str ''telefone'')"
  show ?thesis
  proof (cases "missing_string ?nome")
    case True
    then show ?thesis using rejected [of msg_clientes_nome] by (simp add: clientes_post_def Let_def)
  next
    case nome: False
    show ?thesis
    proof (cases "missing_string ?tel")
      case True
      with nome show ?thesis
        using rejected [of msg_clientes_telefone] by (simp add: clientes_post_def Let_def)
    next
      case False
      with nome obtain n t where n: "?nome = Some (JStr n)" "js_trim n \<noteq> []"
        and t: "?tel = Some (JStr t)" "js_trim t \<noteq> []" by (auto simp: missing_string_iff)
      with nome False show ?thesis
        using created [OF n(2) t(2) n(1) t(1)] by (simp add: clientes_post_def Let_def)
    qed
  qed
qed

lemma clientes_inv_init: "clientes_inv clientes_init"
  by (simp add: clientes_inv_def model_defs)

lemma clientes_post_inv:
  "clientes_inv clientes \<Longrightarrow> clientes_inv (snd (clientes_post body clientes))"
  by (cases rule: clientes_post_cases [of body clientes]) (simp_all add: clientes_inv_def prelude_simps)

subsection \<open>Properties\<close>

text \<open>
  C20: a \<open>POST /clientes\<close> whose \<open>nome\<close> and \<open>telefone\<close> are strings that are not
  blank after \<open>trim\<close> is answered 201 and appends the customer with the next
  identifier and both fields trimmed.
\<close>

theorem clientes_post_stores_trimmed:
  assumes "get_prop (body_or_empty body) (js_str ''nome'') = Some (JStr n)" and "js_trim n \<noteq> []"
    and "get_prop (body_or_empty body) (js_str ''telefone'') = Some (JStr t)" and "js_trim t \<noteq> []"
  shows "clientes_post body clientes =
    (JsonResp 201 (cliente_json \<lparr>cli_id = length clientes + 1, cli_nome = js_trim n, cli_telefone = js_trim t\<rparr>),
     clientes @ [\<lparr>cli_id = length clientes + 1, cli_nome = js_trim n, cli_telefone = js_trim t\<rparr>])"
proof -
  have "\<not> missing_string (Some (JStr n))" and "\<not> missing_string (Some (JStr t))"
    using assms(2,4) by (simp_all add: missing_string_iff)
  with assms(1,3) show ?thesis by (simp add: clientes_post_def Let_def)
qed

theorem clientes_post_stores_trimmed_witness:
  "clientes_post (Some (JObj [(js_str ''nome'', JStr (js_str '' Ana '')), (js_str ''telefone'', JStr (js_str ''123 ''))]))
     clientes_init =
   (JsonResp 201 (cliente_json \<lparr>cli_id = 2, cli_nome = js_str ''Ana'', cli_telefone = js_str ''123''\<rparr>),
    clientes_init @ [\<lparr>cli_id = 2, cli_nome = js_str ''Ana'', cli_telefone = js_str ''123''\<rparr>])"
proof -
  let ?b = "Some (JObj [(js_str ''nome'', JStr (js_str '' Ana '')), (js_str ''telefone'', JStr (js_str ''123 ''))])"
  have h1: "get_prop (body_or_empty ?b) (js_str ''nome'') = Some (JStr (js_str '' Ana ''))" by (simp add: model_defs)
  have h2: "js_trim (js_str '' Ana '') \<noteq> []" by (simp add: model_defs)
  have h3: "get_prop (body_or_empty ?b) (js_str ''telefone'') = Some (JStr (js_str ''123 ''))" by (simp add: model_defs)
  have h4: "js_trim (js_str ''123 '') \<noteq> []" by (simp add: model_defs)
  have t1: "js_trim (js_str '' Ana '') = js_str ''Ana''" and t2: "js_trim (js_str ''123 '') = js_str ''123''"
    by (simp_all add: model_defs)
  from clientes_post_stores_trimmed [OF h1 h2 h3 h4, of clientes_init] show ?thesis
    by (simp add: t1 t2 clientes_init_def numeral_2_eq_2)
qed

text \<open>
  C21: a \<open>POST /clientes\<close> whose \<open>nome\<close> is missing, not a string, empty or made
  of white space only (\<open>"  "\<close> is truthy, so only the \<open>trim\<close> test refuses it) is
  answered 400 with the name message, and the customers stay unchanged.
\<close>

theorem clientes_post_rejects_blank_name:
  assumes "\<forall>n. get_prop (body_or_empty body) (js_str ''nome'') = Some (JStr n) \<longrightarrow>
             (\<forall>c \<in> set n. is_js_space c)"
  shows "clientes_post body clientes = (bad_request msg_clientes_nome, clientes)"
proof -
  have "\<not> (\<exists>s. get_prop (body_or_empty body) (js_str ''nome'') = Some (JStr s) \<and> js_trim s \<noteq> [])"
    using assms by (auto simp: prelude_simps)
  then have "missing_string (get_prop (body_or_empty body) (js_str ''nome''))"
    using missing_string_iff by blast
  then show ?thesis by (simp add: clientes_post_def Let_def)
qed

theorem clientes_post_rejects_blank_name_witness:
  "clientes_post (Some (JObj [(js_str ''nome'', JStr [0x20, 0x09, 0x20]), (js_str ''telefone'', JStr (js_str ''123''))]))
     clientes_init =
   (bad_request msg_clientes_nome, clientes_init)"
proof -
  let ?b = "Some (JObj [(js_str ''nome'', JStr [0x20, 0x09, 0x20]), (js_str ''telefone'', JStr (js_str ''123''))])"
  have h: "\<forall>n. get_prop (body_or_empty ?b) (js_str ''nome'') = Some (JStr n) \<longrightarrow> (\<forall>c \<in> set n. is_js_space c)"
    by (simp add: model_defs)
  from clientes_post_rejects_blank_name [OF h] show ?thesis .
qed

text \<open>
  C22: a \<open>POST /clientes\<close> with a string \<open>nome\<close> that is not all white space but a
  \<open>telefone\<close> that is missing, not a string, empty or made of white space only is
  answered 400 with the telephone message, and the customers stay unchanged.
\<close>

theorem clientes_post_rejects_blank_phone:
  assumes "\<exists>n. get_prop (body_or_empty body) (js_str ''nome'') = Some (JStr n) \<and>
             \<not> (\<forall>c \<in> set n. is_js_space c)"
    and "\<forall>t. get_prop (body_or_empty body) (js_str ''telefone'') = Some (JStr t) \<longrightarrow>
             (\<forall>c \<in> set t. is_js_space c)"
  shows "clientes_post body clientes = (bad_request msg_clientes_telefone, clientes)"
proof -
  have "\<exists>s. get_prop (body_or_empty body) (js_str ''nome'') = Some (JStr s) \<and> js_trim s \<noteq> []"
    using assms(1) by (auto simp: prelude_simps)
  then have "\<not> missing_string (get_prop (body_or_empty body) (js_str ''nome''))"
    using missing_string_iff by blast
  moreover have "\<not> (\<exists>s. get_prop (body_or_empty body) (js_str ''telefone'') = Some (JStr s) \<and> js_trim s \<noteq> [])"
    using assms(2) by (auto simp: prelude_simps)
  then have "missing_string (get_prop (body_or_empty body) (js_str ''telefone''))"
    using missing_string_iff by blast
  ultimately show ?thesis by (simp add: clientes_post_def Let_def)
qed

theorem clientes_post_rejects_blank_phone_witness:
  "clientes_post (Some (JObj [(js_str ''nome'', JStr (js_str ''Ana'')), (js_str ''telefone'', JStr (js_str ''  ''))]))
     clientes_init =
   (bad_request msg_clientes_telefone, clientes_init)"
proof -
  let ?b = "Some (JObj [(js_str ''nome'', JStr (js_str ''Ana'')), (js_str ''telefone'', JStr (js_str ''  ''))])"
  have h1: "\<exists>n. get_prop (body_or_empty ?b) (js_str ''nome'') = Some (JStr n) \<and> \<not> (\<forall>c \<in> set n. is_js_space c)"
    by (simp add: model_defs)
  have h2: "\<forall>t. get_prop (body_or_empty ?b) (js_str ''telefone'') = Some (JStr t) \<longrightarrow> (\<forall>c \<in> set t. is_js_space c)"
    by (simp add: model_defs)
  from clientes_post_rejects_blank_phone [OF h1 h2] show ?thesis .
qed

end
