(* ===== verification/JsNumber.thy ===== *)
theory JsNumber
  imports JsValue
begin

text \<open>
  ECMAScript's ToNumber on the values a request body can hold, as the multiplication
  \<open>(it.preco || 0) * it.quantidade\<close> of \<open>src/routes/pedidos.js\<close> applies it.
  \<^item> StringToNumber (\<open>str_to_number\<close>): the string is trimmed; empty is 0; otherwise it
    must be a StrDecimalLiteral (optional sign, \<open>Infinity\<close>, or digits with an optional
    fraction and exponent) or a NonDecimalIntegerLiteral (\<open>0b\<close>, \<open>0o\<close>, \<open>0x\<close>
    prefixes, no sign); anything else is NaN. Values are exact (no rounding to doubles).
  \<^item> ToPrimitive on arrays calls \<open>Array.prototype.join\<close>, which renders \<open>null\<close> as the
    empty string and separates elements by commas; a comma is never part of a numeric
    string, so an array of two or more elements is NaN, the empty array 0, and a
    one-element array the number of its element's string. A number's string reads back
    as the same number (\<open>Number::toString\<close> round-trips), so its digits are not spelled
    out here.
  \<^item> ToPrimitive on a parsed object finds any own property \<open>toString\<close> or \<open>valueOf\<close>
    not callable (JSON has no functions); an object with an own \<open>toString\<close> therefore
    has no primitive value and ToPrimitive throws a TypeError, otherwise its string is
    \<open>[object Object]\<close>, which is NaN.
\<close>

datatype js_exn = TypeError

subsection \<open>StringToNumber\<close>

definition is_dec :: "16 word \<Rightarrow> bool" where
  "is_dec c \<longleftrightarrow> 0x30 \<le> c \<and> c \<le> 0x39"

text \<open>The value of a digit in a given base (\<open>0-9\<close>, \<open>a-z\<close>, \<open>A-Z\<close>), if below the base.\<close>

definition digit_val :: "nat \<Rightarrow> 16 word \<Rightarrow> nat option" where
  "digit_val base c =
    (let d = (if 0x30 \<le> c \<and> c \<le> 0x39 then Some (unat c - 0x30)
              else if 0x61 \<le> c \<and> c \<le> 0x7A then Some (unat c - 0x61 + 10)
              else if 0x41 \<le> c \<and> c \<le> 0x5A then Some (unat c - 0x41 + 10)
              else None)
     in case d of Some v \<Rightarrow> if v < base then Some v else None | None \<Rightarrow> None)"

fun digits_acc :: "nat \<Rightarrow> nat \<Rightarrow> js_string \<Rightarrow> nat option" where
  "digits_acc base acc [] = Some acc"
| "digits_acc base acc (c # cs) =
     (case digit_val base c of None \<Rightarrow> None | Some d \<Rightarrow> digits_acc base (acc * base + d) cs)"

definition parse_digits :: "nat \<Rightarrow> js_string \<Rightarrow> nat option" where
  "parse_digits base cs = (if cs = [] then None else digits_acc base 0 cs)"

text \<open>The value of a run of decimal digits.\<close>

definition dec_val :: "js_string \<Rightarrow> nat" where
  "dec_val ds = foldl (\<lambda>acc c. acc * 10 + (unat c - 0x30)) 0 ds"

definition pow10 :: "int \<Rightarrow> real" where
  "pow10 e = (if 0 \<le> e then 10 ^ nat e else 1 / 10 ^ nat (- e))"

text \<open>SignedInteger: an optional sign and at least one decimal digit, nothing after.\<close>

definition parse_signed :: "js_string \<Rightarrow> int option" where
  "parse_signed cs =
    (let (sg, ds) = (case cs of
                       c # r \<Rightarrow> if c = 0x2B then (1, r) else if c = 0x2D then (-1, r) else (1, cs)
                     | [] \<Rightarrow> (1, []))
     in if ds \<noteq> [] \<and> list_all is_dec ds then Some (sg * int (dec_val ds)) else None)"

text \<open>The optional ExponentPart closing a decimal literal: 0 when absent.\<close>

fun parse_exponent :: "js_string \<Rightarrow> int option" where
  "parse_exponent [] = Some 0"
| "parse_exponent (c # cs) = (if c = 0x65 \<or> c = 0x45 then parse_signed cs else None)"

definition decimal_value :: "js_string \<Rightarrow> js_string \<Rightarrow> int \<Rightarrow> real" where
  "decimal_value ip fp e = (real (dec_val ip) + real (dec_val fp) / 10 ^ length fp) * pow10 e"

text \<open>StrUnsignedDecimalLiteral.\<close>

definition parse_unsigned :: "js_string \<Rightarrow> jsnum option" where
  "parse_unsigned u =
    (if u = js_str ''Infinity'' then Some (Infty True)
     else
       (let ip = takeWhile is_dec u; r1 = dropWhile is_dec u in
        if r1 \<noteq> [] \<and> hd r1 = 0x2E then
          (let fp = takeWhile is_dec (tl r1); r2 = dropWhile is_dec (tl r1) in
           if ip = [] \<and> fp = [] then None
           else map_option (\<lambda>e. Fin (decimal_value ip fp e)) (parse_exponent r2))
        else if ip = [] then None
        else map_option (\<lambda>e. Fin (decimal_value ip [] e)) (parse_exponent r1)))"

fun jsnum_neg :: "jsnum \<Rightarrow> jsnum" where
  "jsnum_neg (Fin r) = Fin (- r)"
| "jsnum_neg NaN = NaN"
| "jsnum_neg (Infty b) = Infty (\<not> b)"

text \<open>StrDecimalLiteral: an optional sign before the unsigned literal.\<close>

definition parse_decimal :: "js_string \<Rightarrow> jsnum option" where
  "parse_decimal t =
    (case t of
       c # u \<Rightarrow> if c = 0x2B then parse_unsigned u
                else if c = 0x2D then map_option jsnum_neg (parse_unsigned u)
                else parse_unsigned t
     | [] \<Rightarrow> None)"

text \<open>NonDecimalIntegerLiteral: \<open>0b\<close>/\<open>0B\<close>, \<open>0o\<close>/\<open>0O\<close>, \<open>0x\<close>/\<open>0X\<close> and digits.\<close>

definition radix_of :: "16 word \<Rightarrow> nat" where
  "radix_of c = (if c = 0x62 \<or> c = 0x42 then 2 else if c = 0x6F \<or> c = 0x4F then 8
                 else if c = 0x78 \<or> c = 0x58 then 16 else 0)"

definition parse_nondecimal :: "js_string \<Rightarrow> jsnum option" where
  "parse_nondecimal t =
    (case t of
       z # c # ds \<Rightarrow> if z = 0x30 \<and> radix_of c \<noteq> 0
                     then map_option (\<lambda>v. Fin (real v)) (parse_digits (radix_of c) ds) else None
     | _ \<Rightarrow> None)"

definition str_to_number :: "js_string \<Rightarrow> jsnum" where
  "str_to_number s =
    (let t = js_trim s in
     if t = [] then Fin 0
     else case parse_nondecimal t of
            Some v \<Rightarrow> v
          | None \<Rightarrow> (case parse_decimal t of Some v \<Rightarrow> v | None \<Rightarrow> NaN))"

subsection \<open>ToNumber of a parsed JSON value\<close>

definition own_key :: "(js_string \<times> json) list \<Rightarrow> js_string \<Rightarrow> bool" where
  "own_key kvs k \<longleftrightarrow> k \<in> set (map fst kvs)"

text \<open>Whether \<open>Array.prototype.join\<close> throws on an element (an object with an own
  \<open>toString\<close>, or an array holding one).\<close>

fun tostring_throws :: "json \<Rightarrow> bool" and elems_throw :: "json list \<Rightarrow> bool" where
  "tostring_throws (JObj kvs) = own_key kvs (js_str ''toString'')"
| "tostring_throws (JArr xs) = elems_throw xs"
| "tostring_throws _ = False"
| "elems_throw [] = False"
| "elems_throw (x # xs) = (tostring_throws x \<or> elems_throw xs)"

text \<open>The number of the string \<open>join\<close> makes of an element, and of a whole array.\<close>

fun elem_number :: "json \<Rightarrow> jsnum" and array_number :: "json list \<Rightarrow> jsnum" where
  "elem_number JNull = Fin 0"
| "elem_number (JBool _) = NaN"
| "elem_number (JNum r) = Fin r"
| "elem_number (JStr s) = str_to_number s"
| "elem_number (JArr xs) = array_number xs"
| "elem_number (JObj _) = NaN"
| "array_number [] = Fin 0"
| "array_number [x] = elem_number x"
| "array_number (_ # _ # _) = NaN"

fun js_to_number :: "js_value \<Rightarrow> js_exn + jsnum" where
  "js_to_number None = Inr NaN"
| "js_to_number (Some JNull) = Inr (Fin 0)"
| "js_to_number (Some (JBool b)) = Inr (Fin (if b then 1 else 0))"
| "js_to_number (Some (JNum r)) = Inr (Fin r)"
| "js_to_number (Some (JStr s)) = Inr (str_to_number s)"
| "js_to_number (Some (JArr xs)) = (if elems_throw xs then Inl TypeError else Inr (array_number xs))"
| "js_to_number (Some (JObj kvs)) =
     (if own_key kvs (js_str ''toString'') then Inl TypeError else Inr NaN)"

text \<open>The multiplication operator: both operands converted, left first.\<close>

definition js_mul :: "js_value \<Rightarrow> js_value \<Rightarrow> js_exn + jsnum" where
  "js_mul a b =
    (case js_to_number a of
       Inl e \<Rightarrow> Inl e
     | Inr x \<Rightarrow> (case js_to_number b of Inl e \<Rightarrow> Inl e | Inr y \<Rightarrow> Inr (jsnum_mul x y)))"

declare is_dec_def [model_defs] digit_val_def [model_defs] parse_digits_def [model_defs]
  dec_val_def [model_defs] pow10_def [model_defs] parse_signed_def [model_defs]
  decimal_value_def [model_defs] parse_unsigned_def [model_defs] parse_decimal_def [model_defs]
  radix_of_def [model_defs] parse_nondecimal_def [model_defs] str_to_number_def [model_defs]
  own_key_def [model_defs] js_mul_def [model_defs]

subsection \<open>Decimal integers read back\<close>

text \<open>\<open>Number::toString\<close> on a natural number: its decimal digits.\<close>

definition dec_digit :: "nat \<Rightarrow> 16 word" where
  "dec_digit d = of_nat (48 + d)"

fun nat_to_dec :: "nat \<Rightarrow> js_string" where
  "nat_to_dec n = (if n < 10 then [dec_digit n] else nat_to_dec (n div 10) @ [dec_digit (n mod 10)])"

declare nat_to_dec.simps [simp del]

lemma unat_dec_digit: "d < 10 \<Longrightarrow> unat (dec_digit d) = 48 + d"
  unfolding dec_digit_def by (rule of_nat_inverse [OF refl]) simp

lemma is_dec_dec_digit: "d < 10 \<Longrightarrow> is_dec (dec_digit d)"
  by (simp add: is_dec_def word_le_nat_alt unat_dec_digit)

lemma is_dec_not_space: "is_dec c \<Longrightarrow> \<not> is_js_space c"
  by (auto simp: is_dec_def is_js_space_def word_le_nat_alt)

lemma is_dec_radix: "is_dec c \<Longrightarrow> radix_of c = 0"
  by (auto simp: is_dec_def radix_of_def)

lemma nat_to_dec_digits: "list_all is_dec (nat_to_dec n)"
proof (induction n rule: nat_to_dec.induct)
  case (1 n)
  then show ?case by (subst nat_to_dec.simps) (simp add: is_dec_dec_digit)
qed

lemma nat_to_dec_not_Nil: "nat_to_dec n \<noteq> []"
  by (subst nat_to_dec.simps) simp

lemma dec_val_snoc: "dec_val (xs @ [c]) = dec_val xs * 10 + (unat c - 0x30)"
  by (simp add: dec_val_def)

lemma dec_val_nat_to_dec: "dec_val (nat_to_dec n) = n"
proof (induction n rule: nat_to_dec.induct)
  case (1 n)
  show ?case
  proof (cases "n < 10")
    case True
    then show ?thesis by (subst nat_to_dec.simps) (simp add: dec_val_def unat_dec_digit)
  next
    case False
    with "1.IH" have "dec_val (nat_to_dec (n div 10)) = n div 10" by simp
    with False show ?thesis
      by (subst nat_to_dec.simps) (simp add: dec_val_snoc unat_dec_digit)
  qed
qed

lemma js_trim_no_space: "list_all (\<lambda>c. \<not> is_js_space c) s \<Longrightarrow> js_trim s = s"
proof -
  assume a: "list_all (\<lambda>c. \<not> is_js_space c) s"
  then have "dropWhile is_js_space s = s"
    by (cases s) (simp_all add: dropWhile_eq_self_iff)
  moreover have "dropWhile is_js_space (rev s) = rev s"
  proof (cases "rev s")
    case Nil
    then show ?thesis by simp
  next
    case (Cons c cs)
    then have "c \<in> set s" by (metis list.set_intros(1) set_rev)
    with a Cons show ?thesis by (simp add: list_all_iff)
  qed
  ultimately show ?thesis by (simp add: js_trim_def)
qed

lemma parse_unsigned_digits:
  assumes "list_all is_dec t" and "t \<noteq> []"
  shows "parse_unsigned t = Some (Fin (real (dec_val t)))"
proof -
  have "hd t \<noteq> 0x49" using assms by (cases t) (auto simp: is_dec_def)
  then have "t \<noteq> js_str ''Infinity''" by (auto simp: js_str_def)
  moreover have tw: "takeWhile is_dec t = t" and dw: "dropWhile is_dec t = []"
    using assms(1) by (simp_all add: list_all_iff)
  ultimately show ?thesis using assms(2)
    unfolding parse_unsigned_def Let_def tw dw by (simp add: decimal_value_def pow10_def dec_val_def)
qed

lemma nat_to_dec_trim: "js_trim (nat_to_dec n) = nat_to_dec n"
  using nat_to_dec_digits is_dec_not_space
  by (intro js_trim_no_space) (simp add: list_all_iff)

text \<open>A natural number written in decimal, as \<open>Number::toString\<close> writes it, is read back
  by StringToNumber as the same number.\<close>

lemma str_to_number_nat_to_dec: "str_to_number (nat_to_dec n) = Fin (real n)"
proof -
  let ?t = "nat_to_dec n"
  have digits: "list_all is_dec ?t" and ne: "?t \<noteq> []"
    by (rule nat_to_dec_digits, rule nat_to_dec_not_Nil)
  have trim: "js_trim ?t = ?t" by (rule nat_to_dec_trim)
  have "parse_nondecimal ?t = None"
    using digits by (auto simp: parse_nondecimal_def is_dec_radix split: list.splits)
  moreover have "parse_decimal ?t = Some (Fin (real n))"
  proof -
    obtain c cs where t: "?t = c # cs" using ne by (cases ?t) auto
    with digits have "is_dec c" by simp
    then have "c \<noteq> 0x2B" and "c \<noteq> 0x2D" by (auto simp: is_dec_def)
    with t have "parse_decimal ?t = parse_unsigned ?t" by (simp add: parse_decimal_def)
    also have "\<dots> = Some (Fin (real n))"
      using parse_unsigned_digits [OF digits ne] by (simp add: dec_val_nat_to_dec)
    finally show ?thesis .
  qed
  ultimately show ?thesis using ne trim by (simp add: str_to_number_def)
qed

end
