(* ===== verification/Pedidos.thy ===== *)
theory Pedidos
  imports Http JsNumber
begin

text \<open>
  The order router, \<open>src/routes/pedidos.js\<close>, the one component with domain logic. Its
  state is the module-level array \<open>pedidos\<close> of \<open>{ id, clienteId, itens, total }\<close>
  records (\<open>pedido\<close>), seeded with one order. \<open>POST /\<close> checks \<open>clienteId\<close> and the
  shape of \<open>itens\<close>, then each line in order (\<open>lines_valid\<close>, the \<open>for\<close> loop with
  its early return), computes the total with \<open>reduce\<close> (\<open>order_total\<close>, whose
  multiplication may throw a TypeError that Express turns into a 500 page) and appends
  the order. \<open>clienteId\<close> and the lines are stored as the client sent them. Besides
  the behaviour of each branch, the lemmas show that the total is the spec's sum when the
  prices are plain numbers. The sum is exact here; in the program it is a sum of doubles,
  which may differ in the last bit and depend on the order of the lines.
\<close>

record pedido =
  ped_id :: nat
  ped_clienteId :: json
  ped_itens :: "json list"
  ped_total :: jsnum

definition pedidos_init :: "pedido list" where
  "pedidos_init =
    [\<lparr>ped_id = 1, ped_clienteId = JNum 1,
      ped_itens = [JObj [(js_str ''id'', JNum 2), (js_str ''quantidade'', JNum 1)]],
      ped_total = Fin 12\<rparr>]"

definition pedido_json :: "pedido \<Rightarrow> json" where
  "pedido_json p =
     JObj [(js_str ''id'', JNum (of_nat (ped_id p))),
           (js_str ''clienteId'', ped_clienteId p),
           (js_str ''itens'', JArr (ped_itens p)),
           (js_str ''total'', jsnum_json (ped_total p))]"

definition pedidos_get :: "pedido list \<Rightarrow> response \<times> pedido list" where
  "pedidos_get peds = (JsonResp 200 (JArr (map pedido_json peds)), peds)"

definition msg_pedidos_obrigatorios :: js_string where
  "msg_pedidos_obrigatorios =
     js_str ''clienteId e itens s'' @ [0xE3] @ js_str ''o obrigat'' @ [0xF3] @ js_str ''rios''"

definition msg_pedidos_item :: js_string where
  "msg_pedidos_item = js_str ''Cada item precisa de `id` (n'' @ [0xFA] @
     js_str ''mero) e `quantidade` (>0)''"

text \<open>The condition of line 40: \<open>!it || typeof it.id !== 'number' || ...\<close>.\<close>

definition line_invalid :: "json \<Rightarrow> bool" where
  "line_invalid it \<longleftrightarrow>
     \<not> truthy (Some it) \<or> typeof (get_prop it (js_str ''id'')) \<noteq> TNumber \<or>
     typeof (get_prop it (js_str ''quantidade'')) \<noteq> TNumber \<or>
     num_of (get_prop it (js_str ''quantidade'')) \<le> 0"

text \<open>The \<open>for ... of\<close> loop: the first invalid line ends the handler.\<close>

fun lines_valid :: "json list \<Rightarrow> bool" where
  "lines_valid [] = True"
| "lines_valid (it # its) = (if line_invalid it then False else lines_valid its)"

text \<open>The reducer's body, \<open>sum + (it.preco || 0) * it.quantidade\<close>.\<close>

definition line_amount :: "json \<Rightarrow> js_exn + jsnum" where
  "line_amount it =
     js_mul (js_or (get_prop it (js_str ''preco'')) (Some (JNum 0)))
            (get_prop it (js_str ''quantidade''))"

fun order_total_acc :: "jsnum \<Rightarrow> json list \<Rightarrow> js_exn + jsnum" where
  "order_total_acc acc [] = Inr acc"
| "order_total_acc acc (it # its) =
     (case line_amount it of Inl e \<Rightarrow> Inl e | Inr a \<Rightarrow> order_total_acc (jsnum_add acc a) its)"

definition order_total :: "json list \<Rightarrow> js_exn + jsnum" where
  "order_total its = order_total_acc (Fin 0) its"

definition pedidos_post :: "js_value \<Rightarrow> pedido list \<Rightarrow> response \<times> pedido list" where
  "pedidos_post body peds =
    (let b = body_or_empty body;
         cid = get_prop b (js_str ''clienteId'');
         its = get_prop b (js_str ''itens'')
     in if \<not> truthy cid \<or> \<not> is_array its \<or> length (arr_of its) = 0
        then (bad_request msg_pedidos_obrigatorios, peds)
        else if \<not> lines_valid (arr_of its)
        then (bad_request msg_pedidos_item, peds)
        else
          (case order_total (arr_of its) of
             Inl _ \<Rightarrow> (ErrorPage 500, peds)
           | Inr t \<Rightarrow>
               (let novo = \<lparr>ped_id = length peds + 1, ped_clienteId = val_of cid,
                            ped_itens = arr_of its, ped_total = t\<rparr>
                in (JsonResp 201 (pedido_json novo), peds @ [novo]))))"

declare pedidos_init_def [model_defs] pedido_json_def [model_defs] pedidos_get_def [model_defs]
  msg_pedidos_obrigatorios_def [model_defs] msg_pedidos_item_def [model_defs]
  line_invalid_def [model_defs] line_amount_def [model_defs] order_total_def [model_defs]
  pedidos_post_def [model_defs]

subsection \<open>The contract of the total\<close>

text \<open>
  The spec's rule: the total is the sum over the lines of the unit price (\<open>preco\<close>, 0
  when missing or falsy) times the quantity. It speaks of numeric prices; \<open>price_plain\<close>
  names the lines whose \<open>preco\<close> is absent, falsy or a number.
\<close>

definition unit_price :: "json \<Rightarrow> real" where
  "unit_price it = (case get_prop it (js_str ''preco'') of Some (JNum p) \<Rightarrow> p | _ \<Rightarrow> 0)"

definition spec_total :: "json list \<Rightarrow> real" where
  "spec_total its = (\<Sum>it \<leftarrow> its. unit_price it * num_of (get_prop it (js_str ''quantidade'')))"

definition price_plain :: "json \<Rightarrow> bool" where
  "price_plain it \<longleftrightarrow>
     (case get_prop it (js_str ''preco'') of
        None \<Rightarrow> True | Some JNull \<Rightarrow> True | Some (JBool b) \<Rightarrow> \<not> b | Some (JNum _) \<Rightarrow> True
      | Some (JStr s) \<Rightarrow> s = [] | Some _ \<Rightarrow> False)"

subsection \<open>The store invariant\<close>

text \<open>
  Identifiers are the positions of the array; every stored order has a truthy
  \<open>clienteId\<close> and a non-empty list of lines that pass the loop's check; and every order
  after the seeded one stores the total \<open>reduce\<close> computes from its lines (the seeded
  order does not: see \<open>pedidos_seed_total_mismatch\<close>).
\<close>

definition pedidos_inv :: "pedido list \<Rightarrow> bool" where
  "pedidos_inv peds \<longleftrightarrow>
     map ped_id peds = [1..<length peds + 1] \<and>
     (\<forall>p \<in> set peds. truthy (Some (ped_clienteId p)) \<and> ped_itens p \<noteq> [] \<and> lines_valid (ped_itens p)) \<and>
     (\<forall>p \<in> set (drop 1 peds). order_total (ped_itens p) = Inr (ped_total p))"

subsection \<open>The loop and the reducer\<close>

lemma lines_valid_list_all: "lines_valid xs \<longleftrightarrow> list_all (\<lambda>it. \<not> line_invalid it) xs"
  by (induction xs) auto

lemma line_valid_iff:
  "\<not> line_invalid it \<longleftrightarrow>
     (\<exists>i q. get_prop it (js_str ''id'') = Some (JNum i) \<and>
            get_prop it (js_str ''quantidade'') = Some (JNum q) \<and> 0 < q)"
  by (cases it) (auto simp: line_invalid_def)

lemma order_total_acc_throws:
  "\<exists>it \<in> set xs. line_amount it = Inl TypeError \<Longrightarrow> order_total_acc acc xs = Inl TypeError"
proof (induction xs arbitrary: acc)
  case Nil
  then show ?case by simp
next
  case (Cons x xs)
  show ?case
  proof (cases "line_amount x")
    case (Inl e)
    then show ?thesis by (cases e) simp
  next
    case (Inr a)
    with Cons.prems have "\<exists>it \<in> set xs. line_amount it = Inl TypeError" by auto
    with Inr Cons.IH show ?thesis by simp
  qed
qed

lemma order_total_acc_NaN: "order_total_acc NaN xs = Inr t \<Longrightarrow> t = NaN"
proof (induction xs)
  case Nil
  then show ?case by simp
next
  case (Cons x xs)
  then show ?case by (auto split: sum.splits)
qed

lemma order_total_acc_NaN_line:
  "it \<in> set xs \<Longrightarrow> line_amount it = Inr NaN \<Longrightarrow> order_total_acc acc xs = Inr t \<Longrightarrow> t = NaN"
proof (induction xs arbitrary: acc)
  case Nil
  then show ?case by simp
next
  case (Cons x xs)
  show ?case
  proof (cases "x = it")
    case True
    with Cons.prems have "order_total_acc (jsnum_add acc NaN) xs = Inr t" by simp
    moreover have "jsnum_add acc NaN = NaN" by (cases acc) auto
    ultimately show ?thesis using order_total_acc_NaN by simp
  next
    case False
    with Cons.prems obtain a where "line_amount x = Inr a"
      and "order_total_acc (jsnum_add acc a) xs = Inr t" by (auto split: sum.splits)
    with False Cons.prems Cons.IH show ?thesis by simp
  qed
qed

lemma line_amount_plain:
  assumes "\<not> line_invalid it" and "price_plain it"
  shows "line_amount it = Inr (Fin (unit_price it * num_of (get_prop it (js_str ''quantidade''))))"
proof -
  from assms(1) obtain q where q: "get_prop it (js_str ''quantidade'') = Some (JNum q)"
    by (auto simp: line_valid_iff)
  with assms(2) show ?thesis
    by (auto simp: line_amount_def js_mul_def js_or_def unit_price_def price_plain_def
        split: option.splits json.splits)
qed

lemma order_total_acc_plain:
  "list_all (\<lambda>it. \<not> line_invalid it \<and> price_plain it) xs \<Longrightarrow>
   order_total_acc (Fin a) xs = Inr (Fin (a + spec_total xs))"
proof (induction xs arbitrary: a)
  case Nil
  then show ?case by (simp add: spec_total_def)
next
  case (Cons x xs)
  then have "line_amount x = Inr (Fin (unit_price x * num_of (get_prop x (js_str ''quantidade''))))"
    by (simp add: line_amount_plain)
  with Cons show ?case by (simp add: spec_total_def algebra_simps)
qed

subsection \<open>The outcomes of \<open>POST /pedidos\<close>\<close>

lemma pedidos_post_created:
  assumes "get_prop (body_or_empty body) (js_str ''clienteId'') = Some c" and "truthy (Some c)"
    and "get_prop (body_or_empty body) (js_str ''itens'') = Some (JArr xs)" and "xs \<noteq> []"
    and "lines_valid xs" and "order_total xs = Inr t"
  shows "pedidos_post body peds =
    (JsonResp 201 (pedido_json \<lparr>ped_id = length peds + 1, ped_clienteId = c, ped_itens = xs, ped_total = t\<rparr>),
     peds @ [\<lparr>ped_id = length peds + 1, ped_clienteId = c, ped_itens = xs, ped_total = t\<rparr>])"
  using assms by (simp add: pedidos_post_def Let_def)

lemma pedidos_post_cases:
  obtains (rejected) msg where "pedidos_post body peds = (bad_request msg, peds)"
  | (failed) "pedidos_post body peds = (ErrorPage 500, peds)"
  | (created) c xs t where "get_prop (body_or_empty body) (js_str ''clienteId'') = Some c"
      and "truthy (Some c)" and "get_prop (body_or_empty body) (js_str ''itens'') = Some (JArr xs)"
      and "xs \<noteq> []" and "lines_valid xs" and "order_total xs = Inr t"
      and "pedidos_post body peds =
        (JsonResp 201 (pedido_json \<lparr>ped_id = length peds + 1, ped_clienteId = c, ped_itens = xs, ped_total = t\<rparr>),
         peds @ [\<lparr>ped_id = length peds + 1, ped_clienteId = c, ped_itens = xs, ped_total = t\<rparr>])"
proof -
  let ?b = "body_or_empty body"
  let ?cid = "get_prop ?b (js_str ''clienteId'')" and ?its = "get_prop ?b (js_str ''itens'')"
  show ?thesis
  proof (cases "\<not> truthy ?cid \<or> \<not> is_array ?its \<or> length (arr_of ?its) = 0")
    case True
    then show ?thesis using rejected by (simp add: pedidos_post_def Let_def)
  next
    case False
    then obtain c xs where c: "?cid = Some c" "truthy (Some c)" and xs: "?its = Some (JArr xs)" "xs \<noteq> []"
      by (cases ?cid) auto
    show ?thesis
    proof (cases "lines_valid xs")
      case False
      then show ?thesis using rejected c xs by (simp add: pedidos_post_def Let_def)
    next
      case True
      show ?thesis
      proof (cases "order_total xs")
        case (Inl e)
        then show ?thesis using failed c xs True by (simp add: pedidos_post_def Let_def)
      next
        case (Inr t)
        from pedidos_post_created [OF c xs True Inr] show ?thesis
          by (rule created [OF c xs True Inr])
      qed
    qed
  qed
qed

lemma pedidos_post_rejected_early:
  assumes "\<not> truthy (get_prop (body_or_empty body) (js_str ''clienteId''))
           \<or> get_prop (body_or_empty body) (js_str ''itens'') = Some (JArr [])"
  shows "pedidos_post body peds = (bad_request msg_pedidos_obrigatorios, peds)"
  using assms by (auto simp: pedidos_post_def Let_def)

lemma str_to_number_Nil [simp]: "str_to_number [] = Fin 0"
  by (simp add: str_to_number_def)

lemma line_amount_string_price:
  assumes "\<not> line_invalid it" and "get_prop it (js_str ''preco'') = Some (JStr s)"
  shows "line_amount it = Inr (jsnum_mul (str_to_number s) (Fin (num_of (get_prop it (js_str ''quantidade'')))))"
proof -
  from assms(1) obtain q where q: "get_prop it (js_str ''quantidade'') = Some (JNum q)"
    by (auto simp: line_valid_iff)
  show ?thesis
  proof (cases "s = []")
    case True
    with assms(2) q show ?thesis by (simp add: line_amount_def js_mul_def js_or_def)
  next
    case False
    with assms(2) q show ?thesis by (simp add: line_amount_def js_mul_def js_or_def)
  qed
qed

lemma line_amount_object_price:
  assumes "get_prop it (js_str ''preco'') = Some (JObj kvs)" and "own_key kvs (js_str ''toString'')"
  shows "line_amount it = Inl TypeError"
  using assms by (simp add: line_amount_def js_mul_def js_or_def)

lemma pedidos_inv_init: "pedidos_inv pedidos_init"
  by (simp add: pedidos_inv_def model_defs)

lemma pedidos_post_inv:
  assumes "pedidos_inv peds"
  shows "pedidos_inv (snd (pedidos_post body peds))"
proof (cases rule: pedidos_post_cases [of body peds])
  case (rejected msg)
  with assms show ?thesis by simp
next
  case failed
  with assms show ?thesis by simp
next
  case (created c xs t)
  let ?n = "\<lparr>ped_id = length peds + 1, ped_clienteId = c, ped_itens = xs, ped_total = t\<rparr>"
  have "set (drop 1 (peds @ [?n])) \<subseteq> set (drop 1 peds) \<union> {?n}"
    by (cases peds) auto
  with assms created show ?thesis
    by (auto simp: pedidos_inv_def)
qed

subsection \<open>Properties\<close>

text \<open>
  C1: the core contract. A \<open>POST /pedidos\<close> whose \<open>clienteId\<close> is truthy and whose
  \<open>itens\<close> is a non-empty array of lines with a numeric \<open>id\<close>, a positive numeric
  \<open>quantidade\<close> and a \<open>preco\<close> that is absent, falsy or a number is answered 201
  with the new order, which is appended with the next identifier, the client's
  \<open>clienteId\<close> and lines unchanged, and the total of the spec: the sum of
  \<open>preco\<close> (0 when missing or falsy) times \<open>quantidade\<close> over the lines.
\<close>

theorem pedidos_post_total_spec:
  assumes "get_prop (body_or_empty body) (js_str ''clienteId'') = Some c" and "truthy (Some c)"
    and "get_prop (body_or_empty body) (js_str ''itens'') = Some (JArr xs)" and "xs \<noteq> []"
    and "lines_valid xs" and "list_all price_plain xs"
  shows "pedidos_post body peds =
    (JsonResp 201 (pedido_json \<lparr>ped_id = length peds + 1, ped_clienteId = c, ped_itens = xs,
                                 ped_total = Fin (spec_total xs)\<rparr>),
     peds @ [\<lparr>ped_id = length peds + 1, ped_clienteId = c, ped_itens = xs,
               ped_total = Fin (spec_total xs)\<rparr>])"
proof -
  have "list_all (\<lambda>it. \<not> line_invalid it \<and> price_plain it) xs"
    using assms(5,6) by (simp add: lines_valid_list_all list_all_iff)
  then have "order_total xs = Inr (Fin (spec_total xs))"
    using order_total_acc_plain [of xs 0] by (simp add: order_total_def)
  with assms(1-5) show ?thesis by (rule pedidos_post_created)
qed

theorem pedidos_post_total_spec_witness:
  "pedidos_post (Some (JObj [(js_str ''clienteId'', JNum 1), (js_str ''itens'', JArr [JObj [(js_str ''id'', JNum 1), (js_str ''quantidade'', JNum 2), (js_str ''preco'', JNum (17 / 2))]])])) pedidos_init =
    (JsonResp 201 (pedido_json \<lparr>ped_id = 2, ped_clienteId = JNum 1,
        ped_itens = [JObj [(js_str ''id'', JNum 1), (js_str ''quantidade'', JNum 2), (js_str ''preco'', JNum (17 / 2))]],
        ped_total = Fin 17\<rparr>),
     pedidos_init @ [\<lparr>ped_id = 2, ped_clienteId = JNum 1,
        ped_itens = [JObj [(js_str ''id'', JNum 1), (js_str ''quantidade'', JNum 2), (js_str ''preco'', JNum (17 / 2))]],
        ped_total = Fin 17\<rparr>])"
proof -
  let ?xs = "[JObj [(js_str ''id'', JNum 1), (js_str ''quantidade'', JNum 2), (js_str ''preco'', JNum (17 / 2))]]"
  have h1: "get_prop (body_or_empty (Some (JObj [(js_str ''clienteId'', JNum 1), (js_str ''itens'', JArr [JObj [(js_str ''id'', JNum 1), (js_str ''quantidade'', JNum 2), (js_str ''preco'', JNum (17 / 2))]])]))) (js_str ''clienteId'') = Some (JNum 1)"
    by (simp add: model_defs)
  have h2: "truthy (Some (JNum 1))" by simp
  have h3: "get_prop (body_or_empty (Some (JObj [(js_str ''clienteId'', JNum 1), (js_str ''itens'', JArr [JObj [(js_str ''id'', JNum 1), (js_str ''quantidade'', JNum 2), (js_str ''preco'', JNum (17 / 2))]])]))) (js_str ''itens'') = Some (JArr ?xs)"
    by (simp add: model_defs)
  have h4: "?xs \<noteq> []" by simp
  have h5: "lines_valid ?xs" by (simp add: model_defs)
  have h6: "list_all price_plain ?xs" by (simp add: price_plain_def model_defs)
  have "spec_total ?xs = 17" by (simp add: spec_total_def unit_price_def model_defs)
  with pedidos_post_total_spec [OF h1 h2 h3 h4 h5 h6, of pedidos_init] show ?thesis
    by (simp add: pedidos_init_def numeral_2_eq_2)
qed

text \<open>
  C3: a \<open>POST /pedidos\<close> whose \<open>itens\<close> is an empty array is answered 400 with
  the handler's message \<open>msg_pedidos_obrigatorios\<close> and leaves the orders unchanged.
\<close>

theorem pedidos_post_rejects_empty_lines:
  assumes "get_prop (body_or_empty body) (js_str ''itens'') = Some (JArr [])"
  shows "pedidos_post body peds = (JsonResp 400 (error_json msg_pedidos_obrigatorios), peds)"
  using pedidos_post_rejected_early [of body peds] assms by (simp add: bad_request_def)

theorem pedidos_post_rejects_empty_lines_witness:
  "pedidos_post (Some (JObj [(js_str ''clienteId'', JNum 1), (js_str ''itens'', JArr [])])) pedidos_init =
     (JsonResp 400 (JObj [(js_str ''error'', JStr msg_pedidos_obrigatorios)]), pedidos_init)"
proof -
  have h: "get_prop (body_or_empty (Some (JObj [(js_str ''clienteId'', JNum 1), (js_str ''itens'', JArr [])])))
             (js_str ''itens'') = Some (JArr [])" by (simp add: model_defs)
  from pedidos_post_rejects_empty_lines [OF h, of pedidos_init] show ?thesis
    by (simp add: error_json_def)
qed

text \<open>
  C4: once \<open>clienteId\<close> is truthy and \<open>itens\<close> a non-empty array, a line whose
  \<open>quantidade\<close> is a number \<open>\<le> 0\<close> makes \<open>POST /pedidos\<close> answer 400 with the
  per-line message, and the orders stay unchanged.
\<close>

theorem pedidos_post_rejects_nonpositive_quantity:
  assumes "truthy (get_prop (body_or_empty body) (js_str ''clienteId''))"
    and "get_prop (body_or_empty body) (js_str ''itens'') = Some (JArr xs)"
    and "it \<in> set xs" and "get_prop it (js_str ''quantidade'') = Some (JNum q)" and "q \<le> 0"
  shows "pedidos_post body peds = (bad_request msg_pedidos_item, peds)"
proof -
  have "line_invalid it" using assms(4,5) line_valid_iff [of it] by auto
  with assms(3) have "\<not> lines_valid xs" by (auto simp: lines_valid_list_all list_all_iff)
  with assms(1-3) show ?thesis by (auto simp: pedidos_post_def Let_def)
qed

theorem pedidos_post_rejects_nonpositive_quantity_witness:
  "pedidos_post (Some (JObj [(js_str ''clienteId'', JNum 1),
      (js_str ''itens'', JArr [JObj [(js_str ''id'', JNum 1), (js_str ''quantidade'', JNum 0)]])])) pedidos_init =
   (bad_request msg_pedidos_item, pedidos_init)"
proof -
  let ?it = "JObj [(js_str ''id'', JNum 1), (js_str ''quantidade'', JNum 0)]"
  let ?b = "Some (JObj [(js_str ''clienteId'', JNum 1), (js_str ''itens'', JArr [?it])])"
  have h1: "truthy (get_prop (body_or_empty ?b) (js_str ''clienteId''))" by (simp add: model_defs)
  have h2: "get_prop (body_or_empty ?b) (js_str ''itens'') = Some (JArr [?it])" by (simp add: model_defs)
  have h3: "?it \<in> set [?it]" by simp
  have h4: "get_prop ?it (js_str ''quantidade'') = Some (JNum 0)" by (simp add: model_defs)
  have h5: "(0::real) \<le> 0" by simp
  show ?thesis by (rule pedidos_post_rejects_nonpositive_quantity [OF h1 h2 h3 h4 h5])
qed

text \<open>
  C5: creating an order is not idempotent. When a \<open>POST /pedidos\<close> appends an order,
  repeating the same request appends a second order that differs from the first only in
  its identifier, which is one greater.
\<close>

theorem pedidos_post_not_idempotent:
  assumes "pedidos_post body peds = (r, peds @ [n1])"
  shows "\<exists>r' n2. pedidos_post body (peds @ [n1]) = (r', peds @ [n1, n2]) \<and>
           ped_id n2 = ped_id n1 + 1 \<and> n2\<lparr>ped_id := ped_id n1\<rparr> = n1"
proof (cases rule: pedidos_post_cases [of body peds])
  case (rejected msg)
  with assms show ?thesis by simp
next
  case failed
  with assms show ?thesis by simp
next
  case (created c xs t)
  with assms have n1: "n1 = \<lparr>ped_id = length peds + 1, ped_clienteId = c, ped_itens = xs, ped_total = t\<rparr>"
    by simp
  from pedidos_post_created [OF created(1-6), of "peds @ [n1]"] n1 show ?thesis by simp
qed

theorem pedidos_post_not_idempotent_witness:
  "\<exists>r' n2. pedidos_post (Some (JObj [(js_str ''clienteId'', JNum 1),
        (js_str ''itens'', JArr [JObj [(js_str ''id'', JNum 1), (js_str ''quantidade'', JNum 2)]])]))
      (pedidos_init @ [\<lparr>ped_id = 2, ped_clienteId = JNum 1,
         ped_itens = [JObj [(js_str ''id'', JNum 1), (js_str ''quantidade'', JNum 2)]], ped_total = Fin 0\<rparr>]) =
      (r', pedidos_init @ [\<lparr>ped_id = 2, ped_clienteId = JNum 1,
         ped_itens = [JObj [(js_str ''id'', JNum 1), (js_str ''quantidade'', JNum 2)]], ped_total = Fin 0\<rparr>, n2]) \<and>
    ped_id n2 = 3"
proof -
  let ?b = "Some (JObj [(js_str ''clienteId'', JNum 1),
        (js_str ''itens'', JArr [JObj [(js_str ''id'', JNum 1), (js_str ''quantidade'', JNum 2)]])])"
  let ?n1 = "\<lparr>ped_id = 2, ped_clienteId = JNum 1,
         ped_itens = [JObj [(js_str ''id'', JNum 1), (js_str ''quantidade'', JNum 2)]], ped_total = Fin 0\<rparr>"
  have h: "pedidos_post ?b pedidos_init = (fst (pedidos_post ?b pedidos_init), pedidos_init @ [?n1])"
    by (simp add: model_defs numeral_2_eq_2)
  from pedidos_post_not_idempotent [OF h] obtain r' n2
    where "pedidos_post ?b (pedidos_init @ [?n1]) = (r', pedidos_init @ [?n1, n2])"
      and "ped_id n2 = ped_id ?n1 + 1" by blast
  then show ?thesis by auto
qed

text \<open>
  C9: prices are not checked, and \<open>(it.preco || 0) * it.quantidade\<close> coerces a string
  price with ToNumber. When an accepted order has a line whose \<open>preco\<close> is a string
  that is not numeric, its total is NaN, stored as such and sent as \<open>null\<close>.
\<close>

theorem pedidos_post_nan_total:
  assumes "pedidos_post body peds = (r, peds @ [novo])"
    and "it \<in> set (ped_itens novo)" and "get_prop it (js_str ''preco'') = Some (JStr s)"
    and "str_to_number s = NaN"
  shows "ped_total novo = NaN \<and> r = JsonResp 201 (pedido_json novo) \<and> jsnum_json (ped_total novo) = JNull"
proof (cases rule: pedidos_post_cases [of body peds])
  case (rejected msg)
  with assms(1) show ?thesis by simp
next
  case failed
  with assms(1) show ?thesis by simp
next
  case (created c xs t)
  with assms(1) have novo: "novo = \<lparr>ped_id = length peds + 1, ped_clienteId = c, ped_itens = xs, ped_total = t\<rparr>"
    and r: "r = JsonResp 201 (pedido_json novo)" by auto
  with assms(2) have it: "it \<in> set xs" by simp
  with created(5) have "\<not> line_invalid it" by (auto simp: lines_valid_list_all list_all_iff)
  with assms(3,4) have "line_amount it = Inr NaN" by (simp add: line_amount_string_price)
  with it created(6) have "t = NaN" by (auto simp: order_total_def intro: order_total_acc_NaN_line)
  with novo r show ?thesis by simp
qed

theorem pedidos_post_nan_total_witness:
  "fst (pedidos_post (Some (JObj [(js_str ''clienteId'', JNum 1), (js_str ''itens'', JArr [JObj [(js_str ''id'', JNum 1), (js_str ''quantidade'', JNum 2), (js_str ''preco'', JStr (js_str ''abc''))]])])) pedidos_init) =
     JsonResp 201 (JObj [(js_str ''id'', JNum 2), (js_str ''clienteId'', JNum 1),
       (js_str ''itens'', JArr [JObj [(js_str ''id'', JNum 1), (js_str ''quantidade'', JNum 2),
          (js_str ''preco'', JStr (js_str ''abc''))]]), (js_str ''total'', JNull)])"
proof -
  let ?it = "JObj [(js_str ''id'', JNum 1), (js_str ''quantidade'', JNum 2), (js_str ''preco'', JStr (js_str ''abc''))]"
  let ?novo = "\<lparr>ped_id = 2, ped_clienteId = JNum 1, ped_itens = [?it], ped_total = NaN\<rparr>"
  let ?b = "(Some (JObj [(js_str ''clienteId'', JNum 1), (js_str ''itens'', JArr [?it])]))"
  have c1: "get_prop (body_or_empty ?b) (js_str ''clienteId'') = Some (JNum 1)" by (simp add: model_defs)
  have c2: "get_prop (body_or_empty ?b) (js_str ''itens'') = Some (JArr [?it])" by (simp add: model_defs)
  have c3: "lines_valid [?it]" by (simp add: model_defs)
  have c4: "order_total [?it] = Inr NaN" by (simp add: model_defs)
  have c5: "truthy (Some (JNum 1))" and c6: "[?it] \<noteq> []" by simp_all
  from pedidos_post_created [OF c1 c5 c2 c6 c3 c4, of pedidos_init]
  have h1: "pedidos_post ?b pedidos_init = (fst (pedidos_post ?b pedidos_init), pedidos_init @ [?novo])"
    by (simp add: pedidos_init_def numeral_2_eq_2)
  have h2: "?it \<in> set (ped_itens ?novo)" by simp
  have h3: "get_prop ?it (js_str ''preco'') = Some (JStr (js_str ''abc''))" by simp
  have h4: "str_to_number (js_str ''abc'') = NaN" by (simp add: model_defs)
  from pedidos_post_nan_total [OF h1 h2 h3 h4] show ?thesis
    by (simp add: pedido_json_def numeral_2_eq_2)
qed

text \<open>
  C10: a valid order one of whose lines has as \<open>preco\<close> an object with an own property
  \<open>toString\<close> makes the multiplication throw a TypeError: Express answers with its 500
  error page and no order is stored.
\<close>

theorem pedidos_post_typeerror_500:
  assumes "truthy (get_prop (body_or_empty body) (js_str ''clienteId''))"
    and "get_prop (body_or_empty body) (js_str ''itens'') = Some (JArr xs)" and "lines_valid xs"
    and "it \<in> set xs" and "get_prop it (js_str ''preco'') = Some (JObj kvs)"
    and "own_key kvs (js_str ''toString'')"
  shows "pedidos_post body peds = (ErrorPage 500, peds)"
proof -
  from assms(5,6) have "line_amount it = Inl TypeError" by (rule line_amount_object_price)
  with assms(4) have "order_total xs = Inl TypeError"
    unfolding order_total_def by (blast intro: order_total_acc_throws)
  with assms(1-4) show ?thesis by (auto simp: pedidos_post_def Let_def)
qed

theorem pedidos_post_typeerror_500_witness:
  "pedidos_post (Some (JObj [(js_str ''clienteId'', JNum 1), (js_str ''itens'', JArr [JObj [(js_str ''id'', JNum 1), (js_str ''quantidade'', JNum 2), (js_str ''preco'', JObj [(js_str ''toString'', JNum 1)])]])])) pedidos_init = (ErrorPage 500, pedidos_init)"
proof -
  let ?it = "JObj [(js_str ''id'', JNum 1), (js_str ''quantidade'', JNum 2), (js_str ''preco'', JObj [(js_str ''toString'', JNum 1)])]"
  have h1: "truthy (get_prop (body_or_empty (Some (JObj [(js_str ''clienteId'', JNum 1), (js_str ''itens'', JArr [JObj [(js_str ''id'', JNum 1), (js_str ''quantidade'', JNum 2), (js_str ''preco'', JObj [(js_str ''toString'', JNum 1)])]])]))) (js_str ''clienteId''))" by (simp add: model_defs)
  have h2: "get_prop (body_or_empty (Some (JObj [(js_str ''clienteId'', JNum 1), (js_str ''itens'', JArr [JObj [(js_str ''id'', JNum 1), (js_str ''quantidade'', JNum 2), (js_str ''preco'', JObj [(js_str ''toString'', JNum 1)])]])]))) (js_str ''itens'') = Some (JArr [?it])" by (simp add: model_defs)
  have h3: "lines_valid [?it]" by (simp add: model_defs)
  have h4: "?it \<in> set [?it]" by simp
  have h5: "get_prop ?it (js_str ''preco'') = Some (JObj [(js_str ''toString'', JNum 1)])" by simp
  have h6: "own_key [(js_str ''toString'', JNum 1)] (js_str ''toString'')" by (simp add: own_key_def)
  show ?thesis by (rule pedidos_post_typeerror_500 [OF h1 h2 h3 h4 h5 h6])
qed

text \<open>
  C11: the falsy check on \<open>clienteId\<close> rejects the customer identifier 0 (the quirk the
  spec asks to flag): such a request is answered 400 and nothing is stored, whatever
  its lines.
\<close>

theorem pedidos_post_rejects_zero_customer:
  assumes "get_prop (body_or_empty body) (js_str ''clienteId'') = Some (JNum 0)"
  shows "pedidos_post body peds = (bad_request msg_pedidos_obrigatorios, peds)"
  using assms by (intro pedidos_post_rejected_early) simp

theorem pedidos_post_rejects_zero_customer_witness:
  "pedidos_post (Some (JObj [(js_str ''clienteId'', JNum 0),
      (js_str ''itens'', JArr [JObj [(js_str ''id'', JNum 1), (js_str ''quantidade'', JNum 2)]])])) pedidos_init =
   (bad_request msg_pedidos_obrigatorios, pedidos_init)"
proof -
  have h: "get_prop (body_or_empty (Some (JObj [(js_str ''clienteId'', JNum 0),
      (js_str ''itens'', JArr [JObj [(js_str ''id'', JNum 1), (js_str ''quantidade'', JNum 2)]])])))
      (js_str ''clienteId'') = Some (JNum 0)" by (simp add: model_defs)
  show ?thesis by (rule pedidos_post_rejects_zero_customer [OF h])
qed

text \<open>
  The seed against the rule (the finding on \<open>pedidos.js:10\<close>, not a property of the
  handlers): the seeded order's single line has no \<open>preco\<close>, so the reducer gives 0,
  but its stored total is 12.
\<close>

theorem pedidos_seed_total_mismatch:
  "order_total (ped_itens (hd pedidos_init)) = Inr (Fin 0) \<and> ped_total (hd pedidos_init) = Fin 12"
  by (simp add: model_defs)

end
