(* ===== verification/App.thy ===== *)
theory App
  imports Cardapio Clientes Pedidos
begin

text \<open>
  The application, \<open>src/app.js\<close>: Express runs its middleware in order. The JSON body
  parser (\<open>express.json()\<close>, strict: only an object or an array at top level; no JSON
  body leaves \<open>req.body\<close> as \<open>{}\<close>; a parse failure skips every later middleware and
  reaches Express's final handler as a 400 page), then the logger (one line
  \<open>METHOD url\<close> per request, kept as the \<open>st_log\<close> field), then the three routers
  mounted at \<open>/cardapio\<close>, \<open>/pedidos\<close>, \<open>/clientes\<close>, then the 404 handler.
  A middleware either answers or passes on (\<open>None\<close>), so the chain is
  \<open>run_layers\<close> over a list of \<open>layer\<close>s. A router is attached through
  \<open>use_router\<close>, which is generic in the router's state type and reaches it through a
  projection and an update of the application state: this is the interface between the
  application and the three routers.

  Matching follows Express 4 (path-to-regexp 0.1): a mount path \<open>/p\<close> matches the
  pathname (the URL up to \<open>?\<close> or \<open>#\<close>) by \<open>^\/p\/?(?=\/|$)\<close> ignoring ASCII case;
  the matched part is cut off and a leading \<open>/\<close> restored; the routers' only route
  \<open>/\<close> then matches the remaining path \<open>/\<close>. A \<open>HEAD\<close> request runs the \<open>GET\<close>
  handler without sending a body, an \<open>OPTIONS\<close> request on the route gets the list of
  its methods, any other method falls through. \<open>mount_regexp_match\<close> and
  \<open>express_trim_prefix\<close> spell that regexp and Express's \<open>trim_prefix\<close> out literally;
  \<open>mount_match\<close> is proved equal to them, and two mount paths that differ in their first
  characters never match the same path (\<open>mount_match_disjoint\<close>).
\<close>

datatype http_method = GET | HEAD | POST | OPTIONS | OtherMethod js_string

datatype req_body = NoBody | JsonBody json | MalformedJson

record request =
  req_method :: http_method
  req_url :: js_string
  req_body :: req_body

record app_state =
  st_cardapio :: "menu_item list"
  st_clientes :: "cliente list"
  st_pedidos :: "pedido list"
  st_log :: "js_string list"

definition app_init :: app_state where
  "app_init = \<lparr>st_cardapio = cardapio_init, st_clientes = clientes_init,
               st_pedidos = pedidos_init, st_log = []\<rparr>"

subsection \<open>Middleware before the routers\<close>

text \<open>\<open>express.json()\<close>: \<open>None\<close> is a parse error (malformed text, or a primitive at
  top level, which strict mode refuses).\<close>

fun parse_body :: "req_body \<Rightarrow> js_value option" where
  "parse_body NoBody = Some (Some (JObj []))"
| "parse_body (JsonBody (JObj kvs)) = Some (Some (JObj kvs))"
| "parse_body (JsonBody (JArr xs)) = Some (Some (JArr xs))"
| "parse_body (JsonBody _) = None"
| "parse_body MalformedJson = None"

fun method_name :: "http_method \<Rightarrow> js_string" where
  "method_name GET = js_str ''GET''"
| "method_name HEAD = js_str ''HEAD''"
| "method_name POST = js_str ''POST''"
| "method_name OPTIONS = js_str ''OPTIONS''"
| "method_name (OtherMethod m) = m"

definition log_line :: "request \<Rightarrow> js_string" where
  "log_line rq = method_name (req_method rq) @ js_str '' '' @ req_url rq"

subsection \<open>Mounting and routing\<close>

definition pathname :: "js_string \<Rightarrow> js_string" where
  "pathname url = takeWhile (\<lambda>c. c \<noteq> 0x3F \<and> c \<noteq> 0x23) url"

definition ascii_lower :: "16 word \<Rightarrow> 16 word" where
  "ascii_lower c = (if 0x41 \<le> c \<and> c \<le> 0x5A then c + 0x20 else c)"

text \<open>The path left for the router once the mount path has matched, if it matches.\<close>

definition mount_match :: "js_string \<Rightarrow> js_string \<Rightarrow> js_string option" where
  "mount_match prefix path =
    (if length prefix \<le> length path \<and> map ascii_lower (take (length prefix) path) = prefix then
       (let rest = drop (length prefix) path in
        if rest = [] then Some [0x2F]
        else if hd rest \<noteq> 0x2F then None
        else if tl rest = [] then Some [0x2F]
        else if hd (tl rest) = 0x2F then Some (tl rest)
        else Some rest)
     else None)"

text \<open>A reference for \<open>mount_match\<close>, closer to Express 4's code: \<open>app.use(path, router)\<close>
  compiles \<open>path\<close> with path-to-regexp into \<open>^\/path\/?(?=\/|$)\<close> with flag \<open>i\<close>
  (\<open>Layer.match\<close>); \<open>mount_regexp_match\<close> is the length of the match, the greedy
  \<open>\/?\<close> backtracking when the look-ahead fails. The router's \<open>trim_prefix\<close> then
  refuses a match not followed by \<open>/\<close>, \<open>.\<close> or the end, cuts the matched text from
  the path and puts back a leading slash.\<close>

definition mount_regexp_match :: "js_string \<Rightarrow> js_string \<Rightarrow> nat option" where
  "mount_regexp_match prefix path =
    (let l = length prefix;
         boundary = (\<lambda>n. n = length path \<or> (n < length path \<and> path ! n = 0x2F))
     in if l \<le> length path \<and> map ascii_lower (take l path) = map ascii_lower prefix then
          (if l < length path \<and> path ! l = 0x2F \<and> boundary (Suc l) then Some (Suc l)
           else if boundary l then Some l
           else None)
        else None)"

definition express_trim_prefix :: "js_string \<Rightarrow> js_string \<Rightarrow> js_string option" where
  "express_trim_prefix prefix path =
    (case mount_regexp_match prefix path of
       None \<Rightarrow> None
     | Some n \<Rightarrow>
         if n < length path \<and> path ! n \<noteq> 0x2F \<and> path ! n \<noteq> 0x2E then None
         else (let rest = drop n path in
               Some (if rest = [] \<or> hd rest \<noteq> 0x2F then 0x2F # rest else rest)))"

text \<open>A router with the single route \<open>/\<close> holding a GET and a POST handler.\<close>

definition route_root ::
  "http_method \<Rightarrow> js_value \<Rightarrow> ('s \<Rightarrow> response \<times> 's) \<Rightarrow> (js_value \<Rightarrow> 's \<Rightarrow> response \<times> 's) \<Rightarrow>
   's \<Rightarrow> (response \<times> 's) option" where
  "route_root m body get post s =
    (case m of
       GET \<Rightarrow> Some (get s)
     | HEAD \<Rightarrow> Some (EmptyResp (resp_status (fst (get s))), snd (get s))
     | POST \<Rightarrow> Some (post body s)
     | OPTIONS \<Rightarrow> Some (TextResp 200 (js_str ''GET,POST,HEAD''), s)
     | OtherMethod _ \<Rightarrow> None)"

type_synonym layer = "request \<Rightarrow> js_value \<Rightarrow> app_state \<Rightarrow> (response \<times> app_state) option"

definition use_router ::
  "js_string \<Rightarrow> (app_state \<Rightarrow> 's) \<Rightarrow> ('s \<Rightarrow> app_state \<Rightarrow> app_state) \<Rightarrow>
   ('s \<Rightarrow> response \<times> 's) \<Rightarrow> (js_value \<Rightarrow> 's \<Rightarrow> response \<times> 's) \<Rightarrow> layer" where
  "use_router prefix get_s put_s get post rq body st =
    (case mount_match prefix (pathname (req_url rq)) of
       None \<Rightarrow> None
     | Some rest \<Rightarrow>
         if rest = [0x2F]
         then map_option (\<lambda>(r, s'). (r, put_s s' st)) (route_root (req_method rq) body get post (get_s st))
         else None)"

definition not_found_layer :: layer where
  "not_found_layer rq body st = Some (JsonResp 404 (error_json (js_str ''Not Found'')), st)"

text \<open>Express's final handler answers when no middleware does (here never, as the 404
  handler always answers).\<close>

fun run_layers :: "layer list \<Rightarrow> request \<Rightarrow> js_value \<Rightarrow> app_state \<Rightarrow> response \<times> app_state" where
  "run_layers [] rq body st = (ErrorPage 404, st)"
| "run_layers (l # ls) rq body st =
     (case l rq body st of Some x \<Rightarrow> x | None \<Rightarrow> run_layers ls rq body st)"

definition app_layers :: "layer list" where
  "app_layers =
    [use_router (js_str ''/cardapio'') st_cardapio (\<lambda>c st. st\<lparr>st_cardapio := c\<rparr>) cardapio_get cardapio_post,
     use_router (js_str ''/pedidos'') st_pedidos (\<lambda>p st. st\<lparr>st_pedidos := p\<rparr>) pedidos_get pedidos_post,
     use_router (js_str ''/clientes'') st_clientes (\<lambda>c st. st\<lparr>st_clientes := c\<rparr>) clientes_get clientes_post,
     not_found_layer]"

definition app_handle :: "request \<Rightarrow> app_state \<Rightarrow> response \<times> app_state" where
  "app_handle rq st =
    (case parse_body (req_body rq) of
       None \<Rightarrow> (ErrorPage 400, st)
     | Some body \<Rightarrow> run_layers app_layers rq body (st\<lparr>st_log := st_log st @ [log_line rq]\<rparr>))"

subsection \<open>Runs and reachable states\<close>

text \<open>Requests are handled one at a time, each to completion (Node's single thread runs a
  synchronous handler without interruption): a run is a sequence of requests.\<close>

fun app_run :: "app_state \<Rightarrow> request list \<Rightarrow> response list \<times> app_state" where
  "app_run st [] = ([], st)"
| "app_run st (rq # rqs) =
     (let (r, st') = app_handle rq st; (rs, st'') = app_run st' rqs in (r # rs, st''))"

inductive reachable :: "app_state \<Rightarrow> bool" where
  init: "reachable app_init"
| step: "reachable st \<Longrightarrow> reachable (snd (app_handle rq st))"

declare app_init_def [model_defs] log_line_def [model_defs] pathname_def [model_defs]
  ascii_lower_def [model_defs] mount_match_def [model_defs] route_root_def [model_defs]
  use_router_def [model_defs] not_found_layer_def [model_defs] app_layers_def [model_defs]
  app_handle_def [model_defs]

definition app_inv :: "app_state \<Rightarrow> bool" where
  "app_inv st \<longleftrightarrow> cardapio_inv (st_cardapio st) \<and> clientes_inv (st_clientes st) \<and>
                  pedidos_inv (st_pedidos st)"

subsection \<open>The invariant of the application\<close>

lemma cardapio_get_state [simp]: "snd (cardapio_get s) = s"
  by (simp add: cardapio_get_def)

lemma clientes_get_state [simp]: "snd (clientes_get s) = s"
  by (simp add: clientes_get_def)

lemma pedidos_get_state [simp]: "snd (pedidos_get s) = s"
  by (simp add: pedidos_get_def)

text \<open>The interface between the application and a router: a mounted router answers with
  the router's state written back, and that state is the POST handler's result for a
  POST and the unchanged state otherwise (the GET handler only reads).\<close>

lemma use_router_state:
  assumes "\<And>s. snd (get s) = s"
    and "use_router prefix get_s put_s get post rq body st = Some (r, st')"
  shows "st' = put_s (if req_method rq = POST then snd (post body (get_s st)) else get_s st) st"
proof -
  from assms(2) have rt: "map_option (\<lambda>(r, s'). (r, put_s s' st))
      (route_root (req_method rq) body get post (get_s st)) = Some (r, st')"
    by (auto simp: use_router_def split: option.splits if_splits)
  show ?thesis
  proof (cases "req_method rq")
    case GET
    with rt have "st' = put_s (snd (get (get_s st))) st"
      by (simp add: route_root_def split: prod.splits)
    with GET show ?thesis by (simp add: assms(1))
  next
    case HEAD
    with rt have "st' = put_s (snd (get (get_s st))) st" by (simp add: route_root_def)
    with HEAD show ?thesis by (simp add: assms(1))
  next
    case POST
    with rt show ?thesis by (simp add: route_root_def split: prod.splits)
  next
    case OPTIONS
    with rt show ?thesis by (simp add: route_root_def)
  next
    case (OtherMethod m)
    with rt show ?thesis by (simp add: route_root_def)
  qed
qed

lemma run_layers_keeps:
  assumes "\<And>l st r st'. l \<in> set ls \<Longrightarrow> Q st \<Longrightarrow> l rq b st = Some (r, st') \<Longrightarrow> Q st'"
    and "Q st"
  shows "Q (snd (run_layers ls rq b st))"
  using assms
proof (induction ls arbitrary: st)
  case Nil
  then show ?case by simp
next
  case (Cons l ls)
  show ?case
  proof (cases "l rq b st")
    case None
    have "Q (snd (run_layers ls rq b st))"
    proof (rule Cons.IH)
      fix l' st r st'
      assume "l' \<in> set ls" "Q st" "l' rq b st = Some (r, st')"
      then show "Q st'" using Cons.prems(1) [of l' st r st'] by simp
    qed (rule Cons.prems(2))
    with None show ?thesis by simp
  next
    case (Some x)
    then obtain r st' where l: "l rq b st = Some (r, st')" by (cases x) auto
    have "Q st'" using Cons.prems(1) [of l st r st'] Cons.prems(2) l by simp
    with l show ?thesis by simp
  qed
qed

lemma app_inv_updates [simp]:
  "app_inv (st\<lparr>st_cardapio := c\<rparr>) \<longleftrightarrow> cardapio_inv c \<and> clientes_inv (st_clientes st) \<and> pedidos_inv (st_pedidos st)"
  "app_inv (st\<lparr>st_clientes := k\<rparr>) \<longleftrightarrow> cardapio_inv (st_cardapio st) \<and> clientes_inv k \<and> pedidos_inv (st_pedidos st)"
  "app_inv (st\<lparr>st_pedidos := p\<rparr>) \<longleftrightarrow> cardapio_inv (st_cardapio st) \<and> clientes_inv (st_clientes st) \<and> pedidos_inv p"
  "app_inv (st\<lparr>st_log := g\<rparr>) \<longleftrightarrow> app_inv st"
  by (simp_all add: app_inv_def)

text \<open>What one layer of the application does to the state: nothing, or write back one
  router's array, which a POST may have changed.\<close>

lemma app_layers_step:
  assumes "l \<in> set app_layers" and "l rq b st = Some (r, st')"
  shows "st' = st
    \<or> st' = st\<lparr>st_cardapio := (if req_method rq = POST then snd (cardapio_post b (st_cardapio st)) else st_cardapio st)\<rparr>
    \<or> st' = st\<lparr>st_pedidos := (if req_method rq = POST then snd (pedidos_post b (st_pedidos st)) else st_pedidos st)\<rparr>
    \<or> st' = st\<lparr>st_clientes := (if req_method rq = POST then snd (clientes_post b (st_clientes st)) else st_clientes st)\<rparr>"
proof -
  have "l = use_router (js_str ''/cardapio'') st_cardapio (\<lambda>c st. st\<lparr>st_cardapio := c\<rparr>) cardapio_get cardapio_post
      \<or> l = use_router (js_str ''/pedidos'') st_pedidos (\<lambda>p st. st\<lparr>st_pedidos := p\<rparr>) pedidos_get pedidos_post
      \<or> l = use_router (js_str ''/clientes'') st_clientes (\<lambda>c st. st\<lparr>st_clientes := c\<rparr>) clientes_get clientes_post
      \<or> l = not_found_layer"
    using assms(1) by (simp add: app_layers_def)
  then show ?thesis
  proof (elim disjE)
    assume "l = use_router (js_str ''/cardapio'') st_cardapio (\<lambda>c st. st\<lparr>st_cardapio := c\<rparr>) cardapio_get cardapio_post"
    with assms(2) show ?thesis by (intro disjI2 disjI1 use_router_state) simp_all
  next
    assume "l = use_router (js_str ''/pedidos'') st_pedidos (\<lambda>p st. st\<lparr>st_pedidos := p\<rparr>) pedidos_get pedidos_post"
    with assms(2) show ?thesis by (intro disjI2 disjI1 use_router_state) simp_all
  next
    assume "l = use_router (js_str ''/clientes'') st_clientes (\<lambda>c st. st\<lparr>st_clientes := c\<rparr>) clientes_get clientes_post"
    with assms(2) show ?thesis by (intro disjI2 use_router_state) simp_all
  next
    assume "l = not_found_layer"
    with assms(2) show ?thesis by (simp add: not_found_layer_def)
  qed
qed

lemma app_layers_inv:
  assumes "l \<in> set app_layers" and "app_inv st" and "l rq b st = Some (r, st')"
  shows "app_inv st'"
  using app_layers_step [OF assms(1,3)] assms(2)
  by (auto simp: app_inv_def cardapio_post_inv pedidos_post_inv clientes_post_inv)

text \<open>The three arrays of a state, without the log.\<close>

definition stores :: "app_state \<Rightarrow> menu_item list \<times> cliente list \<times> pedido list" where
  "stores st = (st_cardapio st, st_clientes st, st_pedidos st)"

lemma app_layers_non_post:
  assumes "req_method rq \<noteq> POST" and "l \<in> set app_layers" and "l rq b st = Some (r, st')"
  shows "stores st' = stores st"
  using app_layers_step [OF assms(2,3)] assms(1) by (auto simp: stores_def)

lemma app_handle_inv: "app_inv st \<Longrightarrow> app_inv (snd (app_handle rq st))"
  unfolding app_handle_def
  by (auto split: option.splits intro: run_layers_keeps app_layers_inv)

lemma app_inv_init: "app_inv app_init"
  by (simp add: app_inv_def app_init_def cardapio_inv_init clientes_inv_init pedidos_inv_init)

lemma reachable_app_inv: "reachable st \<Longrightarrow> app_inv st"
  by (induction rule: reachable.induct) (simp_all add: app_inv_init app_handle_inv)

lemma reachable_app_run: "reachable st \<Longrightarrow> reachable (snd (app_run st rqs))"
proof (induction rqs arbitrary: st)
  case Nil
  then show ?case by simp
next
  case (Cons rq rqs)
  from Cons.prems have "reachable (snd (app_handle rq st))" by (rule reachable.step)
  then have "reachable (snd (app_run (snd (app_handle rq st)) rqs))" by (rule Cons.IH)
  then show ?case by (simp add: split_def Let_def)
qed

lemma app_handle_stores_non_post:
  assumes "req_method rq \<noteq> POST"
  shows "stores (snd (app_handle rq st)) = stores st"
proof (cases "parse_body (req_body rq)")
  case None
  then show ?thesis by (simp add: app_handle_def)
next
  case (Some body)
  let ?st1 = "st\<lparr>st_log := st_log st @ [log_line rq]\<rparr>"
  have "stores (snd (run_layers app_layers rq body ?st1)) = stores ?st1"
    by (rule run_layers_keeps [where Q = "\<lambda>s. stores s = stores ?st1"])
      (auto dest: app_layers_non_post [OF assms])
  with Some show ?thesis by (simp add: app_handle_def stores_def)
qed

lemma ascii_lower_slash: "ascii_lower c = 0x2F \<longleftrightarrow> c = 0x2F"
  by (auto simp: ascii_lower_def word_le_nat_alt unat_word_ariths)

lemma mount_match_exact:
  assumes "map ascii_lower p = prefix"
  shows "mount_match prefix p = Some [0x2F]"
  using assms by (auto simp: mount_match_def)

lemma mount_match_slash:
  assumes "map ascii_lower p = prefix @ [0x2F]"
  shows "mount_match prefix p = Some [0x2F]"
proof -
  obtain q c where p: "p = q @ [c]" using assms by (cases p rule: rev_cases) auto
  with assms have q: "map ascii_lower q = prefix" and "ascii_lower c = 0x2F" by auto
  then have "c = 0x2F" by (simp add: ascii_lower_slash)
  moreover have "length q = length prefix" using q by auto
  ultimately show ?thesis using p q by (simp add: mount_match_def)
qed

text \<open>Two mount paths that differ in their first \<open>n\<close> characters never both match a path:
  a request is dispatched to at most one router.\<close>

lemma mount_match_take:
  assumes "mount_match prefix p \<noteq> None" and "n \<le> length prefix"
  shows "map ascii_lower (take n p) = take n prefix"
proof -
  from assms(1) have "map ascii_lower (take (length prefix) p) = prefix"
    by (auto simp: mount_match_def split: if_splits)
  then have "take n (map ascii_lower (take (length prefix) p)) = take n prefix" by simp
  with assms(2) show ?thesis by (simp add: take_map min_def)
qed

lemma mount_match_disjoint:
  assumes "mount_match a p \<noteq> None" and "n \<le> length a" and "n \<le> length b" and "take n a \<noteq> take n b"
  shows "mount_match b p = None"
  using mount_match_take [OF assms(1,2)] mount_match_take [of b p n] assms(3,4) by fastforce

lemma run_layers_pedidos_path:
  assumes "mount_match (js_str ''/pedidos'') (pathname (req_url rq)) \<noteq> None"
  shows "run_layers app_layers rq b s =
    (case use_router (js_str ''/pedidos'') st_pedidos (\<lambda>p st. st\<lparr>st_pedidos := p\<rparr>) pedidos_get pedidos_post rq b s of
       Some x \<Rightarrow> x | None \<Rightarrow> (JsonResp 404 (error_json (js_str ''Not Found'')), s))"
proof -
  have "mount_match (js_str ''/cardapio'') (pathname (req_url rq)) = None"
    by (rule mount_match_disjoint [OF assms, where n = 2]) (simp_all add: js_str_def)
  moreover have "mount_match (js_str ''/clientes'') (pathname (req_url rq)) = None"
    by (rule mount_match_disjoint [OF assms, where n = 2]) (simp_all add: js_str_def)
  ultimately show ?thesis
    by (simp add: app_layers_def use_router_def not_found_layer_def split: option.split)
qed

text \<open>The logger runs once per request whose body \<open>express.json()\<close> accepts.\<close>

lemma app_handle_log:
  "st_log (snd (app_handle rq st)) =
     st_log st @ (case parse_body (req_body rq) of None \<Rightarrow> [] | Some _ \<Rightarrow> [log_line rq])"
proof (cases "parse_body (req_body rq)")
  case None
  then show ?thesis by (simp add: app_handle_def)
next
  case (Some b)
  let ?st1 = "st\<lparr>st_log := st_log st @ [log_line rq]\<rparr>"
  have "st_log (snd (run_layers app_layers rq b ?st1)) = st_log ?st1"
  proof (rule run_layers_keeps [where Q = "\<lambda>s. st_log s = st_log ?st1"])
    fix l s r s'
    assume "l \<in> set app_layers" "st_log s = st_log ?st1" "l rq b s = Some (r, s')"
    then show "st_log s' = st_log ?st1" using app_layers_step [of l rq b s r s'] by auto
  qed simp
  with Some show ?thesis by (simp add: app_handle_def)
qed

text \<open>What a plain GET on each mount path answers.\<close>

lemma cardapio_path_mounts:
  "mount_match (js_str ''/cardapio'') (pathname (js_str ''/cardapio'')) = Some [0x2F] \<and>
   mount_match (js_str ''/pedidos'') (pathname (js_str ''/cardapio'')) = None \<and>
   mount_match (js_str ''/clientes'') (pathname (js_str ''/cardapio'')) = None"
proof -
  have m: "mount_match (js_str ''/cardapio'') (pathname (js_str ''/cardapio'')) = Some [0x2F]"
    by (rule mount_match_exact) (simp add: pathname_def js_str_def ascii_lower_def)
  then have m0: "mount_match (js_str ''/cardapio'') (pathname (js_str ''/cardapio'')) \<noteq> None" by simp
  have "mount_match (js_str ''/pedidos'') (pathname (js_str ''/cardapio'')) = None"
    by (rule mount_match_disjoint [OF m0, where n = 2]) (simp_all add: js_str_def)
  moreover have "mount_match (js_str ''/clientes'') (pathname (js_str ''/cardapio'')) = None"
    by (rule mount_match_disjoint [OF m0, where n = 3]) (simp_all add: js_str_def)
  ultimately show ?thesis using m by simp
qed

lemma clientes_path_mounts:
  "mount_match (js_str ''/clientes'') (pathname (js_str ''/clientes'')) = Some [0x2F] \<and>
   mount_match (js_str ''/cardapio'') (pathname (js_str ''/clientes'')) = None \<and>
   mount_match (js_str ''/pedidos'') (pathname (js_str ''/clientes'')) = None"
proof -
  have m: "mount_match (js_str ''/clientes'') (pathname (js_str ''/clientes'')) = Some [0x2F]"
    by (rule mount_match_exact) (simp add: pathname_def js_str_def ascii_lower_def)
  then have m0: "mount_match (js_str ''/clientes'') (pathname (js_str ''/clientes'')) \<noteq> None" by simp
  have "mount_match (js_str ''/cardapio'') (pathname (js_str ''/clientes'')) = None"
    by (rule mount_match_disjoint [OF m0, where n = 3]) (simp_all add: js_str_def)
  moreover have "mount_match (js_str ''/pedidos'') (pathname (js_str ''/clientes'')) = None"
    by (rule mount_match_disjoint [OF m0, where n = 2]) (simp_all add: js_str_def)
  ultimately show ?thesis using m by simp
qed

lemma app_handle_get_cardapio:
  "fst (app_handle \<lparr>req_method = GET, req_url = js_str ''/cardapio'', req_body = NoBody\<rparr> st) =
     JsonResp 200 (JArr (map menu_item_json (st_cardapio st)))"
  using cardapio_path_mounts
  by (simp add: app_handle_def app_layers_def use_router_def route_root_def cardapio_get_def)

lemma app_handle_get_pedidos:
  "fst (app_handle \<lparr>req_method = GET, req_url = js_str ''/pedidos'', req_body = NoBody\<rparr> st) =
     JsonResp 200 (JArr (map pedido_json (st_pedidos st)))"
proof -
  have m: "mount_match (js_str ''/pedidos'') (pathname (js_str ''/pedidos'')) = Some [0x2F]"
    by (rule mount_match_exact) (simp add: pathname_def js_str_def ascii_lower_def)
  then show ?thesis
    by (simp add: app_handle_def run_layers_pedidos_path use_router_def route_root_def pedidos_get_def)
qed

lemma app_handle_get_clientes:
  "fst (app_handle \<lparr>req_method = GET, req_url = js_str ''/clientes'', req_body = NoBody\<rparr> st) =
     JsonResp 200 (JArr (map cliente_json (st_clientes st)))"
  using clientes_path_mounts
  by (simp add: app_handle_def app_layers_def use_router_def route_root_def clientes_get_def)

subsection \<open>Properties\<close>

text \<open>
  C6: in every state the application can reach, the identifiers of each array are
  exactly \<open>1, 2, \<dots>, n\<close> in order: the \<open>length + 1\<close> numbering never repeats or
  skips an identifier, because nothing is ever removed.
\<close>

theorem reachable_ids_sequential:
  assumes "reachable st"
  shows "map item_id (st_cardapio st) = [1..<length (st_cardapio st) + 1] \<and>
         map cli_id (st_clientes st) = [1..<length (st_clientes st) + 1] \<and>
         map ped_id (st_pedidos st) = [1..<length (st_pedidos st) + 1]"
  using reachable_app_inv [OF assms]
  by (simp add: app_inv_def cardapio_inv_def clientes_inv_def pedidos_inv_def del: upt_Suc)

theorem reachable_ids_sequential_witness:
  "map item_id (st_cardapio (snd (app_handle \<lparr>req_method = POST, req_url = js_str ''/cardapio'', req_body = JsonBody (JObj [(js_str ''nome'', JStr (js_str ''Suco'')), (js_str ''preco'', JNum 5)])\<rparr> app_init))) =
     [1..<length (st_cardapio (snd (app_handle \<lparr>req_method = POST, req_url = js_str ''/cardapio'', req_body = JsonBody (JObj [(js_str ''nome'', JStr (js_str ''Suco'')), (js_str ''preco'', JNum 5)])\<rparr> app_init))) + 1] \<and>
   map cli_id (st_clientes (snd (app_handle \<lparr>req_method = POST, req_url = js_str ''/cardapio'', req_body = JsonBody (JObj [(js_str ''nome'', JStr (js_str ''Suco'')), (js_str ''preco'', JNum 5)])\<rparr> app_init))) =
     [1..<length (st_clientes (snd (app_handle \<lparr>req_method = POST, req_url = js_str ''/cardapio'', req_body = JsonBody (JObj [(js_str ''nome'', JStr (js_str ''Suco'')), (js_str ''preco'', JNum 5)])\<rparr> app_init))) + 1] \<and>
   map ped_id (st_pedidos (snd (app_handle \<lparr>req_method = POST, req_url = js_str ''/cardapio'', req_body = JsonBody (JObj [(js_str ''nome'', JStr (js_str ''Suco'')), (js_str ''preco'', JNum 5)])\<rparr> app_init))) =
     [1..<length (st_pedidos (snd (app_handle \<lparr>req_method = POST, req_url = js_str ''/cardapio'', req_body = JsonBody (JObj [(js_str ''nome'', JStr (js_str ''Suco'')), (js_str ''preco'', JNum 5)])\<rparr> app_init))) + 1]"
  by (rule reachable_ids_sequential [OF reachable.step [OF reachable.init]])

text \<open>
  C2: in every reachable state, every stored order has a truthy \<open>clienteId\<close> and a
  non-empty list of lines each with a numeric \<open>id\<close> and a positive numeric
  \<open>quantidade\<close>, and every order after the seeded one stores exactly the total the
  reducer computes from its lines.
\<close>

theorem reachable_orders_consistent:
  assumes "reachable st"
  shows "list_all (\<lambda>p. truthy (Some (ped_clienteId p)) \<and> ped_itens p \<noteq> [] \<and> lines_valid (ped_itens p))
           (st_pedidos st) \<and>
         list_all (\<lambda>p. order_total (ped_itens p) = Inr (ped_total p)) (drop 1 (st_pedidos st))"
  using reachable_app_inv [OF assms]
  by (simp add: app_inv_def pedidos_inv_def list_all_iff del: upt_Suc)

theorem reachable_orders_consistent_witness:
  "list_all (\<lambda>p. truthy (Some (ped_clienteId p)) \<and> ped_itens p \<noteq> [] \<and> lines_valid (ped_itens p))
     (st_pedidos (snd (app_handle \<lparr>req_method = POST, req_url = js_str ''/cardapio'', req_body = JsonBody (JObj [(js_str ''nome'', JStr (js_str ''Suco'')), (js_str ''preco'', JNum 5)])\<rparr> app_init))) \<and>
   list_all (\<lambda>p. order_total (ped_itens p) = Inr (ped_total p)) (drop 1 (st_pedidos (snd (app_handle \<lparr>req_method = POST, req_url = js_str ''/cardapio'', req_body = JsonBody (JObj [(js_str ''nome'', JStr (js_str ''Suco'')), (js_str ''preco'', JNum 5)])\<rparr> app_init))))"
  by (rule reachable_orders_consistent [OF reachable.step [OF reachable.init]])

text \<open>
  C16: a request other than POST (GET, HEAD, OPTIONS or any other method, on any path)
  leaves the three arrays unchanged; only the log grows.
\<close>

theorem app_handle_read_only:
  assumes "req_method rq \<noteq> POST"
  shows "st_cardapio (snd (app_handle rq st)) = st_cardapio st \<and>
         st_clientes (snd (app_handle rq st)) = st_clientes st \<and>
         st_pedidos (snd (app_handle rq st)) = st_pedidos st"
  using app_handle_stores_non_post [OF assms] by (simp add: stores_def)

theorem app_handle_read_only_witness:
  "st_cardapio (snd (app_handle \<lparr>req_method = GET, req_url = js_str ''/pedidos'', req_body = NoBody\<rparr> app_init))
     = st_cardapio app_init \<and>
   st_clientes (snd (app_handle \<lparr>req_method = GET, req_url = js_str ''/pedidos'', req_body = NoBody\<rparr> app_init))
     = st_clientes app_init \<and>
   st_pedidos (snd (app_handle \<lparr>req_method = GET, req_url = js_str ''/pedidos'', req_body = NoBody\<rparr> app_init))
     = st_pedidos app_init"
  by (rule app_handle_read_only) simp

text \<open>
  C17: a body that \<open>express.json()\<close> refuses (malformed JSON, or a number, string,
  boolean or null at top level) is answered with Express's 400 error page, not the
  \<open>{ error }\<close> object of the handlers, and the request does not even reach the logger.
\<close>

theorem app_handle_rejected_body:
  assumes "parse_body (req_body rq) = None"
  shows "app_handle rq st = (ErrorPage 400, st)"
  using assms by (simp add: app_handle_def)

theorem app_handle_rejected_body_witness:
  "app_handle \<lparr>req_method = POST, req_url = js_str ''/pedidos'', req_body = JsonBody (JNum 5)\<rparr> app_init =
     (ErrorPage 400, app_init)"
  by (rule app_handle_rejected_body) simp

lemma menu_path_variant_mounts:
  assumes "map ascii_lower (pathname u) = js_str ''/cardapio'' \<or>
           map ascii_lower (pathname u) = js_str ''/cardapio/''"
  shows "mount_match (js_str ''/cardapio'') (pathname u) = Some [0x2F] \<and>
         mount_match (js_str ''/pedidos'') (pathname u) = None \<and>
         mount_match (js_str ''/clientes'') (pathname u) = None"
proof -
  have m: "mount_match (js_str ''/cardapio'') (pathname u) = Some [0x2F]"
    using assms
  proof
    assume "map ascii_lower (pathname u) = js_str ''/cardapio''"
    then show ?thesis by (rule mount_match_exact)
  next
    assume "map ascii_lower (pathname u) = js_str ''/cardapio/''"
    then have "map ascii_lower (pathname u) = js_str ''/cardapio'' @ [0x2F]"
      by (simp add: js_str_def)
    then show ?thesis by (rule mount_match_slash)
  qed
  then have m0: "mount_match (js_str ''/cardapio'') (pathname u) \<noteq> None" by simp
  have "mount_match (js_str ''/pedidos'') (pathname u) = None"
    by (rule mount_match_disjoint [OF m0, where n = 2]) (simp_all add: js_str_def)
  moreover have "mount_match (js_str ''/clientes'') (pathname u) = None"
    by (rule mount_match_disjoint [OF m0, where n = 3]) (simp_all add: js_str_def)
  ultimately show ?thesis using m by simp
qed

text \<open>
  C25: Express matches the mount path ignoring ASCII case, an optional trailing slash and
  the query string: a GET whose pathname is \<open>/cardapio\<close> or \<open>/cardapio/\<close> in any
  letter case lists the menu (behaviour the spec does not describe).
\<close>

theorem app_handle_get_menu_path_variants:
  assumes "map ascii_lower (pathname u) = js_str ''/cardapio'' \<or>
           map ascii_lower (pathname u) = js_str ''/cardapio/''"
    and "parse_body b \<noteq> None"
  shows "fst (app_handle \<lparr>req_method = GET, req_url = u, req_body = b\<rparr> st) =
           JsonResp 200 (JArr (map menu_item_json (st_cardapio st)))"
  using menu_path_variant_mounts [OF assms(1)] assms(2)
  by (auto simp: app_handle_def app_layers_def use_router_def route_root_def cardapio_get_def)

theorem app_handle_get_menu_path_variants_witness:
  "fst (app_handle \<lparr>req_method = GET, req_url = js_str ''/CARDAPIO/?x=1'', req_body = NoBody\<rparr> app_init) =
     JsonResp 200 (JArr (map menu_item_json (st_cardapio app_init)))"
proof -
  have h1: "map ascii_lower (pathname (js_str ''/CARDAPIO/?x=1'')) = js_str ''/cardapio'' \<or>
            map ascii_lower (pathname (js_str ''/CARDAPIO/?x=1'')) = js_str ''/cardapio/''"
    by (simp add: model_defs)
  have h2: "parse_body NoBody \<noteq> None" by simp
  show ?thesis by (rule app_handle_get_menu_path_variants [OF h1 h2])
qed

text \<open>
  C26: a request whose pathname is under none of the three mount paths is answered by the
  last middleware with 404 and \<open>{ error: "Not Found" }\<close>; only the log changes.
\<close>

theorem app_handle_unknown_path:
  assumes "parse_body (req_body rq) = Some b"
    and "mount_match (js_str ''/cardapio'') (pathname (req_url rq)) = None"
    and "mount_match (js_str ''/pedidos'') (pathname (req_url rq)) = None"
    and "mount_match (js_str ''/clientes'') (pathname (req_url rq)) = None"
  shows "app_handle rq st =
    (JsonResp 404 (error_json (js_str ''Not Found'')), st\<lparr>st_log := st_log st @ [log_line rq]\<rparr>)"
  using assms by (simp add: app_handle_def app_layers_def use_router_def not_found_layer_def)

theorem app_handle_unknown_path_witness:
  "app_handle \<lparr>req_method = GET, req_url = js_str ''/menu'', req_body = NoBody\<rparr> app_init =
    (JsonResp 404 (error_json (js_str ''Not Found'')),
     app_init\<lparr>st_log := [log_line \<lparr>req_method = GET, req_url = js_str ''/menu'', req_body = NoBody\<rparr>]\<rparr>)"
proof -
  let ?rq = "\<lparr>req_method = GET, req_url = js_str ''/menu'', req_body = NoBody\<rparr>"
  have h1: "parse_body (req_body ?rq) = Some (Some (JObj []))" by simp
  have h2: "mount_match (js_str ''/cardapio'') (pathname (req_url ?rq)) = None" by (simp add: model_defs)
  have h3: "mount_match (js_str ''/pedidos'') (pathname (req_url ?rq)) = None" by (simp add: model_defs)
  have h4: "mount_match (js_str ''/clientes'') (pathname (req_url ?rq)) = None" by (simp add: model_defs)
  from app_handle_unknown_path [OF h1 h2 h3 h4] show ?thesis by (simp add: app_init_def)
qed

text \<open>
  Validation of the matcher: for a mount path in lower case (as the three of
  \<open>src/app.js\<close> are), \<open>mount_match\<close> computes exactly what the literal reading of
  Express's mount regexp and \<open>trim_prefix\<close> computes.
\<close>

theorem mount_match_express:
  assumes "map ascii_lower prefix = prefix"
  shows "mount_match prefix path = express_trim_prefix prefix path"
proof (cases "length prefix \<le> length path \<and> map ascii_lower (take (length prefix) path) = prefix")
  case False
  then have "mount_regexp_match prefix path = None"
    using assms by (auto simp: mount_regexp_match_def Let_def)
  moreover have "mount_match prefix path = None"
    using False by (auto simp: mount_match_def)
  ultimately show ?thesis by (simp add: express_trim_prefix_def)
next
  case True
  define q where "q = take (length prefix) path"
  define rest where "rest = drop (length prefix) path"
  have p: "path = q @ rest" by (simp add: q_def rest_def)
  have q: "map ascii_lower q = prefix" using True by (simp add: q_def)
  then have lq: "length prefix = length q" by auto
  show ?thesis
  proof (cases rest)
    case Nil
    then show ?thesis using q assms
      by (simp add: p lq mount_match_def express_trim_prefix_def mount_regexp_match_def)
  next
    case (Cons c r)
    show ?thesis
    proof (cases r)
      case Nil
      then show ?thesis using q assms \<open>rest = c # r\<close>
        by (simp add: p lq mount_match_def express_trim_prefix_def mount_regexp_match_def nth_append Let_def)
    next
      case (Cons d r')
      then show ?thesis using q assms \<open>rest = c # r\<close>
        by (simp add: p lq mount_match_def express_trim_prefix_def mount_regexp_match_def nth_append Let_def)
    qed
  qed
qed



text \<open>
  C7: along any run, the console log gets one line \<open>METHOD url\<close> per request whose body
  \<open>express.json()\<close> accepts, in the order the requests were handled, and none for a
  request whose body it refuses (the parser runs before the logger).
\<close>

theorem app_run_log:
  "st_log (snd (app_run st rqs)) =
     st_log st @ map log_line (filter (\<lambda>rq. parse_body (req_body rq) \<noteq> None) rqs)"
proof (induction rqs arbitrary: st)
  case Nil
  then show ?case by simp
next
  case (Cons rq rqs)
  have "st_log (snd (app_run st (rq # rqs))) = st_log (snd (app_run (snd (app_handle rq st)) rqs))"
    by (simp split: prod.split)
  also have "\<dots> = st_log (snd (app_handle rq st)) @
                   map log_line (filter (\<lambda>rq. parse_body (req_body rq) \<noteq> None) rqs)"
    by (rule Cons.IH)
  finally show ?case by (simp add: app_handle_log split: option.split)
qed

end
