(* ===== verification/Server.thy ===== *)
theory Server
  imports JsNumber
begin

text \<open>
  The start-up at the end of \<open>src/app.js\<close>:
  \<open>const PORT = process.env.PORT || 3000; app.listen(PORT, () => console.log(...))\<close>.
  Express's \<open>app.listen\<close> passes its arguments to Node's \<open>net.Server.listen\<close>, which
  first decides between a TCP port and a pipe (\<open>normalizeArgs\<close>, \<open>isPipeName\<close>:
  a string whose \<open>Number\<close> is not \<open>>= 0\<close> names a Unix socket or Windows pipe),
  then validates the port (\<open>validatePort\<close>: a blank string, a number that is not an
  integer in \<open>[0, 2^32)\<close> or one above \<open>0xFFFF\<close> throws
  \<open>ERR_SOCKET_BAD_PORT\<close> synchronously, which ends the process), and binds
  \<open>port | 0\<close>. The callback's console line is printed once the server listens.
  Asynchronous bind failures (\<open>EADDRINUSE\<close>, permissions) are not modelled.
\<close>

subsection \<open>The value of \<open>PORT\<close>\<close>

text \<open>An environment variable is a string or absent; \<open>||\<close> keeps a non-empty string and
  otherwise gives the number 3000.\<close>

datatype port_value = PortNumber nat | PortString js_string

definition port_of_env :: "js_string option \<Rightarrow> port_value" where
  "port_of_env env = (case env of Some s \<Rightarrow> if s \<noteq> [] then PortString s else PortNumber 3000
                                | None \<Rightarrow> PortNumber 3000)"

text \<open>\<open>Number(PORT)\<close> and the template literal \<open>${PORT}\<close>.\<close>

fun port_number :: "port_value \<Rightarrow> jsnum" where
  "port_number (PortNumber n) = Fin (real n)"
| "port_number (PortString s) = str_to_number s"

fun port_text :: "port_value \<Rightarrow> js_string" where
  "port_text (PortNumber n) = nat_to_dec n"
| "port_text (PortString s) = s"

subsection \<open>Node's \<open>net.Server.listen\<close>\<close>

text \<open>The relational operators \<open>x >= c\<close> and \<open>x > c\<close> on a number and a constant.\<close>

fun jsnum_ge :: "jsnum \<Rightarrow> real \<Rightarrow> bool" where
  "jsnum_ge (Fin r) c = (c \<le> r)"
| "jsnum_ge NaN c = False"
| "jsnum_ge (Infty b) c = b"

fun jsnum_gt :: "jsnum \<Rightarrow> real \<Rightarrow> bool" where
  "jsnum_gt (Fin r) c = (c < r)"
| "jsnum_gt NaN c = False"
| "jsnum_gt (Infty b) c = b"

text \<open>ToUint32 (\<open>x >>> 0\<close>) and ToInt32 (\<open>x | 0\<close>).\<close>

definition to_uint32 :: "jsnum \<Rightarrow> int" where
  "to_uint32 x = (case x of Fin r \<Rightarrow> (if 0 \<le> r then \<lfloor>r\<rfloor> else \<lceil>r\<rceil>) mod 2 ^ 32 | _ \<Rightarrow> 0)"

definition to_int32 :: "jsnum \<Rightarrow> int" where
  "to_int32 x = (let u = to_uint32 x in if 2 ^ 31 \<le> u then u - 2 ^ 32 else u)"

text \<open>\<open>toNumber(x)\<close> of \<open>net.js\<close>: \<open>(x = Number(x)) >= 0 ? x : false\<close>, with
  \<open>false\<close> as \<open>None\<close>; \<open>isPipeName(s)\<close>: \<open>typeof s === 'string' && toNumber(s) === false\<close>.\<close>

definition node_to_number :: "port_value \<Rightarrow> jsnum option" where
  "node_to_number v = (let x = port_number v in if jsnum_ge x 0 then Some x else None)"

fun is_pipe_name :: "port_value \<Rightarrow> bool" where
  "is_pipe_name (PortString s) = (node_to_number (PortString s) = None)"
| "is_pipe_name (PortNumber n) = False"

text \<open>The condition under which \<open>validatePort(port)\<close> throws (zero is allowed).\<close>

definition bad_port :: "port_value \<Rightarrow> bool" where
  "bad_port v \<longleftrightarrow>
     (case v of PortString s \<Rightarrow> js_trim s = [] | PortNumber _ \<Rightarrow> False) \<or>
     port_number v \<noteq> Fin (real_of_int (to_uint32 (port_number v))) \<or>
     jsnum_gt (port_number v) 0xFFFF"

datatype listen_target = ListenTcp int | ListenPipe js_string

datatype start_error = ERR_SOCKET_BAD_PORT

text \<open>\<open>app.listen(PORT)\<close>: a pipe path, the error thrown, or the TCP port bound.\<close>

definition app_listen :: "port_value \<Rightarrow> start_error + listen_target" where
  "app_listen v =
    (if is_pipe_name v then Inr (ListenPipe (port_text v))
     else if bad_port v then Inl ERR_SOCKET_BAD_PORT
     else Inr (ListenTcp (to_int32 (port_number v))))"

definition startup_message :: "port_value \<Rightarrow> js_string" where
  "startup_message v = js_str ''Lanchonete API ouvindo na porta '' @ port_text v"

text \<open>The whole start-up: the listening target and the console output, or the error.\<close>

definition server_start :: "js_string option \<Rightarrow> start_error + listen_target \<times> js_string list" where
  "server_start env =
    (let port = port_of_env env in
     case app_listen port of
       Inl e \<Rightarrow> Inl e
     | Inr t \<Rightarrow> Inr (t, [startup_message port]))"

subsection \<open>Lemmas\<close>

lemma to_uint32_nonneg: "0 \<le> to_uint32 x"
  by (simp add: to_uint32_def split: jsnum.split)

lemma to_uint32_nat: "n < 2 ^ 32 \<Longrightarrow> to_uint32 (Fin (real n)) = int n"
  by (simp add: to_uint32_def)

lemma port_ok_iff:
  "\<not> (x \<noteq> Fin (real_of_int (to_uint32 x)) \<or> jsnum_gt x 0xFFFF) \<longleftrightarrow> (\<exists>n\<le>65535. x = Fin (real n))"
proof
  assume a: "\<not> (x \<noteq> Fin (real_of_int (to_uint32 x)) \<or> jsnum_gt x 0xFFFF)"
  define u where "u = to_uint32 x"
  have x: "x = Fin (real_of_int u)" using a by (simp add: u_def)
  have "0 \<le> u" by (simp add: u_def to_uint32_nonneg)
  then have x': "x = Fin (real (nat u))" using x by simp
  moreover have "nat u \<le> 65535" using a x' by simp
  ultimately show "\<exists>n\<le>65535. x = Fin (real n)" by blast
next
  assume "\<exists>n\<le>65535. x = Fin (real n)"
  then obtain n where n: "n \<le> 65535" "x = Fin (real n)" by blast
  then have "to_uint32 x = int n" by (simp add: to_uint32_nat)
  with n show "\<not> (x \<noteq> Fin (real_of_int (to_uint32 x)) \<or> jsnum_gt x 0xFFFF)" by simp
qed


lemma to_int32_port: "n \<le> 65535 \<Longrightarrow> to_int32 (Fin (real n)) = int n"
  by (simp add: to_int32_def to_uint32_nat)

lemma bad_port_iff:
  "bad_port v \<longleftrightarrow>
     (case v of PortString s \<Rightarrow> js_trim s = [] | PortNumber _ \<Rightarrow> False) \<or>
     \<not> (\<exists>n\<le>65535. port_number v = Fin (real n))"
  unfolding bad_port_def port_ok_iff [symmetric] not_not ..

lemma app_listen_port_cases:
  "app_listen v =
    (if is_pipe_name v then Inr (ListenPipe (port_text v))
     else if (case v of PortString s \<Rightarrow> js_trim s = [] | PortNumber _ \<Rightarrow> False) \<or>
             \<not> (\<exists>n\<le>65535. port_number v = Fin (real n))
     then Inl ERR_SOCKET_BAD_PORT
     else Inr (ListenTcp (to_int32 (port_number v))))"
  unfolding app_listen_def bad_port_iff ..





lemma server_start_error:
  "server_start env = Inl e \<longleftrightarrow> app_listen (port_of_env env) = Inl e"
  by (auto simp: server_start_def Let_def split: sum.splits)






text \<open>
  C29: start-up throws \<open>ERR_SOCKET_BAD_PORT\<close> exactly when \<open>PORT\<close> is a non-empty
  string whose number is \<open>>= 0\<close> (so it is not taken as a pipe name) and which is blank
  or does not denote an integer between 0 and 65535 (for example \<open>"70000"\<close> or \<open>"  "\<close>).
\<close>

theorem server_start_bad_port:
  "server_start (Some s) = Inl ERR_SOCKET_BAD_PORT \<longleftrightarrow>
     s \<noteq> [] \<and> jsnum_ge (str_to_number s) 0 \<and>
     (js_trim s = [] \<or> \<not> (\<exists>n\<le>65535. str_to_number s = Fin (real n)))"
proof (cases "s = []")
  case True
  then show ?thesis
    by (simp add: server_start_error port_of_env_def app_listen_port_cases)
next
  case False
  then show ?thesis
    by (simp add: server_start_error port_of_env_def app_listen_port_cases node_to_number_def Let_def)
qed

lemma js_str_70000: "js_str ''70000'' = nat_to_dec 70000"
  by (simp add: nat_to_dec.simps dec_digit_def js_str_def)

theorem server_start_bad_port_witness:
  "server_start (Some (js_str ''70000'')) = Inl ERR_SOCKET_BAD_PORT"
proof -
  have "str_to_number (js_str ''70000'') = Fin 70000"
    by (simp add: js_str_70000 str_to_number_nat_to_dec)
  then show ?thesis
    using server_start_bad_port [of "js_str ''70000''"] by (simp add: js_str_def)
qed

text \<open>
  C31: a non-empty \<open>PORT\<close> whose number is negative or NaN (\<open>"-1"\<close>, \<open>"abc"\<close>) is not
  rejected: Node listens on a pipe of that name and the console still announces it as a
  port.
\<close>

theorem server_start_pipe:
  assumes "s \<noteq> []" and "\<not> jsnum_ge (str_to_number s) 0"
  shows "server_start (Some s) = Inr (ListenPipe s, [js_str ''Lanchonete API ouvindo na porta '' @ s])"
  using assms
  by (simp add: server_start_def port_of_env_def app_listen_def node_to_number_def startup_message_def)

lemma str_to_number_minus_one: "str_to_number (js_str ''-1'') = Fin (- 1)"
  by (simp add: str_to_number_def js_trim_def js_str_def is_js_space_def parse_nondecimal_def
      parse_decimal_def parse_unsigned_def is_dec_def decimal_value_def dec_val_def pow10_def)

theorem server_start_pipe_witness:
  "server_start (Some (js_str ''-1'')) =
     Inr (ListenPipe (js_str ''-1''), [js_str ''Lanchonete API ouvindo na porta '' @ js_str ''-1''])"
  using server_start_pipe [of "js_str ''-1''"] str_to_number_minus_one by (simp add: js_str_def)

text \<open>
  C32: \<open>PORT\<close> is read with JavaScript's \<open>Number\<close>: any non-blank \<open>PORT\<close> string whose
  number is an integer port \<open>n \<le> 65535\<close> (hexadecimal \<open>"0x1F90"\<close>, \<open>" 8080 "\<close>,
  \<open>"8080.0"\<close>, \<open>"+8080"\<close> as well as \<open>"8080"\<close>) makes the server listen on TCP port
  \<open>n\<close>, while the console repeats the string as written.
\<close>

theorem server_start_numeric_port:
  assumes "js_trim s \<noteq> []" and "str_to_number s = Fin (real n)" and "n \<le> 65535"
  shows "server_start (Some s) =
           Inr (ListenTcp (int n), [js_str ''Lanchonete API ouvindo na porta '' @ s])"
proof -
  have "s \<noteq> []" using assms(1) by (auto simp: js_trim_def)
  then have v: "port_of_env (Some s) = PortString s" by (simp add: port_of_env_def)
  have "app_listen (PortString s) = Inr (ListenTcp (int n))"
    using assms by (auto simp: app_listen_port_cases node_to_number_def to_int32_port)
  then show ?thesis by (simp add: server_start_def v startup_message_def)
qed

theorem server_start_numeric_port_witness:
  "server_start (Some (js_str ''0x1F90'')) =
     Inr (ListenTcp 8080, [js_str ''Lanchonete API ouvindo na porta '' @ js_str ''0x1F90''])"
proof -
  have n: "str_to_number (js_str ''0x1F90'') = Fin (real (8080::nat))"
    by (simp add: str_to_number_def js_trim_def js_str_def is_js_space_def parse_nondecimal_def
        radix_of_def parse_digits_def digit_val_def)
  have t: "js_trim (js_str ''0x1F90'') \<noteq> []"
    by (simp add: js_trim_def js_str_def is_js_space_def)
  from server_start_numeric_port [OF t n] show ?thesis by simp
qed

end
