(* ===== verification/Schema.thy ===== *)
theory Schema
  imports Http
begin

text \<open>
  Shapes of JSON values, for the data model of the spec (section 3): a shape says which
  kind of value is expected (an integer, a positive number, a non-empty string, a truthy
  value, an array of values of a shape, an object with given fields of given shapes) and
  \<open>json_wt\<close> checks a value against it. An object shape constrains only the fields it
  names (read with \<open>get_prop\<close>, so the last duplicate key counts); other fields may be
  present. \<open>resp_wt\<close> checks a JSON response's status and body.
\<close>

datatype shape =
    SInt
  | SNum
  | SPosNum
  | SNumOrNull
  | SNonEmptyStr
  | STruthy
  | SNonEmptyArr shape
  | SArr shape
  | SObj "(js_string \<times> shape) list"

fun json_wt :: "shape \<Rightarrow> json \<Rightarrow> bool"
and elems_wt :: "shape \<Rightarrow> json list \<Rightarrow> bool"
and fields_wt :: "(js_string \<times> shape) list \<Rightarrow> json \<Rightarrow> bool" where
  "json_wt SInt j = (case j of JNum r \<Rightarrow> r = of_int \<lfloor>r\<rfloor> | _ \<Rightarrow> False)"
| "json_wt SNum j = (case j of JNum _ \<Rightarrow> True | _ \<Rightarrow> False)"
| "json_wt SPosNum j = (case j of JNum r \<Rightarrow> 0 < r | _ \<Rightarrow> False)"
| "json_wt SNumOrNull j = (case j of JNum _ \<Rightarrow> True | JNull \<Rightarrow> True | _ \<Rightarrow> False)"
| "json_wt SNonEmptyStr j = (case j of JStr s \<Rightarrow> s \<noteq> [] | _ \<Rightarrow> False)"
| "json_wt STruthy j = truthy (Some j)"
| "json_wt (SNonEmptyArr s) j = (case j of JArr xs \<Rightarrow> xs \<noteq> [] \<and> elems_wt s xs | _ \<Rightarrow> False)"
| "json_wt (SArr s) j = (case j of JArr xs \<Rightarrow> elems_wt s xs | _ \<Rightarrow> False)"
| "json_wt (SObj fs) j = (case j of JObj _ \<Rightarrow> fields_wt fs j | _ \<Rightarrow> False)"
| "elems_wt s [] = True"
| "elems_wt s (x # xs) = (json_wt s x \<and> elems_wt s xs)"
| "fields_wt [] j = True"
| "fields_wt ((k, s) # fs) j =
     ((case get_prop j k of Some v \<Rightarrow> json_wt s v | None \<Rightarrow> False) \<and> fields_wt fs j)"

lemma elems_wt_list_all [simp]: "elems_wt s xs \<longleftrightarrow> list_all (json_wt s) xs"
  by (induction xs) auto


definition resp_wt :: "nat \<Rightarrow> shape \<Rightarrow> response \<Rightarrow> bool" where
  "resp_wt n s r = (case r of JsonResp m j \<Rightarrow> m = n \<and> json_wt s j | _ \<Rightarrow> False)"

text \<open>The records of the data model as the API returns them: \<open>MenuItem\<close>
  (\<open>id\<close> integer, \<open>nome\<close> non-empty string, \<open>preco\<close> number), \<open>Customer\<close>
  (\<open>id\<close>, \<open>nome\<close>, \<open>telefone\<close>), \<open>OrderLine\<close> (\<open>id\<close> number,
  \<open>quantidade\<close> positive number) and \<open>Order\<close>; for orders the shape records what the code
  guarantees where it is weaker than the data model: \<open>clienteId\<close> is only truthy and
  \<open>total\<close> is a number or \<open>null\<close> (a NaN total is written as \<open>null\<close>).\<close>

definition menu_item_shape :: shape where
  "menu_item_shape = SObj [(js_str ''id'', SInt), (js_str ''nome'', SNonEmptyStr), (js_str ''preco'', SNum)]"

definition cliente_shape :: shape where
  "cliente_shape =
     SObj [(js_str ''id'', SInt), (js_str ''nome'', SNonEmptyStr), (js_str ''telefone'', SNonEmptyStr)]"

definition order_line_shape :: shape where
  "order_line_shape = SObj [(js_str ''id'', SNum), (js_str ''quantidade'', SPosNum)]"

definition pedido_shape :: shape where
  "pedido_shape =
     SObj [(js_str ''id'', SInt), (js_str ''clienteId'', STruthy),
           (js_str ''itens'', SNonEmptyArr order_line_shape), (js_str ''total'', SNumOrNull)]"

end
