(* ===== verification/JsonText.thy ===== *)
theory JsonText
  imports App
begin

text \<open>
  The text of a request body, before \<open>req.body\<close> exists: \<open>express.json()\<close> of
  \<open>src/app.js\<close> (body-parser's JSON parser, strict by default) turns an empty body into
  \<open>{}\<close>, refuses a body whose first non-blank character is not \<open>{\<close> or \<open>[\<close>, and
  otherwise calls \<open>JSON.parse\<close>. \<open>JSON.parse\<close> is modelled over the decoded text
  (UTF-16 code units) by a recursive-descent parser (\<open>parse_value\<close>, \<open>parse_elems\<close>,
  \<open>parse_members\<close>) that follows the JSON grammar: white space, literals, numbers
  (\<open>-\<close>, no leading zeros, fraction, exponent; read as exact reals), strings (escapes,
  \<open>\u\<close> with four hex digits, no raw control characters), arrays and objects (every
  member kept, so that \<open>get_prop\<close> sees the last of duplicate keys as \<open>JSON.parse\<close>
  does). The recursion is mutual and nests through the input, so it runs on fuel; the
  result tells running out of fuel (\<open>OutOfFuel\<close>) apart from a syntax error, and the
  lemmas show that \<open>2 * length + 2\<close> is always enough and that more fuel changes
  nothing. \<open>json_body_of_text\<close> gives the \<open>req_body\<close> of \<open>App\<close>, which ties the text
  to the application.
\<close>

subsection \<open>Lexical parts\<close>

text \<open>JSON white space: space, tab, line feed, carriage return.\<close>

definition is_json_ws :: "16 word \<Rightarrow> bool" where
  "is_json_ws c \<longleftrightarrow> c = 0x20 \<or> c = 0x09 \<or> c = 0x0A \<or> c = 0x0D"

definition skip_ws :: "js_string \<Rightarrow> js_string" where
  "skip_ws s = dropWhile is_json_ws s"

definition json_int_part :: "js_string \<Rightarrow> (js_string \<times> js_string) option" where
  "json_int_part s =
    (case s of
       c # r \<Rightarrow> if c = 0x30 then Some ([c], r)
                else if 0x31 \<le> c \<and> c \<le> 0x39 then Some (c # takeWhile is_dec r, dropWhile is_dec r)
                else None
     | [] \<Rightarrow> None)"

definition json_frac :: "js_string \<Rightarrow> (js_string \<times> js_string) option" where
  "json_frac s =
    (case s of
       c # r \<Rightarrow> if c = 0x2E
                then (let ds = takeWhile is_dec r in if ds = [] then None else Some (ds, dropWhile is_dec r))
                else Some ([], s)
     | [] \<Rightarrow> Some ([], []))"

definition json_exp :: "js_string \<Rightarrow> (int \<times> js_string) option" where
  "json_exp s =
    (case s of
       c # r \<Rightarrow>
         if c = 0x65 \<or> c = 0x45 then
           (let (sg, r') = (case r of d # r'' \<Rightarrow> if d = 0x2B then (1, r'') else if d = 0x2D then (-1, r'')
                                                 else (1, r)
                                    | [] \<Rightarrow> (1, r));
                ds = takeWhile is_dec r'
            in if ds = [] then None else Some (sg * int (dec_val ds), dropWhile is_dec r'))
         else Some (0, s)
     | [] \<Rightarrow> Some (0, []))"

definition parse_json_number :: "js_string \<Rightarrow> (json \<times> js_string) option" where
  "parse_json_number s =
    (let (neg, s1) = (case s of c # r \<Rightarrow> if c = 0x2D then (True, r) else (False, s) | [] \<Rightarrow> (False, s))
     in case json_int_part s1 of
          None \<Rightarrow> None
        | Some (ip, s2) \<Rightarrow>
            (case json_frac s2 of
               None \<Rightarrow> None
             | Some (fp, s3) \<Rightarrow>
                 (case json_exp s3 of
                    None \<Rightarrow> None
                  | Some (e, s4) \<Rightarrow> Some (JNum ((if neg then -1 else 1) * decimal_value ip fp e), s4))))"

definition json_escape :: "16 word \<Rightarrow> 16 word option" where
  "json_escape e =
    (if e = 0x22 \<or> e = 0x5C \<or> e = 0x2F then Some e
     else if e = 0x62 then Some 0x08 else if e = 0x66 then Some 0x0C
     else if e = 0x6E then Some 0x0A else if e = 0x72 then Some 0x0D
     else if e = 0x74 then Some 0x09 else None)"

fun parse_json_chars :: "js_string \<Rightarrow> js_string \<Rightarrow> (js_string \<times> js_string) option" where
  "parse_json_chars acc [] = None"
| "parse_json_chars acc (c # r) =
     (if c = 0x22 then Some (rev acc, r)
      else if c = 0x5C then
        (case r of
           [] \<Rightarrow> None
         | e # r' \<Rightarrow>
             if e = 0x75 then
               (if length r' < 4 then None
                else case parse_digits 16 (take 4 r') of
                       None \<Rightarrow> None
                     | Some v \<Rightarrow> parse_json_chars (of_nat v # acc) (drop 4 r'))
             else (case json_escape e of
                     None \<Rightarrow> None
                   | Some d \<Rightarrow> parse_json_chars (d # acc) r'))
      else if c < 0x20 then None
      else parse_json_chars (c # acc) r)"

subsection \<open>Values\<close>

text \<open>The result of a parser with fuel.\<close>

datatype 'a pstep = OutOfFuel | SyntaxError | Parsed 'a

definition literal_rest :: "js_string \<Rightarrow> js_string \<Rightarrow> js_string option" where
  "literal_rest w t = (if take (length w) t = w then Some (drop (length w) t) else None)"

fun parse_value :: "nat \<Rightarrow> js_string \<Rightarrow> (json \<times> js_string) pstep"
and parse_elems :: "nat \<Rightarrow> json list \<Rightarrow> js_string \<Rightarrow> (json list \<times> js_string) pstep"
and parse_members ::
  "nat \<Rightarrow> (js_string \<times> json) list \<Rightarrow> js_string \<Rightarrow> ((js_string \<times> json) list \<times> js_string) pstep" where
  "parse_value 0 s = OutOfFuel"
| "parse_value (Suc n) s =
     (case skip_ws s of
        [] \<Rightarrow> SyntaxError
      | c # r \<Rightarrow>
          if c = 0x7B then
            (let r' = skip_ws r in
             if r' \<noteq> [] \<and> hd r' = 0x7D then Parsed (JObj [], tl r')
             else (case parse_members n [] r of
                     Parsed (kvs, rest) \<Rightarrow> Parsed (JObj kvs, rest)
                   | OutOfFuel \<Rightarrow> OutOfFuel
                   | SyntaxError \<Rightarrow> SyntaxError))
          else if c = 0x5B then
            (let r' = skip_ws r in
             if r' \<noteq> [] \<and> hd r' = 0x5D then Parsed (JArr [], tl r')
             else (case parse_elems n [] r of
                     Parsed (xs, rest) \<Rightarrow> Parsed (JArr xs, rest)
                   | OutOfFuel \<Rightarrow> OutOfFuel
                   | SyntaxError \<Rightarrow> SyntaxError))
          else if c = 0x22 then
            (case parse_json_chars [] r of
               Some (str, rest) \<Rightarrow> Parsed (JStr str, rest)
             | None \<Rightarrow> SyntaxError)
          else (case literal_rest (js_str ''true'') (c # r) of
                  Some rest \<Rightarrow> Parsed (JBool True, rest)
                | None \<Rightarrow>
                (case literal_rest (js_str ''false'') (c # r) of
                   Some rest \<Rightarrow> Parsed (JBool False, rest)
                 | None \<Rightarrow>
                 (case literal_rest (js_str ''null'') (c # r) of
                    Some rest \<Rightarrow> Parsed (JNull, rest)
                  | None \<Rightarrow>
                  (case parse_json_number (c # r) of
                     Some (v, rest) \<Rightarrow> Parsed (v, rest)
                   | None \<Rightarrow> SyntaxError)))))"
| "parse_elems 0 acc s = OutOfFuel"
| "parse_elems (Suc n) acc s =
     (case parse_value n s of
        OutOfFuel \<Rightarrow> OutOfFuel
      | SyntaxError \<Rightarrow> SyntaxError
      | Parsed (v, rest) \<Rightarrow>
          (let t = skip_ws rest in
           if t = [] then SyntaxError
           else if hd t = 0x2C then parse_elems n (acc @ [v]) (tl t)
           else if hd t = 0x5D then Parsed (acc @ [v], tl t)
           else SyntaxError))"
| "parse_members 0 acc s = OutOfFuel"
| "parse_members (Suc n) acc s =
     (let t = skip_ws s in
      if t = [] \<or> hd t \<noteq> 0x22 then SyntaxError
      else (case parse_json_chars [] (tl t) of
              None \<Rightarrow> SyntaxError
            | Some (k, r) \<Rightarrow>
                (let r2 = skip_ws r in
                 if r2 = [] \<or> hd r2 \<noteq> 0x3A then SyntaxError
                 else (case parse_value n (tl r2) of
                         OutOfFuel \<Rightarrow> OutOfFuel
                       | SyntaxError \<Rightarrow> SyntaxError
                       | Parsed (v, rest) \<Rightarrow>
                           (let t' = skip_ws rest in
                            if t' = [] then SyntaxError
                            else if hd t' = 0x2C then parse_members n (acc @ [(k, v)]) (tl t')
                            else if hd t' = 0x7D then Parsed (acc @ [(k, v)], tl t')
                            else SyntaxError)))))"

text \<open>\<open>JSON.parse(text)\<close>: one value, then only white space.\<close>

definition json_parse_fuel :: "nat \<Rightarrow> js_string \<Rightarrow> json pstep" where
  "json_parse_fuel n s =
    (case parse_value n s of
       Parsed (v, rest) \<Rightarrow> if skip_ws rest = [] then Parsed v else SyntaxError
     | OutOfFuel \<Rightarrow> OutOfFuel
     | SyntaxError \<Rightarrow> SyntaxError)"

definition json_fuel :: "js_string \<Rightarrow> nat" where
  "json_fuel s = 2 * length s + 2"

definition JSON_parse :: "js_string \<Rightarrow> json option" where
  "JSON_parse s = (case json_parse_fuel (json_fuel s) s of Parsed v \<Rightarrow> Some v | _ \<Rightarrow> None)"

subsection \<open>The body parser\<close>

text \<open>\<open>firstchar\<close> of body-parser (\<open>/^[\x20\x09\x0a\x0d]*([^\x20\x09\x0a\x0d])/\<close>) and the
  parser of \<open>express.json()\<close> for a request with a JSON content type.\<close>

definition first_char :: "js_string \<Rightarrow> 16 word option" where
  "first_char s = (case skip_ws s of [] \<Rightarrow> None | c # _ \<Rightarrow> Some c)"

definition json_body_of_text :: "js_string \<Rightarrow> req_body" where
  "json_body_of_text body =
    (if body = [] then JsonBody (JObj [])
     else if first_char body \<noteq> Some 0x7B \<and> first_char body \<noteq> Some 0x5B then MalformedJson
     else (case JSON_parse body of Some v \<Rightarrow> JsonBody v | None \<Rightarrow> MalformedJson))"

subsection \<open>Progress and fuel\<close>

lemma parse_json_chars_rest:
  "parse_json_chars acc s = Some (t, rest) \<Longrightarrow> length rest < length s"
proof (induction "length s" arbitrary: acc s rule: less_induct)
  case less
  show ?case
  proof (cases s)
    case Nil
    with less.prems show ?thesis by simp
  next
    case (Cons c cs)
    note p = less.prems [unfolded Cons]
    show ?thesis
    proof (cases "c = 0x22")
      case True
      with p Cons show ?thesis by simp
    next
      case nq: False
      show ?thesis
      proof (cases "c = 0x5C")
        case bs: True
        then obtain e r' where cs: "cs = e # r'" using p nq by (cases cs) auto
        show ?thesis
        proof (cases "e = 0x75")
          case True
          then obtain v where "parse_json_chars (of_nat v # acc) (drop 4 r') = Some (t, rest)"
            using p nq bs cs by (auto split: if_splits option.splits)
          moreover have "length (drop 4 r') < length s" using Cons cs by simp
          ultimately have "length rest < length (drop 4 r')" using less.hyps by blast
          then show ?thesis using Cons cs by simp
        next
          case False
          then obtain d where "parse_json_chars (d # acc) r' = Some (t, rest)"
            using p nq bs cs by (auto split: option.splits)
          moreover have "length r' < length s" using Cons cs by simp
          ultimately have "length rest < length r'" using less.hyps by blast
          then show ?thesis using Cons cs by simp
        qed
      next
        case False
        then have "parse_json_chars (c # acc) cs = Some (t, rest)"
          using p nq by (simp split: if_splits)
        moreover have "length cs < length s" using Cons by simp
        ultimately have "length rest < length cs" using less.hyps by blast
        then show ?thesis using Cons by simp
      qed
    qed
  qed
qed


lemma skip_ws_le: "length (skip_ws s) \<le> length s"
  by (simp add: skip_ws_def length_dropWhile_le)

lemma literal_rest_le:
  assumes "literal_rest w t = Some r" and "w \<noteq> []"
  shows "length r < length t"
proof -
  have tw: "take (length w) t = w" and r: "r = drop (length w) t"
    using assms(1) by (auto simp: literal_rest_def split: if_splits)
  have "length w \<le> length t"
    using arg_cong [OF tw, of length] by simp
  moreover have "0 < length w" using assms(2) by simp
  ultimately show ?thesis unfolding r length_drop by arith
qed

lemma json_int_part_rest: "json_int_part s = Some (ip, r) \<Longrightarrow> length r < length s"
  by (cases s) (auto simp: json_int_part_def length_dropWhile_le le_imp_less_Suc split: if_splits)

lemma json_frac_rest: "json_frac s = Some (fp, r) \<Longrightarrow> length r \<le> length s"
  by (cases s) (auto simp: json_frac_def Let_def length_dropWhile_le le_SucI split: if_splits)

lemma json_exp_rest: "json_exp s = Some (e, r) \<Longrightarrow> length r \<le> length s"
proof (cases s)
  case (Cons c cs)
  assume h: "json_exp s = Some (e, r)"
  obtain sg r' where sr: "(case cs of d # r'' \<Rightarrow> if d = 0x2B then (1::int, r'') else if d = 0x2D then (-1, r'')
                                   else (1, cs) | [] \<Rightarrow> (1, cs)) = (sg, r')"
    by (cases "(case cs of d # r'' \<Rightarrow> if d = 0x2B then (1::int, r'') else if d = 0x2D then (-1, r'')
                           else (1, cs) | [] \<Rightarrow> (1, cs))") auto
  have "length r' \<le> length cs" using sr by (auto split: list.splits if_splits)
  moreover have "length (dropWhile is_dec r') \<le> length r'" by (rule length_dropWhile_le)
  ultimately show ?thesis using h Cons sr by (auto simp: json_exp_def Let_def split: if_splits)
qed (auto simp: json_exp_def)

lemma parse_json_number_rest:
  assumes "parse_json_number s = Some (v, r)"
  shows "length r < length s"
proof -
  obtain neg s1 where ns: "(case s of c # r \<Rightarrow> if c = 0x2D then (True, r) else (False, s) | [] \<Rightarrow> (False, s)) = (neg, s1)"
    by (cases "(case s of c # r \<Rightarrow> if c = 0x2D then (True, r) else (False, s) | [] \<Rightarrow> (False, s))") auto
  have l1: "length s1 \<le> length s" using ns by (auto split: list.splits if_splits)
  obtain ip s2 fp s3 e s4 where
    "json_int_part s1 = Some (ip, s2)" "json_frac s2 = Some (fp, s3)" "json_exp s3 = Some (e, s4)" "r = s4"
    using assms ns by (auto simp: parse_json_number_def split: option.splits)
  then show ?thesis
    using l1 json_int_part_rest json_frac_rest json_exp_rest by fastforce
qed

lemma parse_progress:
  "(parse_value n s = Parsed (v, rest) \<longrightarrow> length rest < length s) \<and>
   (parse_elems n acc s = Parsed (xs, rest) \<longrightarrow> length rest < length s) \<and>
   (parse_members n acc' s = Parsed (kvs, rest) \<longrightarrow> length rest < length s)"
proof (induction n arbitrary: s acc acc' v xs kvs rest)
  case 0
  then show ?case by simp
next
  case (Suc n)
  have IHv: "\<And>s v rest. parse_value n s = Parsed (v, rest) \<Longrightarrow> length rest < length s"
    using Suc.IH by blast
  have IHe: "\<And>acc s xs rest. parse_elems n acc s = Parsed (xs, rest) \<Longrightarrow> length rest < length s"
    using Suc.IH by blast
  have IHm: "\<And>acc s kvs rest. parse_members n acc s = Parsed (kvs, rest) \<Longrightarrow> length rest < length s"
    using Suc.IH by blast
  have v: "length rest < length s" if h: "parse_value (Suc n) s = Parsed (v, rest)"
  proof (cases "skip_ws s")
    case Nil
    with h show ?thesis by simp
  next
    case (Cons c r)
    have lr: "length r < length s" using skip_ws_le [of s] Cons by simp
    have lr': "length (skip_ws r) \<le> length r" by (rule skip_ws_le)
    have nz: "js_str ''true'' \<noteq> []" "js_str ''false'' \<noteq> []" "js_str ''null'' \<noteq> []"
      by (simp_all add: js_str_def)
    have "length rest < Suc (length r)"
      using h Cons lr' nz
      by (auto simp: Let_def split: if_splits pstep.splits option.splits prod.splits
          dest!: IHm IHe parse_json_chars_rest literal_rest_le parse_json_number_rest
          intro: less_SucI)
    with lr show ?thesis by simp
  qed
  have e: "length rest < length s" if h: "parse_elems (Suc n) acc s = Parsed (xs, rest)"
  proof -
    obtain v r0 where p: "parse_value n s = Parsed (v, r0)"
      using h by (auto split: pstep.splits)
    have l0: "length r0 < length s" using IHv [OF p] .
    have lt: "length (skip_ws r0) \<le> length r0" by (rule skip_ws_le)
    show ?thesis
      using h p l0 lt by (auto simp: Let_def split: if_splits dest!: IHe)
  qed
  have m: "length rest < length s" if h: "parse_members (Suc n) acc' s = Parsed (kvs, rest)"
  proof -
    obtain k r where c: "parse_json_chars [] (tl (skip_ws s)) = Some (k, r)"
      using h by (auto simp: Let_def split: if_splits option.splits)
    have lr: "length r < length s"
      using parse_json_chars_rest [OF c] skip_ws_le [of s] by simp
    obtain v r0 where p: "parse_value n (tl (skip_ws r)) = Parsed (v, r0)"
      using h c by (auto simp: Let_def split: if_splits pstep.splits)
    have l0: "length r0 < length s"
      using IHv [OF p] skip_ws_le [of r] lr by simp
    have lt: "length (skip_ws r0) \<le> length r0" by (rule skip_ws_le)
    show ?thesis
      using h c p l0 lt by (auto simp: Let_def split: if_splits dest!: IHm)
  qed
  show ?case using v e m by blast
qed


lemma parse_value_rest: "parse_value n s = Parsed (v, rest) \<Longrightarrow> length rest < length s"
  using parse_progress by blast

lemma parse_fuel:
  "(2 * length s + 1 \<le> n \<longrightarrow> parse_value n s \<noteq> OutOfFuel) \<and>
   (2 * length s + 2 \<le> n \<longrightarrow> parse_elems n acc s \<noteq> OutOfFuel) \<and>
   (2 * length s + 2 \<le> n \<longrightarrow> parse_members n acc' s \<noteq> OutOfFuel)"
proof (induction n arbitrary: s acc acc')
  case 0
  then show ?case by simp
next
  case (Suc n)
  have IHv: "\<And>s. 2 * length s + 1 \<le> n \<Longrightarrow> parse_value n s \<noteq> OutOfFuel"
    using Suc.IH by blast
  have IHe: "\<And>acc s. 2 * length s + 2 \<le> n \<Longrightarrow> parse_elems n acc s \<noteq> OutOfFuel"
    using Suc.IH by blast
  have IHm: "\<And>acc s. 2 * length s + 2 \<le> n \<Longrightarrow> parse_members n acc s \<noteq> OutOfFuel"
    using Suc.IH by blast
  have v: "parse_value (Suc n) s \<noteq> OutOfFuel" if b: "2 * length s + 1 \<le> Suc n"
  proof (cases "skip_ws s")
    case Nil
    then show ?thesis by simp
  next
    case (Cons c r)
    have "length r < length s" using skip_ws_le [of s] Cons by simp
    with b have "parse_elems n [] r \<noteq> OutOfFuel" and "parse_members n [] r \<noteq> OutOfFuel"
      by (auto intro!: IHe IHm)
    then show ?thesis using Cons
      by (auto simp: Let_def split: pstep.splits option.splits prod.splits)
  qed
  have e: "parse_elems (Suc n) acc s \<noteq> OutOfFuel" if b: "2 * length s + 2 \<le> Suc n"
  proof (cases "parse_value n s")
    case (Parsed p)
    obtain v r0 where p: "p = (v, r0)" by (cases p)
    have "length r0 < length s" using parse_value_rest Parsed p by blast
    then have "length (tl (skip_ws r0)) < length s" using skip_ws_le [of r0] by simp
    with b have "parse_elems n (acc @ [v]) (tl (skip_ws r0)) \<noteq> OutOfFuel" by (auto intro!: IHe)
    then show ?thesis using Parsed p by (auto simp: Let_def)
  qed (use b IHv in auto)
  have m: "parse_members (Suc n) acc' s \<noteq> OutOfFuel" if b: "2 * length s + 2 \<le> Suc n"
  proof (cases "parse_json_chars [] (tl (skip_ws s))")
    case (Some kr)
    obtain k r where kr: "kr = (k, r)" by (cases kr)
    have lr: "length r < length s"
      using parse_json_chars_rest [of "[]" "tl (skip_ws s)" k r] Some kr skip_ws_le [of s] by simp
    then have "length (tl (skip_ws r)) < length s" using skip_ws_le [of r] by simp
    with b have pv: "parse_value n (tl (skip_ws r)) \<noteq> OutOfFuel" by (auto intro!: IHv)
    show ?thesis
    proof (cases "parse_value n (tl (skip_ws r))")
      case (Parsed p)
      obtain v r0 where p: "p = (v, r0)" by (cases p)
      have "length r0 < length s"
        using parse_value_rest [of n "tl (skip_ws r)" v r0] Parsed p
          \<open>length (tl (skip_ws r)) < length s\<close> by simp
      then have "length (tl (skip_ws r0)) < length s" using skip_ws_le [of r0] by simp
      with b have "parse_members n (acc' @ [(k, v)]) (tl (skip_ws r0)) \<noteq> OutOfFuel"
        by (auto intro!: IHm)
      then show ?thesis using Some kr Parsed p by (auto simp: Let_def)
    qed (use pv Some kr in \<open>auto simp: Let_def\<close>)
  qed (auto simp: Let_def)
  show ?case using v e m by blast
qed


lemma parse_mono:
  "(parse_value n s \<noteq> OutOfFuel \<longrightarrow> n \<le> m \<longrightarrow> parse_value m s = parse_value n s) \<and>
   (parse_elems n acc s \<noteq> OutOfFuel \<longrightarrow> n \<le> m \<longrightarrow> parse_elems m acc s = parse_elems n acc s) \<and>
   (parse_members n acc' s \<noteq> OutOfFuel \<longrightarrow> n \<le> m \<longrightarrow> parse_members m acc' s = parse_members n acc' s)"
proof (induction n arbitrary: m s acc acc')
  case 0
  then show ?case by simp
next
  case (Suc n)
  have IHv: "\<And>m s. parse_value n s \<noteq> OutOfFuel \<Longrightarrow> n \<le> m \<Longrightarrow> parse_value m s = parse_value n s"
    using Suc.IH by blast
  have IHe: "\<And>m acc s. parse_elems n acc s \<noteq> OutOfFuel \<Longrightarrow> n \<le> m \<Longrightarrow> parse_elems m acc s = parse_elems n acc s"
    using Suc.IH by blast
  have IHm: "\<And>m acc s. parse_members n acc s \<noteq> OutOfFuel \<Longrightarrow> n \<le> m \<Longrightarrow>
      parse_members m acc s = parse_members n acc s"
    using Suc.IH by blast
  show ?case
  proof (intro conjI impI)
    assume h: "parse_value (Suc n) s \<noteq> OutOfFuel" and le: "Suc n \<le> m"
    then obtain m' where m: "m = Suc m'" and le': "n \<le> m'" by (cases m) auto
    show "parse_value m s = parse_value (Suc n) s"
    proof (cases "skip_ws s")
      case Nil
      then show ?thesis using m by simp
    next
      case (Cons c r)
      show ?thesis
        using h Cons le' IHe [of "[]" r m'] IHm [of "[]" r m'] unfolding m
        by (auto simp: Let_def split: pstep.splits)
    qed
  next
    assume h: "parse_elems (Suc n) acc s \<noteq> OutOfFuel" and le: "Suc n \<le> m"
    then obtain m' where m: "m = Suc m'" and le': "n \<le> m'" by (cases m) auto
    show "parse_elems m acc s = parse_elems (Suc n) acc s"
      using h le' IHv [of s m'] IHe [of _ _ m'] unfolding m
      by (auto simp: Let_def split: pstep.splits)
  next
    assume h: "parse_members (Suc n) acc' s \<noteq> OutOfFuel" and le: "Suc n \<le> m"
    then obtain m' where m: "m = Suc m'" and le': "n \<le> m'" by (cases m) auto
    show "parse_members m acc' s = parse_members (Suc n) acc' s"
      using h le' IHv [of _ m'] IHm [of _ _ m'] unfolding m
      by (auto simp: Let_def split: pstep.splits option.splits)
  qed
qed

text \<open>
  The fuel is enough (a fact of the model, which justifies \<open>JSON_parse\<close>): with fuel
  \<open>json_fuel s = 2 * length s + 2\<close> the parser never runs out of fuel, and any larger
  fuel gives the same result, so \<open>JSON_parse\<close> answers \<open>None\<close> only for a syntax error.
\<close>

theorem json_parse_fuel_enough:
  assumes "json_fuel s \<le> m"
  shows "json_parse_fuel m s \<noteq> OutOfFuel \<and> json_parse_fuel m s = json_parse_fuel (json_fuel s) s"
proof -
  have nf: "parse_value (json_fuel s) s \<noteq> OutOfFuel"
    using parse_fuel [of s "json_fuel s"] by (simp add: json_fuel_def)
  then have "parse_value m s = parse_value (json_fuel s) s"
    using parse_mono assms by blast
  with nf show ?thesis by (auto simp: json_parse_fuel_def split: pstep.splits)
qed

text \<open>
  C18: in strict mode, a non-empty body whose first non-blank character is neither
  \<open>{\<close> nor \<open>[\<close> (\<open>5\<close>, \<open>"x"\<close>, \<open>true\<close>, only blanks) is answered with a 400 page
  whatever the method and path, before the logger runs, and nothing changes.
\<close>

theorem app_handle_strict_body:
  assumes "body \<noteq> []" and "first_char body \<noteq> Some 0x7B" and "first_char body \<noteq> Some 0x5B"
  shows "app_handle \<lparr>req_method = m, req_url = u, req_body = json_body_of_text body\<rparr> st = (ErrorPage 400, st)"
  using assms by (simp add: json_body_of_text_def app_handle_def)

theorem app_handle_strict_body_witness:
  "app_handle \<lparr>req_method = POST, req_url = js_str ''/cardapio'', req_body = json_body_of_text (js_str ''5'')\<rparr>
     app_init = (ErrorPage 400, app_init)"
  by (rule app_handle_strict_body) (simp_all add: first_char_def skip_ws_def is_json_ws_def js_str_def)

end
