(* ===== verification/NumberText.thy ===== *)
theory NumberText
  imports JsonText
begin

text \<open>
  \<open>Number::toString\<close> (ECMAScript 6.1.6.1.20), which \<open>JSON.stringify\<close> applies to
  every finite number a handler answers with. \<open>decimal_digits\<close> finds the digits \<open>s\<close>
  (no trailing zero) and the exponent \<open>n\<close> with \<open>x = s * 10 ^ (n - k)\<close>, \<open>k\<close> the
  number of digits; \<open>digits_text\<close> is steps 5 to 10 of the algorithm: plain digits with
  trailing zeros up to \<open>n = 21\<close>, a decimal point inside the digits, \<open>0.\<close> and leading
  zeros down to \<open>n = -5\<close>, otherwise the exponent form \<open>d.ddde+n\<close>
  (\<open>exp_text\<close>). The model's numbers are exact reals; JavaScript prints the shortest
  decimal that reads back as the same double, which is the value's own digits exactly when
  it has at most 15 significant digits and is a normal double (every decimal of at most 15
  digits reads back through a double unchanged). \<open>number_to_string\<close> is defined on those
  values, zero and the range \<open>[1e-307, 1.79769313486231e308]\<close>, and is \<open>None\<close>
  elsewhere. The lemmas show that the \<open>JSON.parse\<close> number grammar of \<open>JsonText\<close>
  reads every printed text back as the value it was printed from.
\<close>

text \<open>What may follow a value in JSON text: the end, a comma or a closing bracket.\<close>

definition json_follow :: "js_string \<Rightarrow> bool" where
  "json_follow r \<longleftrightarrow> r = [] \<or> hd r = 0x2C \<or> hd r = 0x5D \<or> hd r = 0x7D"

subsection \<open>Number::toString\<close>

text \<open>The least \<open>j \<le> 322\<close> with \<open>x * 10 ^ j\<close> an integer.\<close>

function dec_scale_from :: "nat \<Rightarrow> real \<Rightarrow> nat option" where
  "dec_scale_from j x =
     (if x * 10 ^ j = of_int \<lfloor>x * 10 ^ j\<rfloor> then Some j
      else if 322 \<le> j then None else dec_scale_from (Suc j) x)"
  by pat_completeness auto
termination by (relation "measure (\<lambda>(j, x). 323 - j)") auto

definition dec_scale :: "real \<Rightarrow> nat option" where
  "dec_scale x = dec_scale_from 0 x"

fun dec_strip :: "nat \<Rightarrow> nat \<times> nat" where
  "dec_strip m =
     (if m \<noteq> 0 \<and> m mod 10 = 0 then (let (s, t) = dec_strip (m div 10) in (s, Suc t)) else (m, 0))"

definition decimal_digits :: "real \<Rightarrow> (js_string \<times> int) option" where
  "decimal_digits x =
    (case dec_scale x of
       None \<Rightarrow> None
     | Some j \<Rightarrow>
         (let (s, t) = dec_strip (nat \<lfloor>x * 10 ^ j\<rfloor>); ds = nat_to_dec s
          in Some (ds, int (length ds) + int t - int j)))"

definition exp_text :: "int \<Rightarrow> js_string" where
  "exp_text e = 0x65 # (if 0 \<le> e then 0x2B else 0x2D) # nat_to_dec (nat \<bar>e\<bar>)"

definition digits_text :: "js_string \<Rightarrow> int \<Rightarrow> js_string" where
  "digits_text ds n =
    (let k = int (length ds) in
     if k \<le> n \<and> n \<le> 21 then ds @ replicate (nat (n - k)) 0x30
     else if 0 < n \<and> n \<le> 21 then take (nat n) ds @ 0x2E # drop (nat n) ds
     else if - 6 < n \<and> n \<le> 0 then 0x30 # 0x2E # replicate (nat (- n)) 0x30 @ ds
     else (if k = 1 then ds else hd ds # 0x2E # tl ds) @ exp_text (n - 1))"

definition number_to_string :: "real \<Rightarrow> js_string option" where
  "number_to_string x =
    (if x = 0 then Some [0x30]
     else case decimal_digits \<bar>x\<bar> of
       None \<Rightarrow> None
     | Some (ds, n) \<Rightarrow>
         if 15 < length ds \<or> n < - 306 \<or> 179769313486231 * 10 ^ 294 < \<bar>x\<bar> then None
         else Some ((if x < 0 then [0x2D] else []) @ digits_text ds n))"

subsection \<open>Digits\<close>

lemma json_follow_not_dec: "json_follow r \<Longrightarrow> r = [] \<or> \<not> is_dec (hd r)"
  by (auto simp: json_follow_def is_dec_def)

lemma dec_run_append:
  assumes "list_all is_dec ds" "r = [] \<or> \<not> is_dec (hd r)"
  shows "takeWhile is_dec (ds @ r) = ds" "dropWhile is_dec (ds @ r) = r"
  using assms by (induction ds) (auto simp: takeWhile_eq_Nil_iff dropWhile_eq_self_iff)

lemma nat_to_dec_lead: "0 < n \<Longrightarrow> 0x31 \<le> hd (nat_to_dec n) \<and> hd (nat_to_dec n) \<le> 0x39"
proof (induction n rule: nat_to_dec.induct)
  case (1 n)
  show ?case
  proof (cases "n < 10")
    case True
    then have "nat_to_dec n = [dec_digit n]" by (subst nat_to_dec.simps) simp
    then show ?thesis
      using "1.prems" True by (simp add: word_le_nat_alt unat_dec_digit)
  next
    case False
    then have "0 < n div 10" by simp
    moreover have "nat_to_dec n = nat_to_dec (n div 10) @ [dec_digit (n mod 10)]"
      using False by (subst nat_to_dec.simps) simp
    ultimately show ?thesis using "1.IH" False by (simp add: nat_to_dec_not_Nil)
  qed
qed

lemma nat_to_dec_0: "nat_to_dec 0 = [0x30]"
  by (subst nat_to_dec.simps) (simp add: dec_digit_def)

lemma json_int_part_nat_to_dec:
  assumes "r = [] \<or> \<not> is_dec (hd r)"
  shows "json_int_part (nat_to_dec n @ r) = Some (nat_to_dec n, r)"
proof (cases "n = 0")
  case True
  then show ?thesis by (simp add: nat_to_dec_0 json_int_part_def)
next
  case False
  obtain c cs where c: "nat_to_dec n = c # cs"
    using nat_to_dec_not_Nil by (cases "nat_to_dec n") auto
  have "list_all is_dec cs" using nat_to_dec_digits [of n] c by simp
  moreover have "0x31 \<le> c \<and> c \<le> 0x39" using nat_to_dec_lead [of n] False c by simp
  ultimately show ?thesis
    using assms c by (auto simp: json_int_part_def dec_run_append)
qed

lemma dec_val_Nil: "dec_val [] = 0"
  by (simp add: dec_val_def)

lemma dec_val_append: "dec_val (xs @ ys) = dec_val xs * 10 ^ length ys + dec_val ys"
proof (induction ys rule: rev_induct)
  case Nil
  then show ?case by (simp add: dec_val_def)
next
  case (snoc c ys)
  then show ?case
    unfolding append_assoc [symmetric] dec_val_snoc by (simp add: algebra_simps)
qed

lemma json_follow_frac: "json_follow r \<Longrightarrow> json_frac r = Some ([], r)"
  by (cases r) (auto simp: json_follow_def json_frac_def)

lemma json_follow_exp: "json_follow r \<Longrightarrow> json_exp r = Some (0, r)"
  by (cases r) (auto simp: json_follow_def json_exp_def)

lemma dec_scale_from_Some:
  "dec_scale_from j x = Some i \<Longrightarrow> x * 10 ^ i = of_int \<lfloor>x * 10 ^ i\<rfloor>"
proof (induction j x rule: dec_scale_from.induct)
  case (1 j x)
  then show ?case by (auto split: if_splits)
qed

lemma dec_strip_spec: "dec_strip m = (s, t) \<Longrightarrow> m = s * 10 ^ t \<and> (m \<noteq> 0 \<longrightarrow> s \<noteq> 0)"
proof (induction m arbitrary: s t rule: dec_strip.induct)
  case (1 m)
  show ?case
  proof (cases "m \<noteq> 0 \<and> m mod 10 = 0")
    case True
    obtain s' t' where st: "dec_strip (m div 10) = (s', t')" by fastforce
    then have "s = s'" "t = Suc t'" using "1.prems" True by auto
    moreover have "m div 10 = s' * 10 ^ t' \<and> (m div 10 \<noteq> 0 \<longrightarrow> s' \<noteq> 0)"
      using "1.IH" [OF True st] .
    moreover have "m = m div 10 * 10" using div_mult_mod_eq [of m 10] True by simp
    ultimately show ?thesis using True by auto
  next
    case False
    then show ?thesis using "1.prems" by auto
  qed
qed

lemma pow10_nat_diff: "pow10 (int t - int j) = 10 ^ t / 10 ^ j"
proof (cases "j \<le> t")
  case True
  then have e: "int t - int j = int (t - j)" by simp
  have "(10::real) ^ (t - j) = 10 ^ t / 10 ^ j" using True by (rule power_diff [rotated]) simp
  then show ?thesis unfolding e by (simp add: pow10_def)
next
  case False
  then have e: "int t - int j = - int (j - t)" by simp
  have "(10::real) ^ (j - t) = 10 ^ j / 10 ^ t" using False by (intro power_diff) simp_all
  moreover have "nat (int (j - t)) = j - t" by simp
  ultimately show ?thesis unfolding e using False by (simp only: pow10_def) simp
qed

lemma decimal_digits_value:
  assumes "0 < x" "decimal_digits x = Some (ds, n)"
  shows "\<exists>s. s \<noteq> 0 \<and> ds = nat_to_dec s \<and> x = real s * pow10 (n - int (length ds))"
proof -
  obtain j where j: "dec_scale x = Some j"
    using assms(2) by (cases "dec_scale x") (auto simp: decimal_digits_def)
  define m where "m = \<lfloor>x * 10 ^ j\<rfloor>"
  obtain s t where st: "dec_strip (nat m) = (s, t)" by fastforce
  have xm: "x * 10 ^ j = of_int m" using dec_scale_from_Some j unfolding dec_scale_def m_def by blast
  then have "0 < m" using assms(1) by (metis of_int_0_less_iff zero_less_mult_iff zero_less_power zero_less_numeral)
  then have m: "nat m = s * 10 ^ t" "s \<noteq> 0" using dec_strip_spec [OF st] by auto
  have dn: "ds = nat_to_dec s" "n = int (length ds) + int t - int j"
    using assms(2) j st by (auto simp: decimal_digits_def m_def Let_def)
  have "x = real (nat m) / 10 ^ j" using xm \<open>0 < m\<close> by (simp add: field_simps)
  also have "\<dots> = real s * (10 ^ t / 10 ^ j)" using m by simp
  finally have "x = real s * pow10 (int t - int j)" by (simp add: pow10_nat_diff)
  then show ?thesis using m dn by auto
qed


subsection \<open>Reading a decimal text\<close>

lemma dec_val_zeros: "dec_val (replicate j 0x30) = 0"
  by (induction j) (simp_all add: dec_val_def)

lemma nat_to_dec_digit_lead:
  assumes "s \<noteq> 0"
  obtains c cs where "nat_to_dec s = c # cs" "0x31 \<le> c" "c \<le> 0x39" "list_all is_dec cs"
proof -
  obtain c cs where c: "nat_to_dec s = c # cs"
    using nat_to_dec_not_Nil by (cases "nat_to_dec s") auto
  then show ?thesis
    using that nat_to_dec_lead [of s] nat_to_dec_digits [of s] assms by simp
qed

lemma exp_text_not_dec: "\<not> is_dec (hd (exp_text e @ r))"
  by (simp add: exp_text_def is_dec_def)

lemma json_exp_exp_text: "json_follow r \<Longrightarrow> json_exp (exp_text e @ r) = Some (e, r)"
proof -
  assume f: "json_follow r"
  define a where "a = nat \<bar>e\<bar>"
  have ea: "0 \<le> e \<Longrightarrow> int a = e" "\<not> 0 \<le> e \<Longrightarrow> - int a = e" by (simp_all add: a_def)
  have t: "exp_text e = 0x65 # (if 0 \<le> e then 0x2B else 0x2D) # nat_to_dec a"
    by (simp add: exp_text_def a_def)
  have d: "takeWhile is_dec (nat_to_dec a @ r) = nat_to_dec a" "dropWhile is_dec (nat_to_dec a @ r) = r"
    using dec_run_append [OF nat_to_dec_digits json_follow_not_dec [OF f]] by simp_all
  show ?thesis
    unfolding t using d nat_to_dec_not_Nil [of a] ea
    by (simp add: json_exp_def dec_val_nat_to_dec)
qed

definition decimal_parts :: "js_string \<Rightarrow> js_string \<Rightarrow> js_string \<Rightarrow> js_string" where
  "decimal_parts ip fp ep = ip @ (if fp = [] then [] else 0x2E # fp) @ ep"

lemma parse_decimal_text:
  assumes ip: "ip = [0x30] \<or> (ip \<noteq> [] \<and> 0x31 \<le> hd ip \<and> hd ip \<le> 0x39 \<and> list_all is_dec (tl ip))"
    and fp: "list_all is_dec fp"
    and ep: "(ep = [] \<and> e = 0) \<or> ep = exp_text e"
    and f: "json_follow r"
    and sg: "sg = [] \<or> sg = [0x2D]"
  shows "parse_json_number (sg @ decimal_parts ip fp ep @ r) =
           Some (JNum ((if sg = [] then 1 else - 1) * decimal_value ip fp e), r)"
proof -
  define rest where "rest = (if fp = [] then [] else 0x2E # fp) @ ep @ r"
  have epr: "ep @ r = [] \<or> \<not> is_dec (hd (ep @ r))"
    using ep json_follow_not_dec [OF f] exp_text_not_dec [of e r] by auto
  have stop: "rest = [] \<or> \<not> is_dec (hd rest)"
    using epr by (auto simp: rest_def is_dec_def)
  obtain c cs where c0: "ip = c # cs" "0x30 \<le> c" "c \<le> 0x39"
    using ip by (cases ip) (auto simp: word_le_nat_alt)
  then have c: "ip = c # cs" "c \<noteq> 0x2D" "0x30 \<le> c" "c \<le> 0x39" by auto
  have i: "json_int_part (ip @ rest) = Some (ip, rest)"
  proof (cases "ip = [0x30]")
    case True
    then show ?thesis by (simp add: json_int_part_def)
  next
    case False
    then have "list_all is_dec cs" "0x31 \<le> c" using ip c by auto
    then have "takeWhile is_dec (cs @ rest) = cs" "dropWhile is_dec (cs @ rest) = rest"
      using dec_run_append [OF _ stop] by simp_all
    moreover have "c \<noteq> 0x30" using \<open>0x31 \<le> c\<close> by auto
    ultimately show ?thesis using c \<open>0x31 \<le> c\<close> by (simp add: json_int_part_def)
  qed
  have fr: "json_frac rest = Some (fp, ep @ r)"
  proof (cases "fp = []")
    case True
    show ?thesis
    proof (cases "ep = []")
      case True
      then show ?thesis using \<open>fp = []\<close> json_follow_frac [OF f] by (simp add: rest_def)
    next
      case False
      then show ?thesis using \<open>fp = []\<close> ep by (simp add: rest_def json_frac_def exp_text_def)
    qed
  next
    case False
    then show ?thesis using fp epr by (simp add: rest_def json_frac_def dec_run_append)
  qed
  have ex: "json_exp (ep @ r) = Some (e, r)"
    using ep json_follow_exp [OF f] json_exp_exp_text [OF f] by auto
  have "sg @ decimal_parts ip fp ep @ r = sg @ ip @ rest" by (simp add: decimal_parts_def rest_def)
  then show ?thesis
    using sg i fr ex c by (auto simp: parse_json_number_def)
qed


lemma pow10_powr: "pow10 e = 10 powr real_of_int e"
proof (cases "0 \<le> e")
  case True
  then have "pow10 e = 10 ^ nat e" by (simp add: pow10_def)
  also have "\<dots> = 10 powr real (nat e)" by (rule powr_realpow [symmetric]) simp
  also have "real (nat e) = real_of_int e" using True by simp
  finally show ?thesis .
next
  case False
  then have "pow10 e = 1 / 10 ^ nat (- e)" by (simp add: pow10_def)
  also have "\<dots> = 1 / 10 powr real (nat (- e))" by (simp add: powr_realpow)
  also have "\<dots> = 10 powr (- real (nat (- e)))" by (simp add: powr_minus_divide)
  also have "- real (nat (- e)) = real_of_int e" using False by simp
  finally show ?thesis .
qed

lemma pow10_add: "pow10 (a + b) = pow10 a * pow10 b"
  by (simp add: pow10_powr powr_add)

lemma pow10_int: "pow10 (int a) = 10 ^ a"
  by (simp add: pow10_def)

lemma pow10_neg: "pow10 (- int a) = 1 / 10 ^ a"
  by (cases "a = 0") (simp_all add: pow10_def)

lemma dec_val_append_div:
  "real (dec_val (xs @ ys)) / 10 ^ length ys = real (dec_val xs) + real (dec_val ys) / 10 ^ length ys"
  by (simp add: dec_val_append field_simps)

lemma digits_text_parts:
  assumes "s \<noteq> 0"
  obtains ip fp ep e where "digits_text (nat_to_dec s) n = decimal_parts ip fp ep"
    "ip = [0x30] \<or> (ip \<noteq> [] \<and> 0x31 \<le> hd ip \<and> hd ip \<le> 0x39 \<and> list_all is_dec (tl ip))"
    "list_all is_dec fp" "(ep = [] \<and> e = 0) \<or> ep = exp_text e"
    "decimal_value ip fp e = real s * pow10 (n - int (length (nat_to_dec s)))"
proof -
  define ds where "ds = nat_to_dec s"
  define k where "k = int (length ds)"
  obtain c cs where c: "ds = c # cs" "0x31 \<le> c" "c \<le> 0x39" "list_all is_dec cs"
    using nat_to_dec_digit_lead [OF assms] unfolding ds_def by blast
  have dds: "list_all is_dec ds" unfolding ds_def by (rule nat_to_dec_digits)
  have sv: "dec_val ds = s" unfolding ds_def by (rule dec_val_nat_to_dec)
  have z: "list_all is_dec (replicate j 0x30)" for j by (simp add: is_dec_def list_all_iff)
  show ?thesis
  proof (cases "k \<le> n \<and> n \<le> 21")
    case A: True
    define ip where "ip = ds @ replicate (nat (n - k)) 0x30"
    have "digits_text ds n = decimal_parts ip [] []"
      using A by (simp add: digits_text_def decimal_parts_def ip_def k_def)
    moreover have "decimal_value ip [] 0 = real s * pow10 (n - k)"
    proof -
      have "n - k = int (nat (n - k))" using A by simp
      then have "pow10 (n - k) = 10 ^ nat (n - k)" by (metis pow10_int)
      then show ?thesis
        by (simp add: decimal_value_def ip_def dec_val_append dec_val_zeros dec_val_Nil pow10_def sv)
    qed
    ultimately show ?thesis
      using that [of ip "[]" "[]" 0] c z by (auto simp: ip_def ds_def k_def)
  next
    case notA: False
    show ?thesis
    proof (cases "0 < n \<and> n \<le> 21")
      case B: True
      then have nk: "nat n < length ds" using notA nat_less_iff [of n "length ds"] by (simp add: k_def)
      define ip where "ip = take (nat n) ds"
      define fp where "fp = drop (nat n) ds"
      have fp: "fp \<noteq> []" "length fp = length ds - nat n" using nk by (simp_all add: fp_def)
      have "digits_text ds n = decimal_parts ip fp []"
        using B notA fp by (simp add: digits_text_def decimal_parts_def ip_def fp_def k_def)
      moreover have "decimal_value ip fp 0 = real s * pow10 (n - k)"
      proof -
        have "n - k = - int (length ds - nat n)" using B nk by (simp add: k_def)
        then have "pow10 (n - k) = 1 / 10 ^ length fp" using fp by (simp add: pow10_neg)
        moreover have "real (dec_val ds) / 10 ^ length fp = real (dec_val ip) + real (dec_val fp) / 10 ^ length fp"
          using dec_val_append_div [of ip fp] by (simp add: ip_def fp_def)
        ultimately show ?thesis by (simp add: decimal_value_def pow10_def sv)
      qed
      moreover have "ip \<noteq> [] \<and> 0x31 \<le> hd ip \<and> hd ip \<le> 0x39 \<and> list_all is_dec (tl ip)"
        using B c by (simp add: ip_def take_Cons' list_all_iff) (meson in_set_takeD)
      moreover have "list_all is_dec fp" using dds by (simp add: fp_def list_all_iff in_set_dropD)
      ultimately show ?thesis using that [of ip fp "[]" 0] by (simp add: ds_def k_def)
    next
      case notB: False
      show ?thesis
      proof (cases "- 6 < n \<and> n \<le> 0")
        case C: True
        define fp where "fp = replicate (nat (- n)) 0x30 @ ds"
        have "digits_text ds n = decimal_parts [0x30] fp []"
          using C notA notB c by (simp add: digits_text_def decimal_parts_def fp_def k_def)
        moreover have "decimal_value [0x30] fp 0 = real s * pow10 (n - k)"
        proof -
          have "n - k = - int (length fp)" using C by (simp add: fp_def k_def)
          then have "pow10 (n - k) = 1 / 10 ^ length fp" by (simp add: pow10_neg)
          moreover have "dec_val fp = s" by (simp add: fp_def dec_val_append dec_val_zeros sv)
          ultimately show ?thesis by (simp add: decimal_value_def pow10_def dec_val_def)
        qed
        moreover have "list_all is_dec fp" using dds z by (simp add: fp_def)
        ultimately show ?thesis using that [of "[0x30]" fp "[]" 0] by (simp add: ds_def k_def)
      next
        case notC: False
        have c1: "\<not> (int (length ds) \<le> n \<and> n \<le> 21)" using notA by (simp add: k_def)
        have "digits_text ds n = (if int (length ds) = 1 then ds else hd ds # 0x2E # tl ds) @ exp_text (n - 1)"
          unfolding digits_text_def Let_def by (simp only: if_not_P [OF c1] if_not_P [OF notB] if_not_P [OF notC])
        then have "digits_text ds n = decimal_parts [c] cs (exp_text (n - 1))"
          using c by (cases cs) (simp_all add: decimal_parts_def)
        moreover have "decimal_value [c] cs (n - 1) = real s * pow10 (n - k)"
        proof -
          have "n - k = (n - 1) + - int (length cs)" using c by (simp add: k_def)
          then have "pow10 (n - k) = pow10 (n - 1) * pow10 (- int (length cs))"
            by (simp only: pow10_add [symmetric])
          then have "pow10 (n - k) = pow10 (n - 1) / 10 ^ length cs" by (simp add: pow10_neg)
          moreover have "real (dec_val [c]) + real (dec_val cs) / 10 ^ length cs = real s / 10 ^ length cs"
            using dec_val_append_div [of "[c]" cs] c sv by simp
          ultimately show ?thesis unfolding decimal_value_def by simp
        qed
        ultimately show ?thesis using that [of "[c]" cs "exp_text (n - 1)" "n - 1"] c by (simp add: ds_def k_def)
      qed
    qed
  qed
qed


subsection \<open>Printed numbers read back\<close>

lemma number_to_string_parts:
  assumes "number_to_string x = Some t"
  obtains sg ip fp ep e where "t = sg @ decimal_parts ip fp ep" "sg = [] \<or> sg = [0x2D]"
    "ip = [0x30] \<or> (ip \<noteq> [] \<and> 0x31 \<le> hd ip \<and> hd ip \<le> 0x39 \<and> list_all is_dec (tl ip))"
    "list_all is_dec fp" "(ep = [] \<and> e = 0) \<or> ep = exp_text e"
    "(if sg = [] then 1 else - 1) * decimal_value ip fp e = x"
proof (cases "x = 0")
  case True
  then have "t = [] @ decimal_parts [0x30] [] []" using assms by (simp add: number_to_string_def decimal_parts_def)
  moreover have "decimal_value [0x30] [] 0 = 0" by (simp add: decimal_value_def dec_val_def)
  ultimately show ?thesis using that [of "[]" "[0x30]" "[]" "[]" 0] True by simp
next
  case False
  then obtain ds n where d: "decimal_digits \<bar>x\<bar> = Some (ds, n)"
    and t: "t = (if x < 0 then [0x2D] else []) @ digits_text ds n"
    using assms by (auto simp: number_to_string_def split: option.splits if_splits)
  obtain s where s: "s \<noteq> 0" "ds = nat_to_dec s" "\<bar>x\<bar> = real s * pow10 (n - int (length ds))"
    using decimal_digits_value [OF _ d] False by auto
  obtain ip fp ep e where p: "digits_text (nat_to_dec s) n = decimal_parts ip fp ep"
    "ip = [0x30] \<or> (ip \<noteq> [] \<and> 0x31 \<le> hd ip \<and> hd ip \<le> 0x39 \<and> list_all is_dec (tl ip))"
    "list_all is_dec fp" "(ep = [] \<and> e = 0) \<or> ep = exp_text e"
    "decimal_value ip fp e = real s * pow10 (n - int (length (nat_to_dec s)))"
    using digits_text_parts [OF s(1)] by blast
  have "(if x < 0 then [0x2D] else [] :: js_string) = [] \<longleftrightarrow> 0 \<le> x" by simp
  then have "(if (if x < 0 then [0x2D] else [] :: js_string) = [] then 1 else - 1) * decimal_value ip fp e = x"
    using p(5) s by (auto simp: abs_if split: if_splits)
  then show ?thesis using that [of "if x < 0 then [0x2D] else []" ip fp ep e] t s(2) p by auto
qed

lemma parse_number_to_string:
  "number_to_string x = Some t \<Longrightarrow> json_follow r \<Longrightarrow> parse_json_number (t @ r) = Some (JNum x, r)"
  by (erule number_to_string_parts) (simp add: parse_decimal_text)

lemma number_to_string_hd:
  assumes "number_to_string x = Some t"
  shows "\<exists>c cs. t = c # cs \<and> (c = 0x2D \<or> is_dec c)"
proof -
  obtain sg ip fp ep where "t = sg @ decimal_parts ip fp ep" "sg = [] \<or> sg = [0x2D]"
    "ip = [0x30] \<or> (ip \<noteq> [] \<and> 0x31 \<le> hd ip \<and> hd ip \<le> 0x39 \<and> list_all is_dec (tl ip))"
    using assms by (rule number_to_string_parts)
  then show ?thesis by (cases ip) (auto simp: decimal_parts_def is_dec_def word_le_nat_alt)
qed


subsection \<open>Values the seed data prints\<close>

lemma number_to_string_digit:
  assumes "0 < n" "n < 10"
  shows "number_to_string (real n) = Some [dec_digit n]"
proof -
  have "dec_scale (real n) = Some 0" by (simp add: dec_scale_def)
  moreover have "dec_strip n = (n, 0)" using assms by simp
  moreover have "nat_to_dec n = [dec_digit n]" using assms by (simp add: nat_to_dec.simps)
  moreover have "real n \<le> 179769313486231 * 10 ^ 294" using assms by simp
  ultimately show ?thesis
    using assms by (simp add: number_to_string_def decimal_digits_def digits_text_def)
qed

lemma number_to_string_17_2: "number_to_string (17 / 2) = Some (js_str ''8.5'')"
proof -
  have "\<lfloor>(17 / 2 :: real)\<rfloor> = 8" by (simp add: floor_eq_iff)
  then have "dec_scale (17 / 2) = Some 1" by (simp add: dec_scale_def)
  then show ?thesis
    by (simp add: number_to_string_def decimal_digits_def digits_text_def nat_to_dec.simps dec_digit_def
        js_str_def)
qed

lemma number_to_string_12: "number_to_string 12 = Some (js_str ''12'')"
  by (simp add: number_to_string_def decimal_digits_def dec_scale_def digits_text_def nat_to_dec.simps
      dec_digit_def js_str_def)

end
