(* ===== verification/JsonPrint.thy ===== *)
theory JsonPrint
  imports NumberText "HOL-Library.AList"
begin

text \<open>
  The text of a response: \<open>res.json(x)\<close> in the routers of \<open>src/routes/\<close> and in the
  404 handler of \<open>src/app.js\<close> sends \<open>JSON.stringify(x)\<close>. \<open>json_stringify\<close> models
  \<open>JSON.stringify\<close> on the values the handlers build (ECMAScript SerializeJSONProperty,
  QuoteJSONString, SerializeJSONObject, SerializeJSONArray): strings are quoted with the
  short escapes, \<open>\u\<close> and four lower-case hex digits for the other control characters
  and for unpaired surrogates; object keys come out in the order of OrdinaryOwnPropertyKeys
  (integer-index keys ascending, then the other keys in order of first creation, one entry
  per key with the last value); numbers are printed by \<open>Number::toString\<close>
  (\<open>number_to_string\<close> of \<open>NumberText\<close>, \<open>None\<close> outside the values it covers).
  The main lemma is the round trip with the \<open>JSON.parse\<close> of \<open>JsonText\<close>: parsing what
  was printed gives the value back, with its objects in that key order (\<open>json_norm\<close>).
\<close>

subsection \<open>QuoteJSONString\<close>

definition hex_digit :: "nat \<Rightarrow> 16 word" where
  "hex_digit d = (if d < 10 then of_nat (48 + d) else of_nat (87 + d))"

definition hex4 :: "16 word \<Rightarrow> js_string" where
  "hex4 c = map (\<lambda>i. hex_digit (unat c div 16 ^ i mod 16)) [3, 2, 1, 0]"

definition is_lead_surrogate :: "16 word \<Rightarrow> bool" where
  "is_lead_surrogate c \<longleftrightarrow> 0xD800 \<le> c \<and> c \<le> 0xDBFF"

definition is_trail_surrogate :: "16 word \<Rightarrow> bool" where
  "is_trail_surrogate c \<longleftrightarrow> 0xDC00 \<le> c \<and> c \<le> 0xDFFF"

definition json_escape_unit :: "16 word \<Rightarrow> js_string" where
  "json_escape_unit c =
    (if c = 0x08 then [0x5C, 0x62] else if c = 0x09 then [0x5C, 0x74]
     else if c = 0x0A then [0x5C, 0x6E] else if c = 0x0C then [0x5C, 0x66]
     else if c = 0x0D then [0x5C, 0x72] else if c = 0x22 then [0x5C, 0x22]
     else if c = 0x5C then [0x5C, 0x5C]
     else if c < 0x20 \<or> is_lead_surrogate c \<or> is_trail_surrogate c then [0x5C, 0x75] @ hex4 c
     else [c])"

fun json_quote_units :: "js_string \<Rightarrow> js_string" where
  "json_quote_units [] = []"
| "json_quote_units (c # cs) =
     (if is_lead_surrogate c \<and> cs \<noteq> [] \<and> is_trail_surrogate (hd cs)
      then c # hd cs # json_quote_units (tl cs)
      else json_escape_unit c @ json_quote_units cs)"

definition json_quote :: "js_string \<Rightarrow> js_string" where
  "json_quote s = [0x22] @ json_quote_units s @ [0x22]"

subsection \<open>SerializeJSONObject and SerializeJSONArray\<close>

text \<open>An array index: the canonical decimal form of an integer below \<open>2 ^ 32 - 1\<close>.\<close>

definition is_array_index :: "js_string \<Rightarrow> bool" where
  "is_array_index k \<longleftrightarrow>
     k \<noteq> [] \<and> list_all is_dec k \<and> (k = [0x30] \<or> hd k \<noteq> 0x30) \<and> dec_val k < 2 ^ 32 - 1"

text \<open>The own enumerable properties of an object literal built from \<open>kvs\<close>, in
  OrdinaryOwnPropertyKeys order.\<close>

definition own_entries :: "(js_string \<times> json) list \<Rightarrow> (js_string \<times> json) list" where
  "own_entries kvs =
    (let al = fold (\<lambda>(k, v). AList.update k v) kvs []
     in sort_key (\<lambda>(k, v). dec_val k) (filter (\<lambda>(k, v). is_array_index k) al) @
        filter (\<lambda>(k, v). \<not> is_array_index k) al)"

fun join_comma :: "js_string list \<Rightarrow> js_string" where
  "join_comma [] = []"
| "join_comma [t] = t"
| "join_comma (t # ts) = t @ 0x2C # join_comma ts"

lemma set_fold_update: "set (fold (\<lambda>(k, v). AList.update k v) kvs al) \<subseteq> set al \<union> set kvs"
proof (induction kvs arbitrary: al)
  case Nil
  then show ?case by simp
next
  case (Cons kv kvs)
  obtain k v where kv: "kv = (k, v)" by (cases kv)
  have "set (AList.update k v al) \<subseteq> insert (k, v) (set al)" by (induction al) auto
  with Cons.IH [of "AList.update k v al"] kv show ?case by auto
qed

lemma own_entries_subset: "set (own_entries kvs) \<subseteq> set kvs"
  using set_fold_update [of kvs "[]"] by (auto simp: own_entries_def Let_def)

text \<open>\<open>JSON.stringify\<close> with no replacer and no indentation.\<close>

function json_stringify :: "json \<Rightarrow> js_string option" where
  "json_stringify JNull = Some (js_str ''null'')"
| "json_stringify (JBool b) = Some (if b then js_str ''true'' else js_str ''false'')"
| "json_stringify (JNum r) = number_to_string r"
| "json_stringify (JStr s) = Some (json_quote s)"
| "json_stringify (JArr xs) =
     map_option (\<lambda>ts. [0x5B] @ join_comma ts @ [0x5D]) (those (map json_stringify xs))"
| "json_stringify (JObj kvs) =
     map_option (\<lambda>ts. [0x7B] @ join_comma ts @ [0x7D])
       (those (map (\<lambda>(k, v). map_option (\<lambda>t. json_quote k @ [0x3A] @ t) (json_stringify v))
                   (own_entries kvs)))"
  by pat_completeness auto
termination
proof (relation "measure size")
  fix kvs :: "(js_string \<times> json) list" and kv k v
  assume "kv \<in> set (own_entries kvs)" "(k, v) = kv"
  then have "(k, v) \<in> set kvs" using own_entries_subset by blast
  then show "(v, JObj kvs) \<in> measure size"
    by (auto dest: size_list_estimation' [where f = "size_prod (\<lambda>_. 0) size", OF _ order_refl])
qed (auto dest: size_list_estimation' [where f = size, OF _ order_refl])

text \<open>The value \<open>JSON.parse\<close> gives back for a printed value: every object in
  property order, one entry per key.\<close>

function json_norm :: "json \<Rightarrow> json" where
  "json_norm (JArr xs) = JArr (map json_norm xs)"
| "json_norm (JObj kvs) = JObj (map (\<lambda>(k, v). (k, json_norm v)) (own_entries kvs))"
| "json_norm JNull = JNull"
| "json_norm (JBool b) = JBool b"
| "json_norm (JNum r) = JNum r"
| "json_norm (JStr s) = JStr s"
  by pat_completeness auto
termination
proof (relation "measure size")
  fix kvs :: "(js_string \<times> json) list" and x k v
  assume "x \<in> set (own_entries kvs)" "(k, v) = x"
  then have "(k, v) \<in> set kvs" using own_entries_subset by blast
  then show "(v, JObj kvs) \<in> measure size"
    by (auto dest: size_list_estimation' [where f = "size_prod (\<lambda>_. 0) size", OF _ order_refl])
qed (auto dest: size_list_estimation' [where f = size, OF _ order_refl])

abbreviation json_member_text :: "js_string \<times> json \<Rightarrow> js_string option" where
  "json_member_text \<equiv> \<lambda>(k, v). map_option (\<lambda>t. json_quote k @ [0x3A] @ t) (json_stringify v)"

subsection \<open>Strings read back\<close>

lemma unat_hex_digit: "d < 16 \<Longrightarrow> unat (hex_digit d) = (if d < 10 then 48 + d else 87 + d)"
  unfolding hex_digit_def by (simp only: if_distrib [of unat] unat_of_nat) simp

lemma digit_val_hex_digit:
  assumes "d < 16"
  shows "digit_val 16 (hex_digit d) = Some d"
proof (cases "d < 10")
  case True
  then have "0x30 \<le> hex_digit d \<and> hex_digit d \<le> 0x39"
    using unat_hex_digit [OF assms] by (simp add: word_le_nat_alt)
  then show ?thesis using True unat_hex_digit [OF assms] by (simp add: digit_val_def)
next
  case False
  then have "\<not> hex_digit d \<le> 0x39" "0x61 \<le> hex_digit d \<and> hex_digit d \<le> 0x7A"
    using unat_hex_digit [OF assms] assms by (simp_all add: word_le_nat_alt)
  then show ?thesis using False assms unat_hex_digit [OF assms] by (simp add: digit_val_def)
qed

lemma hex4_value:
  fixes n :: nat
  assumes "n < 65536"
  shows "((n div 4096 mod 16 * 16 + n div 256 mod 16) * 16 + n div 16 mod 16) * 16 + n mod 16 = n"
proof -
  have a: "n div 4096 mod 16 = n div 4096" using assms by simp
  have b: "n div 4096 = n div 256 div 16" "n div 256 = n div 16 div 16"
    by (simp_all add: div_mult2_eq [symmetric])
  show ?thesis unfolding a unfolding b by (simp only: div_mult_mod_eq)
qed

lemma parse_digits_hex4: "parse_digits 16 (hex4 c) = Some (unat c)"
proof -
  have u: "unat c < 65536" using unsigned_less [of c] by simp
  have "parse_digits 16 (hex4 c) = Some (((unat c div 4096 mod 16 * 16 + unat c div 256 mod 16) * 16 +
     unat c div 16 mod 16) * 16 + unat c mod 16)"
    by (simp add: parse_digits_def hex4_def digit_val_hex_digit)
  then show ?thesis unfolding hex4_value [OF u] .
qed


lemma length_hex4 [simp]: "length (hex4 c) = 4"
  by (simp add: hex4_def)

lemma surrogate_plain:
  "is_lead_surrogate c \<or> is_trail_surrogate c \<Longrightarrow> c \<noteq> 0x22 \<and> c \<noteq> 0x5C \<and> \<not> c < 0x20"
  by (auto simp: is_lead_surrogate_def is_trail_surrogate_def word_le_nat_alt word_less_nat_alt)

lemma parse_escape_unit:
  "parse_json_chars acc (json_escape_unit c @ r) = parse_json_chars (c # acc) r"
proof -
  have u: "parse_json_chars acc ([0x5C, 0x75] @ hex4 c @ r) = parse_json_chars (c # acc) r"
    by (simp add: parse_digits_hex4)
  show ?thesis
    using u surrogate_plain [of c]
    by (simp add: json_escape_unit_def json_escape_def)
qed

lemma parse_quote_units: "parse_json_chars acc (json_quote_units s @ 0x22 # r) = Some (rev acc @ s, r)"
proof (induction s arbitrary: acc rule: json_quote_units.induct)
  case 1
  then show ?case by simp
next
  case (2 c cs)
  then show ?case
    using surrogate_plain [of c] surrogate_plain [of "hd cs"]
    by (cases cs) (auto simp: parse_escape_unit)
qed

subsection \<open>Fuel\<close>

lemma parse_value_more:
  "parse_value n s = Parsed x \<Longrightarrow> n \<le> m \<Longrightarrow> parse_value m s = Parsed x"
  using parse_mono [where n = n and m = m and s = s] by simp

lemma parse_elems_more:
  "parse_elems n acc s = Parsed x \<Longrightarrow> n \<le> m \<Longrightarrow> parse_elems m acc s = Parsed x"
  using parse_mono [where n = n and m = m and s = s and acc = acc] by simp

lemma parse_members_more:
  "parse_members n acc s = Parsed x \<Longrightarrow> n \<le> m \<Longrightarrow> parse_members m acc s = Parsed x"
  using parse_mono [where n = n and m = m and s = s and acc' = acc] by simp

lemma parse_value_json_fuel:
  assumes "parse_value n s = Parsed x"
  shows "parse_value (json_fuel s) s = Parsed x"
proof -
  have "parse_value (json_fuel s) s \<noteq> OutOfFuel"
    using parse_fuel [of s "json_fuel s"] by (simp add: json_fuel_def)
  then have "parse_value (max n (json_fuel s)) s = parse_value (json_fuel s) s"
    using parse_mono [where n = "json_fuel s" and m = "max n (json_fuel s)" and s = s] by simp
  moreover have "parse_value (max n (json_fuel s)) s = Parsed x"
    using parse_value_more [OF assms] by simp
  ultimately show ?thesis by simp
qed

subsection \<open>The first character of a printed value\<close>

lemma json_stringify_hd:
  "json_stringify v = Some t \<Longrightarrow>
     \<exists>c cs. t = c # cs \<and> \<not> is_json_ws c \<and> c \<noteq> 0x5D \<and> c \<noteq> 0x7D"
proof (cases v)
  case (JNum x)
  then show "json_stringify v = Some t \<Longrightarrow> ?thesis"
    by (auto simp: is_json_ws_def is_dec_def dest!: number_to_string_hd)
qed (auto simp: js_str_def is_json_ws_def json_quote_def)


subsection \<open>Printed values read back\<close>

lemma join_comma_Cons: "ts \<noteq> [] \<Longrightarrow> join_comma (t # ts) = t @ 0x2C # join_comma ts"
  by (cases ts) simp_all

lemma those_Cons_Some:
  "those (y # ys) = Some ts \<Longrightarrow> \<exists>t ts'. y = Some t \<and> those ys = Some ts' \<and> ts = t # ts'"
  by (auto split: option.splits)

lemma parse_elems_step:
  assumes "parse_value n (t @ c # r) = Parsed (x, c # r)" "c = 0x2C \<or> c = 0x5D"
  shows "parse_elems (Suc n) acc (t @ c # r) =
           (if c = 0x2C then parse_elems n (acc @ [x]) r else Parsed (acc @ [x], r))"
  using assms by (auto simp: skip_ws_def is_json_ws_def)

lemma parse_members_step:
  assumes "parse_value n (t @ c # r) = Parsed (x, c # r)" "c = 0x2C \<or> c = 0x7D"
  shows "parse_members (Suc n) acc (json_quote k @ [0x3A] @ t @ c # r) =
           (if c = 0x2C then parse_members n (acc @ [(k, x)]) r else Parsed (acc @ [(k, x)], r))"
proof -
  have "parse_json_chars [] (json_quote_units k @ 0x22 # 0x3A # t @ c # r) = Some (k, 0x3A # t @ c # r)"
    using parse_quote_units [of "[]" k] by simp
  then show ?thesis
    using assms by (auto simp: json_quote_def skip_ws_def is_json_ws_def)
qed

lemma parse_elems_join:
  assumes "those (map json_stringify xs) = Some ts" "xs \<noteq> []"
    and "\<And>x t r. x \<in> set xs \<Longrightarrow> json_stringify x = Some t \<Longrightarrow> json_follow r \<Longrightarrow>
           \<exists>n. parse_value n (t @ r) = Parsed (json_norm x, r)"
  shows "\<exists>n. parse_elems n acc (join_comma ts @ 0x5D # r) = Parsed (acc @ map json_norm xs, r)"
  using assms
proof (induction xs arbitrary: ts acc)
  case Nil
  then show ?case by simp
next
  case (Cons x xs)
  obtain t ts' where t: "json_stringify x = Some t" and ts': "those (map json_stringify xs) = Some ts'"
    and ts: "ts = t # ts'"
    using those_Cons_Some [OF Cons.prems(1) [unfolded list.map]] by blast
  show ?case
  proof (cases "xs = []")
    case True
    then have "ts' = []" using ts' by simp
    obtain n where "parse_value n (t @ 0x5D # r) = Parsed (json_norm x, 0x5D # r)"
      using Cons.prems(3) [of x t "0x5D # r"] t by (auto simp: json_follow_def)
    then have "parse_elems (Suc n) acc (t @ 0x5D # r) = Parsed (acc @ [json_norm x], r)"
      using parse_elems_step [where acc = acc] by simp
    then show ?thesis using True ts \<open>ts' = []\<close> by (auto simp del: parse_elems.simps)
  next
    case False
    then have ne: "ts' \<noteq> []" using ts' by (cases xs) (auto split: option.splits)
    obtain n1 where n1: "parse_value n1 (t @ 0x2C # join_comma ts' @ 0x5D # r) =
                           Parsed (json_norm x, 0x2C # join_comma ts' @ 0x5D # r)"
      using Cons.prems(3) [of x t "0x2C # join_comma ts' @ 0x5D # r"] t by (auto simp: json_follow_def)
    obtain n2 where n2: "parse_elems n2 (acc @ [json_norm x]) (join_comma ts' @ 0x5D # r) =
                           Parsed (acc @ [json_norm x] @ map json_norm xs, r)"
      using Cons.IH [OF ts' False] Cons.prems(3) by (metis list.set_intros(2) append.assoc)
    define N where "N = max n1 n2"
    have "parse_elems (Suc N) acc (t @ 0x2C # join_comma ts' @ 0x5D # r) =
            parse_elems N (acc @ [json_norm x]) (join_comma ts' @ 0x5D # r)"
      using parse_elems_step [OF parse_value_more [OF n1, of N], where acc = acc] by (simp add: N_def)
    also have "\<dots> = Parsed (acc @ [json_norm x] @ map json_norm xs, r)"
      using parse_elems_more [OF n2, of N] by (simp add: N_def)
    finally show ?thesis using ts ne by (auto simp: join_comma_Cons simp del: parse_elems.simps)
  qed
qed


lemma parse_members_join:
  assumes "those (map json_member_text es) = Some ts" "es \<noteq> []"
    and "\<And>k v t r. (k, v) \<in> set es \<Longrightarrow> json_stringify v = Some t \<Longrightarrow> json_follow r \<Longrightarrow>
           \<exists>n. parse_value n (t @ r) = Parsed (json_norm v, r)"
  shows "\<exists>n. parse_members n acc (join_comma ts @ 0x7D # r) =
               Parsed (acc @ map (\<lambda>(k, v). (k, json_norm v)) es, r)"
  using assms
proof (induction es arbitrary: ts acc)
  case Nil
  then show ?case by simp
next
  case (Cons e es)
  obtain k v where e: "e = (k, v)" by (cases e)
  obtain m ts' where m: "json_member_text e = Some m" and ts': "those (map json_member_text es) = Some ts'"
    and ts: "ts = m # ts'"
    using those_Cons_Some [OF Cons.prems(1) [unfolded list.map]] by blast
  obtain t where t: "json_stringify v = Some t" and mt: "m = json_quote k @ [0x3A] @ t"
    using m e by auto
  have IHv: "\<And>r. json_follow r \<Longrightarrow> \<exists>n. parse_value n (t @ r) = Parsed (json_norm v, r)"
    using Cons.prems(3) [of k v t] e t by simp
  show ?case
  proof (cases "es = []")
    case True
    then have "ts' = []" using ts' by simp
    obtain n where "parse_value n (t @ 0x7D # r) = Parsed (json_norm v, 0x7D # r)"
      using IHv [of "0x7D # r"] by (auto simp: json_follow_def)
    then have "parse_members (Suc n) acc (m @ 0x7D # r) = Parsed (acc @ [(k, json_norm v)], r)"
      using parse_members_step [where acc = acc and k = k] mt by simp
    then show ?thesis using True ts e \<open>ts' = []\<close> by (auto simp del: parse_members.simps)
  next
    case False
    then have ne: "ts' \<noteq> []" using ts' by (cases es) (auto split: option.splits)
    obtain n1 where n1: "parse_value n1 (t @ 0x2C # join_comma ts' @ 0x7D # r) =
                           Parsed (json_norm v, 0x2C # join_comma ts' @ 0x7D # r)"
      using IHv [of "0x2C # join_comma ts' @ 0x7D # r"] by (auto simp: json_follow_def)
    obtain n2 where n2: "parse_members n2 (acc @ [(k, json_norm v)]) (join_comma ts' @ 0x7D # r) =
                    Parsed (acc @ [(k, json_norm v)] @ map (\<lambda>(k, v). (k, json_norm v)) es, r)"
      using Cons.IH [OF ts' False] Cons.prems(3) by (metis list.set_intros(2) append.assoc)
    define N where "N = max n1 n2"
    have "parse_members (Suc N) acc (m @ 0x2C # join_comma ts' @ 0x7D # r) =
            parse_members N (acc @ [(k, json_norm v)]) (join_comma ts' @ 0x7D # r)"
      using parse_members_step [OF parse_value_more [OF n1, of N], where acc = acc and k = k] mt
      by (simp add: N_def)
    also have "\<dots> = Parsed (acc @ [(k, json_norm v)] @ map (\<lambda>(k, v). (k, json_norm v)) es, r)"
      using parse_members_more [OF n2, of N] by (simp add: N_def)
    finally show ?thesis using ts ne e by (auto simp: join_comma_Cons simp del: parse_members.simps)
  qed
qed


lemma join_comma_Cons_prefix: "\<exists>rest. join_comma (t # ts) = t @ rest"
  by (cases ts) auto

lemma elems_text_hd:
  assumes "those (map json_stringify xs) = Some ts" "xs \<noteq> []"
  shows "\<exists>c cs. join_comma ts @ r = c # cs \<and> \<not> is_json_ws c \<and> c \<noteq> 0x5D"
proof -
  obtain x xs' where xs: "xs = x # xs'" using assms(2) by (cases xs) auto
  obtain t ts' where "json_stringify x = Some t" "ts = t # ts'"
    using those_Cons_Some [OF assms(1) [unfolded xs list.map]] by blast
  then show ?thesis using json_stringify_hd [of x t] join_comma_Cons_prefix [of t ts'] by auto
qed

lemma members_text_hd:
  assumes "those (map json_member_text es) = Some ts" "es \<noteq> []"
  shows "\<exists>cs. join_comma ts @ r = 0x22 # cs"
proof -
  obtain e es' where es: "es = e # es'" using assms(2) by (cases es) auto
  obtain m ts' where "json_member_text e = Some m" "ts = m # ts'"
    using those_Cons_Some [OF assms(1) [unfolded es list.map]] by blast
  then show ?thesis using join_comma_Cons_prefix [of m ts'] by (cases e) (auto simp: json_quote_def)
qed

lemma parse_null: "parse_value (Suc n) (js_str ''null'' @ r) = Parsed (JNull, r)"
  by (simp add: js_str_def skip_ws_def is_json_ws_def literal_rest_def)
lemma parse_true: "parse_value (Suc n) (js_str ''true'' @ r) = Parsed (JBool True, r)"
  by (simp add: js_str_def skip_ws_def is_json_ws_def literal_rest_def)
lemma parse_false: "parse_value (Suc n) (js_str ''false'' @ r) = Parsed (JBool False, r)"
  by (simp add: js_str_def skip_ws_def is_json_ws_def literal_rest_def)

lemma literal_rest_Cons_None: "w \<noteq> [] \<Longrightarrow> c \<noteq> hd w \<Longrightarrow> literal_rest w (c # s) = None"
  by (cases w) (simp_all add: literal_rest_def)
lemma parse_num:
  assumes "number_to_string x = Some t" "json_follow r"
  shows "parse_value (Suc n) (t @ r) = Parsed (JNum x, r)"
proof -
  obtain c cs where t: "t = c # cs" and c: "c = 0x2D \<or> is_dec c"
    using number_to_string_hd [OF assms(1)] by blast
  have c': "\<not> is_json_ws c" "c \<noteq> 0x7B" "c \<noteq> 0x5B" "c \<noteq> 0x22" "c \<noteq> 0x74" "c \<noteq> 0x66" "c \<noteq> 0x6E"
    using c by (auto simp: is_dec_def is_json_ws_def)
  have "parse_json_number (t @ r) = Some (JNum x, r)"
    using parse_number_to_string assms by simp
  then show ?thesis using t c'
    by (simp add: skip_ws_def literal_rest_Cons_None js_str_def)
qed
lemma parse_str: "parse_value (Suc n) (json_quote s @ r) = Parsed (JStr s, r)"
  using parse_quote_units [of "[]" s r] by (simp add: json_quote_def skip_ws_def is_json_ws_def)

lemma parse_arr_open:
  assumes "parse_elems n [] s = Parsed (xs, r)" "s = c # cs" "\<not> is_json_ws c" "c \<noteq> 0x5D"
  shows "parse_value (Suc n) (0x5B # s) = Parsed (JArr xs, r)"
  using assms by (simp add: skip_ws_def is_json_ws_def)

lemma parse_obj_open:
  assumes "parse_members n [] s = Parsed (kvs, r)" "s = 0x22 # cs"
  shows "parse_value (Suc n) (0x7B # s) = Parsed (JObj kvs, r)"
  using assms by (simp add: skip_ws_def is_json_ws_def)

lemma parse_empty_arr: "parse_value (Suc n) (0x5B # 0x5D # r) = Parsed (JArr [], r)"
  by (simp add: skip_ws_def is_json_ws_def)

lemma parse_empty_obj: "parse_value (Suc n) (0x7B # 0x7D # r) = Parsed (JObj [], r)"
  by (simp add: skip_ws_def is_json_ws_def)

lemma parse_stringify:
  "json_stringify v = Some t \<Longrightarrow> json_follow r \<Longrightarrow> \<exists>n. parse_value n (t @ r) = Parsed (json_norm v, r)"
proof (induction v arbitrary: t r rule: json_stringify.induct)
  case 1
  then have "t = js_str ''null''" by simp
  then show ?case using parse_null [of 0 r] by (auto simp del: parse_value.simps)
next
  case (2 b)
  then have "t = (if b then js_str ''true'' else js_str ''false'')" by simp
  then show ?case using parse_true [of 0 r] parse_false [of 0 r] by (cases b) (auto simp del: parse_value.simps)
next
  case (3 x)
  then show ?case using parse_num [of x t r 0] by (auto simp del: parse_value.simps)
next
  case (4 s)
  then have "t = json_quote s" by simp
  then show ?case using parse_str [of 0 s r] by (auto simp del: parse_value.simps)
next
  case (5 xs)
  then obtain ts where ts: "those (map json_stringify xs) = Some ts"
    and t: "t = [0x5B] @ join_comma ts @ [0x5D]" by auto
  show ?case
  proof (cases "xs = []")
    case True
    then show ?thesis using ts t parse_empty_arr [of 0 r] by (auto simp del: parse_value.simps)
  next
    case False
    obtain n where n: "parse_elems n [] (join_comma ts @ 0x5D # r) = Parsed (map json_norm xs, r)"
      using parse_elems_join [OF ts False, of "[]" r] "5.IH" by auto
    obtain c cs where "join_comma ts @ 0x5D # r = c # cs" "\<not> is_json_ws c" "c \<noteq> 0x5D"
      using elems_text_hd [OF ts False] by blast
    then have "parse_value (Suc n) (t @ r) = Parsed (json_norm (JArr xs), r)"
      using parse_arr_open [OF n] t by (simp del: parse_value.simps)
    then show ?thesis ..
  qed
next
  case (6 kvs)
  then obtain ts where ts: "those (map json_member_text (own_entries kvs)) = Some ts"
    and t: "t = [0x7B] @ join_comma ts @ [0x7D]" by auto
  show ?case
  proof (cases "own_entries kvs = []")
    case True
    then show ?thesis using ts t parse_empty_obj [of 0 r] by (auto simp del: parse_value.simps)
  next
    case False
    obtain n where n: "parse_members n [] (join_comma ts @ 0x7D # r) =
                         Parsed (map (\<lambda>(k, v). (k, json_norm v)) (own_entries kvs), r)"
      using parse_members_join [OF ts False, of "[]" r] "6.IH" by auto
    obtain cs where "join_comma ts @ 0x7D # r = 0x22 # cs"
      using members_text_hd [OF ts False] by blast
    then have "parse_value (Suc n) (t @ r) = Parsed (json_norm (JObj kvs), r)"
      using parse_obj_open [OF n] t by (simp del: parse_value.simps)
    then show ?thesis ..
  qed
qed


subsection \<open>The lists as the client reads them\<close>

lemma parse_stringify_fuel:
  assumes "json_stringify v = Some t"
  shows "parse_value (json_fuel t) t = Parsed (json_norm v, [])"
proof -
  obtain n where "parse_value n (t @ []) = Parsed (json_norm v, [])"
    using parse_stringify [OF assms, of "[]"] by (auto simp: json_follow_def)
  then show ?thesis using parse_value_json_fuel by simp
qed

lemma json_norm_menu_item: "json_norm (menu_item_json it) = menu_item_json it"
  by (simp add: menu_item_json_def own_entries_def is_array_index_def js_str_def is_dec_def)

lemma json_norm_cliente: "json_norm (cliente_json c) = cliente_json c"
  by (simp add: cliente_json_def own_entries_def is_array_index_def js_str_def is_dec_def)

lemma those_not_None: "those xs \<noteq> None \<longleftrightarrow> list_all (\<lambda>x. x \<noteq> None) xs"
  by (induction xs) (auto split: option.splits)

lemma json_stringify_JArr_not_None:
  "json_stringify (JArr xs) \<noteq> None \<longleftrightarrow> list_all (\<lambda>x. json_stringify x \<noteq> None) xs"
proof -
  have "json_stringify (JArr xs) \<noteq> None \<longleftrightarrow> those (map json_stringify xs) \<noteq> None" by simp
  then show ?thesis by (simp only: those_not_None list.pred_map comp_def)
qed

lemma json_stringify_menu_item:
  "json_stringify (menu_item_json it) \<noteq> None \<longleftrightarrow>
     number_to_string (real (item_id it)) \<noteq> None \<and> number_to_string (item_preco it) \<noteq> None"
  by (simp add: menu_item_json_def own_entries_def is_array_index_def js_str_def is_dec_def
      split: option.splits)

lemma json_stringify_cliente:
  "json_stringify (cliente_json c) \<noteq> None \<longleftrightarrow> number_to_string (real (cli_id c)) \<noteq> None"
  by (simp add: cliente_json_def own_entries_def is_array_index_def js_str_def is_dec_def
      split: option.splits)

lemma json_stringify_cardapio_init:
  "json_stringify (JArr (map menu_item_json cardapio_init)) =
     Some (js_str ''[{\"id\":1,\"nome\":\"Cachorro-quente\",\"preco\":8.5},{\"id\":2,\"nome\":\"Hamb'' @
           [0xFA] @ js_str ''rguer\",\"preco\":12}]'')"
  using number_to_string_digit [of 1] number_to_string_digit [of 2] number_to_string_17_2 number_to_string_12
  by (simp add: cardapio_init_def menu_item_json_def own_entries_def is_array_index_def is_dec_def
      json_quote_def json_escape_unit_def is_lead_surrogate_def is_trail_surrogate_def js_str_def
      dec_digit_def)

subsection \<open>Properties\<close>

text \<open>
  The round trip of the built-ins (a fact of the model of \<open>JSON.stringify\<close> and
  \<open>JSON.parse\<close>, used by the property below): whenever \<open>JSON.stringify\<close> prints a value,
  parsing the text gives the value again, with each object's entries in property order and
  one entry per key.
\<close>

theorem json_stringify_parse: "json_stringify v = Some t \<Longrightarrow> JSON_parse t = Some (json_norm v)"
  by (drule parse_stringify_fuel) (simp add: JSON_parse_def json_parse_fuel_def skip_ws_def)

text \<open>
  C19: what the client reads is what the application stores: whatever the state, as long
  as its numbers are in the range the model prints, the text of the 200 answer to
  \<open>GET /cardapio\<close> and to \<open>GET /clientes\<close> exists and \<open>JSON.parse\<close> turns it back
  into exactly the stored records, field by field and in order.
\<close>

theorem get_lists_text_roundtrip:
  assumes "list_all (\<lambda>it. number_to_string (real (item_id it)) \<noteq> None \<and>
                           number_to_string (item_preco it) \<noteq> None) (st_cardapio st)"
    and "list_all (\<lambda>c. number_to_string (real (cli_id c)) \<noteq> None) (st_clientes st)"
  shows "(\<exists>t. fst (app_handle \<lparr>req_method = GET, req_url = js_str ''/cardapio'', req_body = NoBody\<rparr> st) =
              JsonResp 200 (JArr (map menu_item_json (st_cardapio st))) \<and>
            json_stringify (JArr (map menu_item_json (st_cardapio st))) = Some t \<and>
            JSON_parse t = Some (JArr (map menu_item_json (st_cardapio st)))) \<and>
         (\<exists>u. fst (app_handle \<lparr>req_method = GET, req_url = js_str ''/clientes'', req_body = NoBody\<rparr> st) =
              JsonResp 200 (JArr (map cliente_json (st_clientes st))) \<and>
            json_stringify (JArr (map cliente_json (st_clientes st))) = Some u \<and>
            JSON_parse u = Some (JArr (map cliente_json (st_clientes st))))"
proof -
  have "json_stringify (JArr (map menu_item_json (st_cardapio st))) \<noteq> None"
    using assms(1) by (simp only: json_stringify_JArr_not_None list.pred_map comp_def json_stringify_menu_item)
  then obtain t where t: "json_stringify (JArr (map menu_item_json (st_cardapio st))) = Some t" by blast
  have "json_stringify (JArr (map cliente_json (st_clientes st))) \<noteq> None"
    using assms(2) by (simp only: json_stringify_JArr_not_None list.pred_map comp_def json_stringify_cliente)
  then obtain u where u: "json_stringify (JArr (map cliente_json (st_clientes st))) = Some u" by blast
  have "JSON_parse t = Some (JArr (map menu_item_json (st_cardapio st)))"
    using parse_stringify_fuel [OF t]
    by (simp add: JSON_parse_def json_parse_fuel_def skip_ws_def json_norm_menu_item comp_def)
  moreover have "JSON_parse u = Some (JArr (map cliente_json (st_clientes st)))"
    using parse_stringify_fuel [OF u]
    by (simp add: JSON_parse_def json_parse_fuel_def skip_ws_def json_norm_cliente comp_def)
  ultimately show ?thesis using t u app_handle_get_cardapio app_handle_get_clientes by blast
qed

theorem get_lists_text_roundtrip_witness:
  "fst (app_handle \<lparr>req_method = GET, req_url = js_str ''/cardapio'', req_body = NoBody\<rparr> app_init) =
     JsonResp 200 (JArr (map menu_item_json cardapio_init)) \<and>
   json_stringify (JArr (map menu_item_json cardapio_init)) =
     Some (js_str ''[{\"id\":1,\"nome\":\"Cachorro-quente\",\"preco\":8.5},{\"id\":2,\"nome\":\"Hamb'' @
           [0xFA] @ js_str ''rguer\",\"preco\":12}]'') \<and>
   JSON_parse (js_str ''[{\"id\":1,\"nome\":\"Cachorro-quente\",\"preco\":8.5},{\"id\":2,\"nome\":\"Hamb'' @
           [0xFA] @ js_str ''rguer\",\"preco\":12}]'') = Some (JArr (map menu_item_json cardapio_init))"
proof -
  have c: "st_cardapio app_init = cardapio_init" "st_clientes app_init = clientes_init"
    by (simp_all add: app_init_def)
  have h1: "list_all (\<lambda>it. number_to_string (real (item_id it)) \<noteq> None \<and>
                      number_to_string (item_preco it) \<noteq> None) (st_cardapio app_init)"
    using number_to_string_digit [of 1] number_to_string_digit [of 2] number_to_string_17_2
      number_to_string_12
    by (simp add: c cardapio_init_def)
  have h2: "list_all (\<lambda>c. number_to_string (real (cli_id c)) \<noteq> None) (st_clientes app_init)"
    using number_to_string_digit [of 1] by (simp add: c clientes_init_def)
  obtain t where "fst (app_handle \<lparr>req_method = GET, req_url = js_str ''/cardapio'', req_body = NoBody\<rparr> app_init) =
              JsonResp 200 (JArr (map menu_item_json cardapio_init))"
      "json_stringify (JArr (map menu_item_json cardapio_init)) = Some t"
      "JSON_parse t = Some (JArr (map menu_item_json cardapio_init))"
    using get_lists_text_roundtrip [OF h1 h2] unfolding c by blast
  moreover from this(2) have "t = js_str ''[{\"id\":1,\"nome\":\"Cachorro-quente\",\"preco\":8.5},{\"id\":2,\"nome\":\"Hamb'' @
           [0xFA] @ js_str ''rguer\",\"preco\":12}]''"
    unfolding json_stringify_cardapio_init by (rule option.inject [THEN iffD1, symmetric])
  ultimately show ?thesis using json_stringify_cardapio_init by (simp only:)
qed

end
