(* ===== verification/Spec2Isabelle.thy ===== *)
theory Spec2Isabelle
  imports App Server Schema JsonPrint
begin

text \<open>
  A verification library for the snack-counter API of this repository ("lanchonete"): an
  Express 4 application (\<open>src/app.js\<close>) that parses JSON bodies, logs every request,
  and mounts three routers, each holding one in-memory array: the menu
  (\<open>src/routes/cardapio.js\<close>), the customers (\<open>src/routes/clientes.js\<close>) and the
  orders (\<open>src/routes/pedidos.js\<close>). The routers never call one another; they interact
  only through the application, which picks at most one of them by mount path, and
  through the order of requests, which Node's single thread handles one at a time.

  \<^bold>\<open>Theories and what they model.\<close>
  \<^item> \<open>Prelude\<close>: JavaScript strings as lists of UTF-16 code units (\<open>js_string\<close> =
    \<open>16 word list\<close>, \<open>js_str\<close> for ASCII literals), \<open>String.prototype.trim\<close> as
    \<open>js_trim\<close> over the ECMAScript white-space and line-terminator code units, and the
    list lemmas the components share (collections \<open>model_defs\<close>, \<open>prelude_simps\<close>).
  \<^item> \<open>JsValue\<close>: what a handler reads from \<open>req.body\<close>: the \<open>json\<close> datatype, with
    \<open>undefined\<close> as \<open>None\<close> (\<open>js_value\<close>); truthiness, \<open>typeof\<close>, \<open>||\<close>,
    \<open>== null\<close>, property access (the last duplicate key wins, as in \<open>JSON.parse\<close>),
    \<open>Array.isArray\<close>; and the numbers arithmetic produces (\<open>jsnum\<close>: finite reals,
    NaN, the two infinities; \<open>JSON.stringify\<close> writes a non-finite number as \<open>null\<close>).
  \<^item> \<open>Http\<close>: the responses (\<open>res.status(n).json(v)\<close>, the body-less HEAD answer, the
    text of an automatic OPTIONS answer, Express's HTML error page), the
    \<open>{ error: msg }\<close> bodies, \<open>req.body || {}\<close> and the required-string test the
    routers share (\<open>missing_string\<close>).
  \<^item> \<open>JsNumber\<close>: ToNumber as the order router's \<open>*\<close> applies it to JSON values:
    StringToNumber (white space, signs, decimals, exponents, \<open>Infinity\<close>, \<open>0x\<close>,
    \<open>0o\<close>, \<open>0b\<close>), arrays through \<open>join\<close>, objects through \<open>toString\<close> (a
    TypeError when an own \<open>toString\<close> property shadows the prototype's), and
    \<open>js_mul\<close>. It also proves that a decimal numeral reads back as its value.
  \<^item> \<open>Cardapio\<close>, \<open>Clientes\<close>, \<open>Pedidos\<close>: one theory per router file. The array is
    a list of records (\<open>menu_item\<close>, \<open>cliente\<close>, \<open>pedido\<close>) with the seed of the
    file (\<open>cardapio_init\<close>, \<open>clientes_init\<close>, \<open>pedidos_init\<close>); each handler is a
    function from the parsed body and the array to the response and the new array
    (\<open>*_get\<close> for \<open>router.get('/')\<close>, \<open>*_post\<close> for \<open>router.post('/')\<close>), with every
    guard and early return of the source as a branch. \<open>Pedidos\<close> also models the
    line validation (\<open>line_invalid\<close>, \<open>lines_valid\<close>) and the \<open>reduce\<close> that sums
    \<open>(it.preco || 0) * it.quantidade\<close> (\<open>line_amount\<close>, \<open>order_total\<close>), whose
    TypeError is the value \<open>Inl TypeError\<close> and becomes Express's 500 page.
  \<^item> \<open>App\<close>: \<open>src/app.js\<close> with the parts of Express it relies on. A request
    (\<open>request\<close>: method, URL, body) goes through \<open>express.json()\<close>
    (\<open>parse_body\<close>; a refused body ends in a 400 page before the logger runs), the logger
    (\<open>st_log\<close>, one \<open>log_line\<close> per request), the three mounts (\<open>use_router\<close>:
    \<open>mount_match\<close> compares the path case-insensitively and accepts a trailing slash;
    \<open>route_root\<close> dispatches GET, HEAD, POST and the automatic OPTIONS) and the 404
    handler, in the order of \<open>app_layers\<close> (\<open>run_layers\<close>). \<open>app_handle\<close> is one
    request on the whole state (\<open>app_state\<close>: the three arrays and the log);
    \<open>app_run\<close> a sequence of them; \<open>reachable\<close> the states a run from \<open>app_init\<close>
    reaches. \<open>mount_regexp_match\<close> and \<open>express_trim_prefix\<close> are a literal
    reading of Express's mount regexp and \<open>trim_prefix\<close>, against which
    \<open>mount_match\<close> is checked.
  \<^item> \<open>Server\<close>: the start-up at the end of \<open>src/app.js\<close>: \<open>PORT\<close> from the
    environment or 3000 (\<open>port_of_env\<close>), Node's \<open>net.Server.listen\<close> deciding between
    a pipe name and a port (\<open>is_pipe_name\<close>), validating the port (\<open>bad_port\<close>, the
    error \<open>ERR_SOCKET_BAD_PORT\<close> as \<open>Inl\<close>) and binding \<open>port | 0\<close> (\<open>to_int32\<close>);
    \<open>server_start\<close> gives the target and the console line of the callback.
  \<^item> \<open>JsonText\<close>: the body text before \<open>req.body\<close>: \<open>express.json()\<close> in strict
    mode (\<open>json_body_of_text\<close>: empty body \<open>{}\<close>, first non-blank character \<open>{\<close> or
    \<open>[\<close>) and \<open>JSON.parse\<close> (\<open>JSON_parse\<close>), a recursive-descent parser run on fuel
    \<open>2 * length + 2\<close>, which is proved to be always enough.
  \<^item> \<open>JsonPrint\<close>: the text \<open>res.json(v)\<close> sends, \<open>JSON.stringify(v)\<close>
    (\<open>json_stringify\<close>): strings quoted by QuoteJSONString (\<open>json_quote\<close>, with
    \<open>\u\<close> escapes for control characters and unpaired surrogates), object keys in
    OrdinaryOwnPropertyKeys order with one entry per key (\<open>own_entries\<close>), numbers
    by \<open>Number::toString\<close> of \<open>NumberText\<close>. \<open>json_norm\<close> is the value a client gets back.
  \<^item> \<open>NumberText\<close>: \<open>Number::toString\<close> (\<open>number_to_string\<close>), every step of the
    ECMAScript algorithm: the digits and exponent of the value (\<open>decimal_digits\<close>), plain,
    pointed, \<open>0.000ddd\<close> and exponent forms (\<open>digits_text\<close>, \<open>exp_text\<close>).
  \<^item> \<open>Schema\<close>: shapes of JSON values and the records of the spec's data model
    (\<open>menu_item_shape\<close>, \<open>cliente_shape\<close>, \<open>pedido_shape\<close>), used to type the
    responses.

  \<^bold>\<open>What is proved.\<close> Per router: the behaviour of POST on each branch (which body is
  refused with which message, what is stored when it is accepted), the invariant of the
  array (identifiers \<open>1..n\<close> in order; for the menu and customers, trimmed non-empty
  strings; for orders, a truthy customer, a non-empty list of valid lines and a total
  equal to what the \<open>reduce\<close> computes) and that every handler keeps it. For orders, that
  the stored total is the spec's sum of unit price times quantity whenever the prices are
  numbers or absent, and what it is when they are not (a string price is coerced, a price
  that cannot be read gives NaN, stored as \<open>null\<close>; an object price with an own
  \<open>toString\<close> gives a 500). For the application: every reachable state satisfies the
  three invariants (rule induction on \<open>reachable\<close>), so identifiers are \<open>1..n\<close>;
  the log lists exactly the requests whose body was accepted, in order,
  only POST changes an array, a refused body changes nothing but answers 400, path
  matching (a library theorem shows it equal to Express's regexp-based matching for the
  lower-case mount paths), HEAD, OPTIONS and unrouted methods on every URL of the menu
  mount, 404 for unknown paths. Across components (below):
  the order router is independent of the other two arrays, and in every reachable state
  the GET responses have the shapes of the data model. For start-up: the port bound is
  always in \<open>[0, 65535]\<close> and fits 16 bits, exactly which \<open>PORT\<close> values throw,
  that a decimal \<open>PORT\<close> reads back as its port, that any \<open>PORT\<close> string whose
  \<open>Number\<close> is an integer port (hexadecimal included) binds that port and is echoed as
  written, and that negative or non-numeric values become pipe names. For the body parser:
  strict mode refuses scalar bodies; library theorems show that \<open>JSON.parse\<close> terminates
  on every text with the chosen fuel and reads back every text \<open>JSON.stringify\<close> prints
  (an induction over the printer with one lemma per lexical part: quoted strings,
  \<open>\u\<close> escapes, numbers in each of their four forms, separators). Composing router,
  printer and parser, the text of \<open>GET /cardapio\<close> and \<open>GET /clientes\<close> reads back as
  exactly the stored records in any state whose numbers are printed.
  Progress (root theory): from every reachable state every
  run of well-formed \<open>POST /cardapio\<close> requests is served, each with 201 and the next
  identifier, so no reachable state blocks additions to the menu.

  \<^bold>\<open>Abstractions.\<close> Numbers in JSON bodies are real numbers: the doubles of
  \<open>JSON.parse\<close> and the rounding of \<open>*\<close> and \<open>+\<close> are not modelled, so totals are
  exact sums (the properties that mention totals hold of the exact arithmetic; the
  program's sum of doubles can differ from it in the last bit and, unlike the exact sum,
  depends on the order of the lines, so no property about line order is stated).
  \<open>StringToNumber\<close> is exact as well (no RoundMVResult): a \<open>PORT\<close> string whose value
  is not a double, such as \<open>"-1e-400"\<close> (JavaScript reads \<open>-0\<close>) or
  \<open>"8080.00000000000000001"\<close> (JavaScript reads \<open>8080\<close>), gets the outcome of its exact
  value in the model. The built-in prototypes are the standard ones
  (nothing in the program changes them). Express is taken at version 4 and Node's
  \<open>net\<close> module as it has been since version 12 (\<open>normalizeArgs\<close>, \<open>isPipeName\<close>,
  \<open>validatePort\<close>); the repository pins no version. No loop of the program can run forever: every
  function of the model is total (structural recursion; for \<open>nat_to_dec\<close> the
  measure \<open>n\<close>, which \<open>n div 10\<close> decreases; for \<open>json_stringify\<close> and
  \<open>json_norm\<close> the size of the value, as an object's printed entries are among its
  own). The one fuelled function is the \<open>JSON.parse\<close> model, whose recursion follows
  the nesting of the text: fuel \<open>2 * length + 2\<close> is proved never to run out, and
  the round trip with the printer is proved at that fuel.

  \<^bold>\<open>Not modelled.\<close> The asynchronous outcome of \<open>app.listen\<close> (a bind that fails with
  \<open>EADDRINUSE\<close> or for lack of permission) and \<open>module.exports\<close>; the HTTP transport and
  headers; the text of the console line beyond the method and URL
  it holds; URL decoding and normalisation beyond cutting the query and fragment; the
  text \<open>Number::toString\<close> gives a value with more than 15 significant digits or outside
  the normal double range: JavaScript prints the shortest decimal of the double nearest the
  value, which depends on binary rounding the exact-real model does not have
  (\<open>number_to_string\<close> is \<open>None\<close> there, and the round trips are stated for the
  printed values); body limits and content types other than JSON.
\<close>

subsection \<open>Independence of the routers\<close>

text \<open>
  C12: the routers do not depend on one another. A request whose path is under the
  \<open>/pedidos\<close> mount gets the same answer, and leaves the same order array, whatever the
  menu and customer arrays hold: creating an order never checks that its customer or its
  menu items exist.
\<close>

theorem orders_independent_of_catalogs:
  assumes "mount_match (js_str ''/pedidos'') (pathname (req_url rq)) \<noteq> None"
  shows "fst (app_handle rq (st\<lparr>st_cardapio := c, st_clientes := k\<rparr>)) = fst (app_handle rq st) \<and>
         st_pedidos (snd (app_handle rq (st\<lparr>st_cardapio := c, st_clientes := k\<rparr>))) =
           st_pedidos (snd (app_handle rq st))"
proof (cases "parse_body (req_body rq)")
  case None
  then show ?thesis by (simp add: app_handle_def)
next
  case (Some b)
  show ?thesis
    using Some
    by (simp add: app_handle_def run_layers_pedidos_path [OF assms] use_router_def
        split: option.split)
qed

theorem orders_independent_of_catalogs_witness:
  "fst (app_handle \<lparr>req_method = GET, req_url = js_str ''/pedidos'', req_body = NoBody\<rparr>
        (app_init\<lparr>st_cardapio := [], st_clientes := []\<rparr>)) =
     fst (app_handle \<lparr>req_method = GET, req_url = js_str ''/pedidos'', req_body = NoBody\<rparr> app_init) \<and>
   st_pedidos (snd (app_handle \<lparr>req_method = GET, req_url = js_str ''/pedidos'', req_body = NoBody\<rparr>
        (app_init\<lparr>st_cardapio := [], st_clientes := []\<rparr>))) =
     st_pedidos (snd (app_handle \<lparr>req_method = GET, req_url = js_str ''/pedidos'', req_body = NoBody\<rparr> app_init))"
proof -
  have "mount_match (js_str ''/pedidos'') (pathname (js_str ''/pedidos'')) \<noteq> None"
    by (simp add: mount_match_exact pathname_def js_str_def ascii_lower_def)
  then show ?thesis
    using orders_independent_of_catalogs
      [where rq = "\<lparr>req_method = GET, req_url = js_str ''/pedidos'', req_body = NoBody\<rparr>"
        and st = app_init and c = "[]" and k = "[]"]
    by simp
qed

subsection \<open>Typing of the responses\<close>

lemma menu_item_wt: "item_nome it \<noteq> [] \<Longrightarrow> json_wt menu_item_shape (menu_item_json it)"
  by (simp add: menu_item_shape_def menu_item_json_def js_str_def)

lemma cliente_wt:
  "cli_nome c \<noteq> [] \<Longrightarrow> cli_telefone c \<noteq> [] \<Longrightarrow> json_wt cliente_shape (cliente_json c)"
  by (simp add: cliente_shape_def cliente_json_def js_str_def)

lemma order_line_wt: "\<not> line_invalid it \<Longrightarrow> json_wt order_line_shape it"
  by (cases it) (auto simp: line_invalid_def order_line_shape_def)

lemma pedido_wt:
  assumes "truthy (Some (ped_clienteId p))" and "ped_itens p \<noteq> []" and "lines_valid (ped_itens p)"
  shows "json_wt pedido_shape (pedido_json p)"
proof -
  have "list_all (json_wt order_line_shape) (ped_itens p)"
    using assms(3) by (simp add: lines_valid_list_all list_all_iff order_line_wt)
  with assms(1,2) show ?thesis
    by (cases "ped_total p") (simp_all add: pedido_shape_def pedido_json_def js_str_def)
qed


text \<open>
  C13: in every reachable state, \<open>GET /cardapio\<close>, \<open>GET /clientes\<close> and \<open>GET /pedidos\<close>
  answer 200 with arrays whose elements have the shapes of the data model: integer
  identifiers, non-empty names and telephones, numeric prices; orders with a truthy
  customer, a non-empty list of lines each with a numeric \<open>id\<close> and a positive
  \<open>quantidade\<close>, and a total that is a number or \<open>null\<close>.
\<close>

theorem reachable_get_responses_typed:
  assumes "reachable st"
  shows "resp_wt 200 (SArr menu_item_shape)
           (fst (app_handle \<lparr>req_method = GET, req_url = js_str ''/cardapio'', req_body = NoBody\<rparr> st)) \<and>
         resp_wt 200 (SArr cliente_shape)
           (fst (app_handle \<lparr>req_method = GET, req_url = js_str ''/clientes'', req_body = NoBody\<rparr> st)) \<and>
         resp_wt 200 (SArr pedido_shape)
           (fst (app_handle \<lparr>req_method = GET, req_url = js_str ''/pedidos'', req_body = NoBody\<rparr> st))"
proof -
  have inv: "cardapio_inv (st_cardapio st)" "clientes_inv (st_clientes st)" "pedidos_inv (st_pedidos st)"
    using reachable_app_inv [OF assms] by (simp_all add: app_inv_def)
  have "list_all (json_wt menu_item_shape) (map menu_item_json (st_cardapio st))"
    using inv(1) by (simp add: list_all_iff cardapio_inv_def menu_item_wt)
  moreover have "list_all (json_wt cliente_shape) (map cliente_json (st_clientes st))"
    using inv(2) by (simp add: list_all_iff clientes_inv_def cliente_wt)
  moreover have "list_all (json_wt pedido_shape) (map pedido_json (st_pedidos st))"
    using inv(3) by (simp add: list_all_iff pedidos_inv_def pedido_wt)
  ultimately show ?thesis
    by (simp add: resp_wt_def app_handle_get_cardapio app_handle_get_clientes app_handle_get_pedidos)
qed

theorem reachable_get_responses_typed_witness:
  "resp_wt 200 (SArr menu_item_shape)
     (fst (app_handle \<lparr>req_method = GET, req_url = js_str ''/cardapio'', req_body = NoBody\<rparr> app_init)) \<and>
   resp_wt 200 (SArr cliente_shape)
     (fst (app_handle \<lparr>req_method = GET, req_url = js_str ''/clientes'', req_body = NoBody\<rparr> app_init)) \<and>
   resp_wt 200 (SArr pedido_shape)
     (fst (app_handle \<lparr>req_method = GET, req_url = js_str ''/pedidos'', req_body = NoBody\<rparr> app_init))"
  by (rule reachable_get_responses_typed [OF reachable.init])

subsection \<open>Progress of the menu\<close>

text \<open>A \<open>POST /cardapio\<close> with the JSON body \<open>{nome: n, preco: p}\<close>, and the items a run
  of them adds to a menu of \<open>k\<close> items.\<close>

definition menu_post_request :: "js_string \<Rightarrow> real \<Rightarrow> request" where
  "menu_post_request n p =
     \<lparr>req_method = POST, req_url = js_str ''/cardapio'',
      req_body = JsonBody (JObj [(js_str ''nome'', JStr n), (js_str ''preco'', JNum p)])\<rparr>"

fun added_items :: "nat \<Rightarrow> (js_string \<times> real) list \<Rightarrow> menu_item list" where
  "added_items k [] = []"
| "added_items k ((n, p) # ps) =
     \<lparr>item_id = Suc k, item_nome = js_trim n, item_preco = p\<rparr> # added_items (Suc k) ps"

lemma app_handle_menu_post:
  assumes "js_trim n \<noteq> []"
  shows "app_handle (menu_post_request n p) st =
    (JsonResp 201 (menu_item_json \<lparr>item_id = Suc (length (st_cardapio st)), item_nome = js_trim n, item_preco = p\<rparr>),
     st\<lparr>st_log := st_log st @ [log_line (menu_post_request n p)],
        st_cardapio := st_cardapio st @ [\<lparr>item_id = Suc (length (st_cardapio st)), item_nome = js_trim n, item_preco = p\<rparr>]\<rparr>)"
proof -
  have "cardapio_post (Some (JObj [(js_str ''nome'', JStr n), (js_str ''preco'', JNum p)])) (st_cardapio st) =
    (JsonResp 201 (menu_item_json \<lparr>item_id = Suc (length (st_cardapio st)), item_nome = js_trim n, item_preco = p\<rparr>),
     st_cardapio st @ [\<lparr>item_id = Suc (length (st_cardapio st)), item_nome = js_trim n, item_preco = p\<rparr>])"
    using cardapio_post_created [where body = "Some (JObj [(js_str ''nome'', JStr n), (js_str ''preco'', JNum p)])"
        and itens = "st_cardapio st" and n = n and p = p] assms
    by (simp add: body_or_empty_def js_str_def Let_def)
  then show ?thesis
    using cardapio_path_mounts
    by (simp add: app_handle_def menu_post_request_def app_layers_def use_router_def route_root_def)
qed

lemma app_run_menu_posts:
  assumes "list_all (\<lambda>(n, p). js_trim n \<noteq> []) ps"
  shows "fst (app_run st (map (\<lambda>(n, p). menu_post_request n p) ps)) =
           map (\<lambda>it. JsonResp 201 (menu_item_json it)) (added_items (length (st_cardapio st)) ps) \<and>
         st_cardapio (snd (app_run st (map (\<lambda>(n, p). menu_post_request n p) ps))) =
           st_cardapio st @ added_items (length (st_cardapio st)) ps"
  using assms
proof (induction ps arbitrary: st)
  case Nil
  then show ?case by simp
next
  case (Cons np ps)
  obtain n p where np: "np = (n, p)" by (cases np)
  then have "js_trim n \<noteq> []" "list_all (\<lambda>(n, p). js_trim n \<noteq> []) ps" using Cons.prems by auto
  let ?st' = "snd (app_handle (menu_post_request n p) st)"
  have IH: "fst (app_run ?st' (map (\<lambda>(n, p). menu_post_request n p) ps)) =
           map (\<lambda>it. JsonResp 201 (menu_item_json it)) (added_items (length (st_cardapio ?st')) ps) \<and>
         st_cardapio (snd (app_run ?st' (map (\<lambda>(n, p). menu_post_request n p) ps))) =
           st_cardapio ?st' @ added_items (length (st_cardapio ?st')) ps"
    by (rule Cons.IH) fact
  show ?case
    using IH np app_handle_menu_post [OF \<open>js_trim n \<noteq> []\<close>, of p st]
    by (simp add: split_def)
qed

text \<open>
  C8: no reachable state blocks the menu: from every state the application can reach,
  every run of well-formed \<open>POST /cardapio\<close> requests (a name that is not blank once
  trimmed, a number as price) is served, each answered 201 with the next identifier, the
  menu growing by exactly the items sent and the state reached staying reachable.
\<close>

theorem reachable_menu_progress:
  assumes "reachable st" and "list_all (\<lambda>(n, p). js_trim n \<noteq> []) ps"
  shows "reachable (snd (app_run st (map (\<lambda>(n, p). menu_post_request n p) ps))) \<and>
         fst (app_run st (map (\<lambda>(n, p). menu_post_request n p) ps)) =
           map (\<lambda>it. JsonResp 201 (menu_item_json it)) (added_items (length (st_cardapio st)) ps) \<and>
         st_cardapio (snd (app_run st (map (\<lambda>(n, p). menu_post_request n p) ps))) =
           st_cardapio st @ added_items (length (st_cardapio st)) ps"
  using reachable_app_run [OF assms(1)] app_run_menu_posts [OF assms(2)] by simp

theorem reachable_menu_progress_witness:
  "reachable (snd (app_run app_init [menu_post_request (js_str ''Suco'') 5, menu_post_request (js_str '' Agua '') 3])) \<and>
   fst (app_run app_init [menu_post_request (js_str ''Suco'') 5, menu_post_request (js_str '' Agua '') 3]) =
     [JsonResp 201 (menu_item_json \<lparr>item_id = 3, item_nome = js_str ''Suco'', item_preco = 5\<rparr>),
      JsonResp 201 (menu_item_json \<lparr>item_id = 4, item_nome = js_str ''Agua'', item_preco = 3\<rparr>)] \<and>
   st_cardapio (snd (app_run app_init [menu_post_request (js_str ''Suco'') 5, menu_post_request (js_str '' Agua '') 3])) =
     cardapio_init @ [\<lparr>item_id = 3, item_nome = js_str ''Suco'', item_preco = 5\<rparr>,
                      \<lparr>item_id = 4, item_nome = js_str ''Agua'', item_preco = 3\<rparr>]"
proof -
  have t: "js_trim (js_str ''Suco'') = js_str ''Suco''" "js_trim (js_str '' Agua '') = js_str ''Agua''"
    by (simp_all add: js_trim_def js_str_def is_js_space_def)
  have l: "list_all (\<lambda>(n, p). js_trim n \<noteq> []) [(js_str ''Suco'', 5 :: real), (js_str '' Agua '', 3)]"
    using t by (simp add: js_str_def)
  have c: "st_cardapio app_init = cardapio_init" "length cardapio_init = 2"
    by (simp_all add: app_init_def cardapio_init_def)
  show ?thesis
    using reachable_menu_progress [OF reachable.init l] t c by (simp del: app_run.simps)
qed

end
